(* ===== verification/Zumo_Prelude.thy ===== *)
theory Zumo_Prelude
  imports Main "HOL-Library.Word" "HOL-Library.Log_Nat" "HOL-Library.Monad_Syntax"
begin

text \<open>
  Shared vocabulary of the development: the C integer types of the ATmega32U4 (avr-gcc: 8-bit
  bytes, 16-bit \<open>int\<close>, little endian, no alignment padding), the byte encodings of the values that
  travel over USB, the collections of simplification rules the component theories fill, and the
  generic facts on words, lists and the option monad they use.

  Undefined behaviour of C (a signed overflow, a float to integer conversion out of range) is the
  value \<^const>\<open>None\<close> of an option type.
\<close>

unbundle bit_operations_syntax

section \<open>C integer types\<close>

type_synonym uint8 = "8 word"
type_synonym uint16 = "16 word"
type_synonym uint32 = "32 word"
type_synonym int16 = "16 word"
type_synonym int32 = "32 word"

text \<open>A \<open>char\<close> is one byte; a character literal is its ASCII code.\<close>

type_synonym byte = "8 word"

definition chr :: "char \<Rightarrow> byte" where
  "chr c = of_char c"

definition cstr :: "string \<Rightarrow> byte list" where
  "cstr s = map chr s"

section \<open>Collections of rules\<close>

named_theorems flt "evaluation of binary32 operations"
named_theorems rb_defs "definitions of the ring buffer operations"
named_theorems bytes "byte encodings"
named_theorems car_ops "lifting of driver operations to the state of the car"
named_theorems frame "what an operation leaves unchanged"

section \<open>Little endian byte encodings\<close>

definition le16 :: "16 word \<Rightarrow> byte list" where
  "le16 w = [ucast w, ucast (drop_bit 8 w)]"

definition le32 :: "32 word \<Rightarrow> byte list" where
  "le32 w = [ucast w, ucast (drop_bit 8 w), ucast (drop_bit 16 w), ucast (drop_bit 24 w)]"

fun of_le16 :: "byte list \<Rightarrow> 16 word" where
  "of_le16 (a # b # _) = ucast a OR push_bit 8 (ucast b)"
| "of_le16 _ = 0"

fun of_le32 :: "byte list \<Rightarrow> 32 word" where
  "of_le32 (a # b # c # d # _) =
     ucast a OR push_bit 8 (ucast b) OR push_bit 16 (ucast c) OR push_bit 24 (ucast d)"
| "of_le32 _ = 0"

section \<open>Signed arithmetic that must not overflow\<close>

definition checked_s16 :: "int \<Rightarrow> int16 option" where
  "checked_s16 i = (if - 32768 \<le> i \<and> i \<le> 32767 then Some (word_of_int i) else None)"

definition checked_u16 :: "int \<Rightarrow> uint16 option" where
  "checked_u16 i = (if 0 \<le> i \<and> i \<le> 65535 then Some (word_of_int i) else None)"

definition checked_s32 :: "int \<Rightarrow> int32 option" where
  "checked_s32 i = (if - 2147483648 \<le> i \<and> i \<le> 2147483647 then Some (word_of_int i) else None)"

section \<open>Counted loops whose body may fail\<close>

fun fold_opt :: "('a \<Rightarrow> 's \<Rightarrow> 's option) \<Rightarrow> 'a list \<Rightarrow> 's \<Rightarrow> 's option" where
  "fold_opt f [] s = Some s"
| "fold_opt f (x # xs) s = f x s \<bind> fold_opt f xs"

section \<open>Facts on bytes\<close>

lemma length_le16 [simp, bytes]: "length (le16 w) = 2"
  by (simp add: le16_def)

lemma length_le32 [simp, bytes]: "length (le32 w) = 4"
  by (simp add: le32_def)

lemma of_le16_le16 [simp, bytes]: "of_le16 (le16 w @ rest) = w"
  unfolding le16_def
  by (simp, rule bit_word_eqI) (auto simp: bit_simps)

lemma of_le32_le32 [simp, bytes]: "of_le32 (le32 w @ rest) = w"
proof (rule bit_word_eqI)
  fix n assume "n < LENGTH(32)"
  then consider "n < 8" | "8 \<le> n" "n < 16" | "16 \<le> n" "n < 24" | "24 \<le> n" "n < 32"
    by force
  then show "bit (of_le32 (le32 w @ rest)) n = bit w n"
    by cases (auto simp: le32_def bit_simps)
qed

lemma byte_high_bits: "8 \<le> n \<Longrightarrow> \<not> bit (w :: byte) n"
  using bit_imp_le_length [of w n] by auto

lemma le32_of_le32: "le32 (of_le32 [a, b, c, d]) = [a, b, c, d]"
  by (auto simp: le32_def intro!: bit_word_eqI simp: bit_simps byte_high_bits)

lemma length_cstr [simp, bytes]: "length (cstr s) = length s"
  by (simp add: cstr_def)

section \<open>Facts on words\<close>

lemma unat_and_mask: "unat (w AND mask n :: 'a::len word) = unat w mod 2 ^ n"
proof -
  have "unat (take_bit n w) = take_bit n (unat w)"
    by (rule unsigned_take_bit_eq)
  then show ?thesis
    by (simp add: take_bit_eq_mask [symmetric] take_bit_eq_mod [of n "unat w"])
qed

lemma unat_less_256 [simp]: "unat (w :: 8 word) < 256"
  by (rule order.strict_trans2 [OF unsigned_less]) simp

lemma unat_of_nat8: "n < 256 \<Longrightarrow> unat (of_nat n :: 8 word) = n"
  by (simp add: unat_of_nat take_bit_eq_mod)

lemma unat_of_nat16: "n < 65536 \<Longrightarrow> unat (of_nat n :: uint16) = n"
  by (simp add: unat_of_nat take_bit_eq_mod)

lemma chr_inj [simp]: "chr a = chr b \<longleftrightarrow> a = b"
proof
  assume "chr a = chr b"
  then have "(of_nat (of_char a) :: byte) = of_nat (of_char b)" by (simp only: chr_def of_nat_of_char)
  then have "unat (of_nat (of_char a) :: byte) = unat (of_nat (of_char b) :: byte)" by simp
  then have "(of_char a :: nat) = of_char b" by (subst (asm) (1 2) unat_of_nat8) auto
  then show "a = b" by simp
qed simp

lemma unat_plus_one8: "unat (w + 1 :: 8 word) = (unat w + 1) mod 256"
  by (simp add: unat_word_ariths)

lemma unat_minus_one8: "unat (w - 1 :: 8 word) = (unat w + 255) mod 256"
proof -
  have "w - 1 = w + (255 :: 8 word)" by simp
  then show ?thesis by (simp only: unat_word_ariths) simp
qed

lemma mod_256_mod: "n dvd 256 \<Longrightarrow> (k mod 256) mod n = k mod (n::nat)"
  by (rule mod_mod_cancel)

text \<open>A register is its eight bits.\<close>

lemma all_less_8: "(\<forall>n<8. P n) \<longleftrightarrow> P 0 \<and> P 1 \<and> P 2 \<and> P 3 \<and> P 4 \<and> P 5 \<and> P 6 \<and> P (7::nat)"
  by (simp add: numeral_eq_Suc All_less_Suc2)

lemma eq8: "w = (v :: 8 word) \<longleftrightarrow>
    bit w 0 = bit v 0 \<and> bit w 1 = bit v 1 \<and> bit w 2 = bit v 2 \<and> bit w 3 = bit v 3 \<and>
    bit w 4 = bit v 4 \<and> bit w 5 = bit v 5 \<and> bit w 6 = bit v 6 \<and> bit w 7 = bit v 7"
proof -
  have "w = v \<longleftrightarrow> (\<forall>n<8. bit w n = bit v n)" by (auto intro: bit_word_eqI)
  then show ?thesis by (simp only: all_less_8)
qed

section \<open>Facts on integer division\<close>

lemma int_div_lower: "(0::int) < D \<Longrightarrow> D * l \<le> n \<Longrightarrow> l \<le> n div D"
  using zdiv_mono1 [of "D * l" n D] by simp

lemma int_mult_div_le: "(0::int) < D \<Longrightarrow> D * (n div D) \<le> n"
  using mult_div_mod_eq [of D n] pos_mod_sign [of D n] by linarith

lemma int_div_upper: "(0::int) < D \<Longrightarrow> n < D * u \<Longrightarrow> n div D < u"
  by (metis int_mult_div_le linorder_not_le mult_le_cancel_left_pos order_trans)

section \<open>Facts on counted loops\<close>

lemma fold_opt_append: "fold_opt f (xs @ ys) s = fold_opt f xs s \<bind> fold_opt f ys"
  by (induction xs arbitrary: s) (auto split: bind_splits)

text \<open>The invariant rule for a loop \<open>for (i = 0; i < n; i++)\<close>; it also says that the loop returns.\<close>

lemma fold_opt_upt:
  assumes "P 0 s" and "\<And>i s. i < n \<Longrightarrow> P i s \<Longrightarrow> \<exists>t. f i s = Some t \<and> P (Suc i) t"
  shows "\<exists>t. fold_opt f [0..<n] s = Some t \<and> P n t"
  using assms(2)
proof (induction n)
  case 0
  then show ?case using assms(1) by simp
next
  case (Suc n)
  then obtain t where "fold_opt f [0..<n] s = Some t" "P n t" by (metis less_SucI)
  then show ?case using Suc.prems by (fastforce simp: fold_opt_append)
qed

lemma fold_upt_inv:
  assumes "P 0 s" and "\<And>i s. i < n \<Longrightarrow> P i s \<Longrightarrow> P (Suc i) (f i s)"
  shows "P n (fold f [0..<n] s)"
  using assms(2) by (induction n) (auto simp: assms(1))

section \<open>Facts on the option monad\<close>

lemma bind_eq_Some_iff: "(m \<bind> f = Some y) = (\<exists>x. m = Some x \<and> f x = Some y)"
  by (cases m) auto

lemma bind_not_None_iff: "(m \<bind> f \<noteq> None) = (\<exists>x. m = Some x \<and> f x \<noteq> None)"
  by (cases m) auto

end
