(* ===== verification/Float32.thy ===== *)
theory Float32
  imports Zumo_Prelude
begin

text \<open>
  The C type \<open>float\<close> of the firmware. On the AVR \<open>float\<close> and \<open>double\<close> are both IEEE 754 binary32,
  so every floating point operation of the sources is a binary32 operation, rounded to nearest,
  ties to even. A value is its bit pattern, a 32-bit word: it is stored in messages as it is.

  A finite value is an integer multiple of \<open>2^-149\<close>; \<open>f_val\<close> is that integer. Exact sums, products
  and quotients are computed on these integers and rounded once by \<open>round_mag\<close>. The two lemmas
  \<open>round_mag_ge\<close> and \<open>round_mag_le\<close> say that rounding never crosses a representable value, from
  which exactness on representable values and monotonicity follow.
\<close>

type_synonym float32 = "32 word"

section \<open>Representation\<close>

definition F_INF :: int where
  "F_INF = 2139095040"

definition f_sgn :: "float32 \<Rightarrow> bool" where
  "f_sgn w = (2147483648 \<le> uint w)"

definition f_mag :: "float32 \<Rightarrow> int" where
  "f_mag w = uint w mod 2147483648"

definition f_nan :: "float32 \<Rightarrow> bool" where
  "f_nan w = (F_INF < f_mag w)"

definition f_inf :: "float32 \<Rightarrow> bool" where
  "f_inf w = (f_mag w = F_INF)"

definition f_fin :: "float32 \<Rightarrow> bool" where
  "f_fin w = (f_mag w < F_INF)"

text \<open>The magnitude bits are an 8-bit exponent and a 23-bit fraction.\<close>

definition mag_val :: "int \<Rightarrow> int" where
  "mag_val b = (let e = b div 8388608; f = b mod 8388608 in
     if e = 0 then f else (f + 8388608) * 2 ^ nat (e - 1))"

definition f_val :: "float32 \<Rightarrow> int" where
  "f_val w = (if f_sgn w then - mag_val (f_mag w) else mag_val (f_mag w))"

text \<open>One unit of the integer scale is \<open>2^-149\<close>, so the number one is this integer.\<close>

definition F_ONE :: int where
  "F_ONE = 2 ^ 149"

section \<open>Rounding\<close>

definition rne :: "int \<Rightarrow> int \<Rightarrow> int" where
  "rne n D = (let q = n div D; r = n mod D in
     if D < 2 * r \<or> (2 * r = D \<and> odd q) then q + 1 else q)"

definition round_mag :: "int \<Rightarrow> int \<Rightarrow> int" where
  "round_mag n d =
     (let k = max 0 (bitlen (n div d) - 24) in
      min F_INF (k * 8388608 + rne n (d * 2 ^ nat k)))"

definition f_make :: "bool \<Rightarrow> int \<Rightarrow> float32" where
  "f_make s b = word_of_int (if s then b + 2147483648 else b)"

definition f_round :: "bool \<Rightarrow> int \<Rightarrow> int \<Rightarrow> float32" where
  "f_round s n d = f_make s (round_mag n d)"

definition f_NAN :: float32 where
  "f_NAN = 0x7FC00000"

section \<open>Operations\<close>

definition f_neg :: "float32 \<Rightarrow> float32" where
  "f_neg a = a XOR 0x80000000"

definition f_add :: "float32 \<Rightarrow> float32 \<Rightarrow> float32" where
  "f_add a b =
     (if f_nan a \<or> f_nan b then f_NAN
      else if f_inf a then (if f_inf b \<and> f_sgn a \<noteq> f_sgn b then f_NAN else a)
      else if f_inf b then b
      else let v = f_val a + f_val b in
        if v = 0 then f_make (f_sgn a \<and> f_sgn b) 0 else f_round (v < 0) \<bar>v\<bar> 1)"

definition f_sub :: "float32 \<Rightarrow> float32 \<Rightarrow> float32" where
  "f_sub a b = f_add a (f_neg b)"

definition f_mul :: "float32 \<Rightarrow> float32 \<Rightarrow> float32" where
  "f_mul a b =
     (let s = (f_sgn a \<noteq> f_sgn b) in
      if f_nan a \<or> f_nan b then f_NAN
      else if f_inf a \<or> f_inf b
        then (if f_mag a = 0 \<or> f_mag b = 0 then f_NAN else f_make s F_INF)
      else f_round s (\<bar>f_val a\<bar> * \<bar>f_val b\<bar>) F_ONE)"

definition f_div :: "float32 \<Rightarrow> float32 \<Rightarrow> float32" where
  "f_div a b =
     (let s = (f_sgn a \<noteq> f_sgn b) in
      if f_nan a \<or> f_nan b then f_NAN
      else if f_inf a then (if f_inf b then f_NAN else f_make s F_INF)
      else if f_inf b then f_make s 0
      else if f_mag b = 0 then (if f_mag a = 0 then f_NAN else f_make s F_INF)
      else f_round s (\<bar>f_val a\<bar> * F_ONE) \<bar>f_val b\<bar>)"

text \<open>Comparisons are false on NaN, \<open>f_ne\<close> is true.\<close>

definition f_lt :: "float32 \<Rightarrow> float32 \<Rightarrow> bool" where
  "f_lt a b = (\<not> f_nan a \<and> \<not> f_nan b \<and> f_val a < f_val b)"

definition f_le :: "float32 \<Rightarrow> float32 \<Rightarrow> bool" where
  "f_le a b = (\<not> f_nan a \<and> \<not> f_nan b \<and> f_val a \<le> f_val b)"

definition f_ne :: "float32 \<Rightarrow> float32 \<Rightarrow> bool" where
  "f_ne a b = (\<not> (\<not> f_nan a \<and> \<not> f_nan b \<and> f_val a = f_val b))"

text \<open>Conversion from an integer, and the decimal literal \<open>n / d\<close>.\<close>

definition f_of_int :: "int \<Rightarrow> float32" where
  "f_of_int i = f_round (i < 0) (\<bar>i\<bar> * F_ONE) 1"

definition f_lit :: "int \<Rightarrow> int \<Rightarrow> float32" where
  "f_lit n d = f_round (n < 0) (\<bar>n\<bar> * F_ONE) d"

text \<open>
  Conversion to an integer truncates towards zero; it is undefined in C when the truncated value
  does not fit the target type.
\<close>

definition f_int :: "float32 \<Rightarrow> int" where
  "f_int a = sgn (f_val a) * (\<bar>f_val a\<bar> div F_ONE)"

definition f_trunc :: "float32 \<Rightarrow> int option" where
  "f_trunc a = (if f_fin a then Some (f_int a) else None)"

definition f_to_s16 :: "float32 \<Rightarrow> int16 option" where
  "f_to_s16 a = f_trunc a \<bind> checked_s16"

definition f_to_u16 :: "float32 \<Rightarrow> uint16 option" where
  "f_to_u16 a = f_trunc a \<bind> checked_u16"

section \<open>The magnitude scale\<close>

lemma mag_parts:
  assumes "0 \<le> b"
  obtains k :: nat and m where "b = int k * 8388608 + m" "0 \<le> m" "m < 16777216"
    "0 < k \<Longrightarrow> 8388608 \<le> m" "mag_val b = m * 2 ^ k"
proof (cases "b div 8388608 = 0")
  case True
  then have "b mod 8388608 = b" by presburger
  then show ?thesis
    using that [of 0 b] True assms by (simp add: mag_val_def Let_def)
next
  case False
  define e f where "e = b div 8388608" and "f = b mod 8388608"
  have e: "1 \<le> e" and f: "0 \<le> f" "f < 8388608"
    using False assms by (auto simp: e_def f_def)
  have "b = e * 8388608 + f" by (simp add: e_def f_def)
  then have "b = int (nat (e - 1)) * 8388608 + (f + 8388608)" using e by simp
  moreover have "mag_val b = (f + 8388608) * 2 ^ nat (e - 1)"
    using False by (simp add: mag_val_def Let_def e_def f_def)
  ultimately show ?thesis using that [of "nat (e - 1)" "f + 8388608"] f by simp
qed

lemma bitlen_less_pow: "x < 2 ^ n \<Longrightarrow> bitlen x \<le> int n"
  by (simp add: bitlen_le_iff_power)

lemma bitlen_ge_pow: "2 ^ n \<le> x \<Longrightarrow> int n < bitlen x"
  by (rule ccontr) (simp add: bitlen_le_iff_power not_less)

lemma round_mag_parts:
  assumes "0 \<le> n" and "0 < d"
  obtains k :: nat and q m where
    "round_mag n d = min F_INF (int k * 8388608 + m)"
    "q = n div (d * 2 ^ k)" "q \<le> m" "m \<le> q + 1" "n = d * 2 ^ k * q \<Longrightarrow> m = q"
    "0 \<le> q" "q < 16777216" "0 < k \<Longrightarrow> 8388608 \<le> q"
proof -
  let ?q0 = "n div d"
  define k where "k = nat (max 0 (bitlen ?q0 - 24))"
  define D where "D = d * 2 ^ k"
  define q where "q = n div D"
  define m where "m = (if D < 2 * (n mod D) \<or> (2 * (n mod D) = D \<and> odd q) then q + 1 else q)"
  have ik: "max 0 (bitlen ?q0 - 24) = int k" by (simp add: k_def)
  have "0 < D" using assms by (simp add: D_def)
  have q0: "0 \<le> ?q0" using assms by (simp add: pos_imp_zdiv_nonneg_iff)
  have q: "q = ?q0 div 2 ^ k" by (simp add: q_def D_def zdiv_zmult2_eq)
  have rm: "round_mag n d = min F_INF (int k * 8388608 + m)"
    unfolding round_mag_def Let_def ik by (simp add: m_def q_def D_def rne_def Let_def)
  have mq: "n = D * q \<Longrightarrow> m = q" using \<open>0 < D\<close> by (simp add: m_def)
  have lt: "q < 16777216"
  proof -
    have "?q0 < 2 ^ (k + 24)"
    proof (cases "?q0 = 0")
      case False
      then have "?q0 < 2 ^ nat (bitlen ?q0)" using bitlen_bounds [of ?q0] q0 by simp
      also have "\<dots> \<le> 2 ^ (k + 24)" by (rule power_increasing) (auto simp: k_def)
      finally show ?thesis .
    qed simp
    then have "?q0 < 2 ^ k * 16777216" by (simp add: power_add)
    then show ?thesis unfolding q by (rule int_div_upper [rotated]) simp
  qed
  have ge: "8388608 \<le> q" if "0 < k"
  proof -
    have "k + 23 = nat (bitlen ?q0 - 1)" and "?q0 \<noteq> 0" using that by (auto simp: k_def)
    then have "2 ^ (k + 23) \<le> ?q0" using bitlen_bounds [of ?q0] q0 by simp
    then have "2 ^ k * 8388608 \<le> ?q0" by (simp add: power_add)
    then show ?thesis unfolding q by (rule int_div_lower [rotated]) simp
  qed
  have "0 \<le> q" using q0 by (simp add: q pos_imp_zdiv_nonneg_iff)
  then show ?thesis
    using that [of k m q] rm mq lt ge by (auto simp: q_def D_def m_def)
qed

text \<open>Rounding stays on its side of every representable value.\<close>

lemma round_mag_ge:
  assumes "0 < d" "0 \<le> b" "b \<le> F_INF" "d * mag_val b \<le> n"
  shows "b \<le> round_mag n d"
proof -
  obtain j c where b: "b = int j * 8388608 + c" "0 \<le> c" "c < 16777216"
    "0 < j \<Longrightarrow> 8388608 \<le> c" "mag_val b = c * 2 ^ j"
    using mag_parts [OF assms(2)] by metis
  have "0 \<le> d * mag_val b" using assms(1) b by simp
  then have "0 \<le> n" using assms(4) by simp
  then obtain k q m where r: "round_mag n d = min F_INF (int k * 8388608 + m)"
    "q = n div (d * 2 ^ k)" "q \<le> m" "m \<le> q + 1" "0 \<le> q" "q < 16777216" "0 < k \<Longrightarrow> 8388608 \<le> q"
    using round_mag_parts [OF _ assms(1)] by metis
  consider "k < j" | "k = j" | "j < k" by linarith
  then have "b \<le> int k * 8388608 + m"
  proof cases
    case 1
    then obtain i where i: "j = Suc (k + i)" using less_imp_Suc_add by blast
    have "d * 2 ^ k * 16777216 \<le> d * 2 ^ k * (c * 2 * 2 ^ i)"
    proof (rule mult_left_mono)
      have "8388608 * 2 * 1 \<le> c * 2 * (2 ^ i :: int)" using b(4) i by (intro mult_mono) auto
      then show "16777216 \<le> c * 2 * (2 ^ i :: int)" by simp
    qed (use assms(1) in simp)
    also have "\<dots> = d * mag_val b" by (simp add: b(5) i power_add)
    also have "\<dots> \<le> n" by (rule assms(4))
    finally have "16777216 \<le> n div (d * 2 ^ k)"
      using assms(1) by (intro int_div_lower) simp
    then show ?thesis using r by simp
  next
    case 2
    have "d * 2 ^ k * c \<le> n" using assms(4) b(5) 2 by (simp add: mult_ac)
    then have "c \<le> q" using assms(1) r(2) int_div_lower [of "d * 2 ^ k" c n] by simp
    then show ?thesis using b r 2 by simp
  next
    case 3
    then have "int j + 1 \<le> int k" and "8388608 \<le> q" using r(7) by auto
    then show ?thesis using b(1-3) r(3) by linarith
  qed
  then show ?thesis using r(1) assms(3) by simp
qed

lemma round_mag_le:
  assumes "0 < d" "0 \<le> b" "0 \<le> n" "n \<le> d * mag_val b"
  shows "round_mag n d \<le> b"
proof -
  obtain j c where b: "b = int j * 8388608 + c" "0 \<le> c" "c < 16777216"
    "0 < j \<Longrightarrow> 8388608 \<le> c" "mag_val b = c * 2 ^ j"
    using mag_parts [OF assms(2)] by metis
  obtain k q m where r: "round_mag n d = min F_INF (int k * 8388608 + m)"
    "q = n div (d * 2 ^ k)" "q \<le> m" "m \<le> q + 1" "n = d * 2 ^ k * q \<Longrightarrow> m = q"
    "0 \<le> q" "q < 16777216" "0 < k \<Longrightarrow> 8388608 \<le> q"
    using round_mag_parts [OF assms(3,1)] by metis
  have D: "0 < d * 2 ^ k" using assms(1) by simp
  have qn: "d * 2 ^ k * q \<le> n"
    unfolding r(2) by (rule int_mult_div_le [OF D])
  consider "j < k" | "k = j" | "k < j" by linarith
  then have "int k * 8388608 + m \<le> b"
  proof cases
    case 1
    then obtain i where i: "k = Suc (j + i)" using less_imp_Suc_add by blast
    have "d * 2 ^ j * 16777216 \<le> d * 2 ^ j * (q * 2 * 2 ^ i)"
    proof (rule mult_left_mono)
      have "8388608 * 2 * 1 \<le> q * 2 * (2 ^ i :: int)" using r(8) i by (intro mult_mono) auto
      then show "16777216 \<le> q * 2 * (2 ^ i :: int)" by simp
    qed (use assms(1) in simp)
    also have "\<dots> \<le> d * 2 ^ j * c"
      using qn assms(4) b(5) i by (simp add: power_add mult_ac)
    finally show ?thesis using assms(1) b(3) by simp
  next
    case 2
    have le: "d * 2 ^ k * q \<le> n" "n \<le> d * 2 ^ k * c" using qn assms(4) b(5) 2 by (simp_all add: mult_ac)
    then have "q \<le> c" using D by (meson order_trans mult_le_cancel_left_pos)
    moreover have "m = q" if "q = c" using r(5) le that by simp
    ultimately have "m \<le> c" using r(4) by force
    then show ?thesis using b 2 by simp
  next
    case 3
    then have "int k + 1 \<le> int j" and "8388608 \<le> c" using b(4) by auto
    then show ?thesis using b(1) r(4,7) by linarith
  qed
  then show ?thesis using r(1) by simp
qed

lemma round_mag_exact:
  "0 < d \<Longrightarrow> 0 \<le> b \<Longrightarrow> b \<le> F_INF \<Longrightarrow> round_mag (d * mag_val b) d = b"
  by (rule antisym) (auto intro: round_mag_le round_mag_ge simp: mag_val_def Let_def)

lemma mag_val_nonneg: "0 \<le> b \<Longrightarrow> 0 \<le> mag_val b"
  by (simp add: mag_val_def Let_def)

lemma mag_val_0 [simp]: "mag_val 0 = 0"
  by (simp add: mag_val_def)

lemma mag_val_less:
  assumes "0 \<le> b" "b < c" "c \<le> F_INF"
  shows "mag_val b < mag_val c"
proof (rule ccontr)
  assume "\<not> mag_val b < mag_val c"
  then have "c \<le> round_mag (mag_val b) 1" using assms by (intro round_mag_ge) auto
  also have "\<dots> \<le> b" using assms by (intro round_mag_le) (auto simp: mag_val_nonneg)
  finally show False using assms by simp
qed

lemma mag_val_le_iff:
  "0 \<le> b \<Longrightarrow> b \<le> F_INF \<Longrightarrow> 0 \<le> c \<Longrightarrow> c \<le> F_INF \<Longrightarrow> mag_val b \<le> mag_val c \<longleftrightarrow> b \<le> c"
  by (metis linorder_not_le mag_val_less order_le_less)

lemma round_mag_bounds:
  assumes "0 \<le> n" "0 < d"
  shows "0 \<le> round_mag n d" "round_mag n d \<le> F_INF"
proof -
  show "0 \<le> round_mag n d" using assms by (intro round_mag_ge) (auto simp: F_INF_def)
  show "round_mag n d \<le> F_INF" by (simp add: round_mag_def Let_def)
qed

text \<open>Every integer of at most 24 significant bits is representable.\<close>

lemma representable:
  assumes "0 \<le> m" "m < 16777216" "k \<le> 253"
  shows "\<exists>b. 0 \<le> b \<and> b < F_INF \<and> mag_val b = m * 2 ^ k"
  using assms
proof (induction k arbitrary: m)
  case 0
  have "mag_val m = m"
  proof (cases "m < 8388608")
    case True
    then show ?thesis using 0 by (simp add: mag_val_def)
  next
    case False
    then have "m div 8388608 = 1" "m mod 8388608 = m - 8388608" using 0
      by (auto simp: int_div_pos_eq [of m 8388608 1 "m - 8388608"] int_mod_pos_eq [of m 8388608 1 "m - 8388608"])
    then show ?thesis by (simp add: mag_val_def)
  qed
  then show ?case using 0 by (auto simp: F_INF_def)
next
  case (Suc k)
  show ?case
  proof (cases "m < 8388608")
    case True
    then show ?thesis using Suc.IH [of "2 * m"] Suc.prems by (simp add: mult_ac)
  next
    case False
    let ?b = "(int (Suc k) + 1) * 8388608 + (m - 8388608)"
    have d: "?b div 8388608 = int (Suc k) + 1" "?b mod 8388608 = m - 8388608"
      using False Suc.prems
      by (auto intro: int_div_pos_eq int_mod_pos_eq)
    have "mag_val ?b = m * 2 ^ Suc k" unfolding mag_val_def Let_def d by (simp add: nat_add_distrib)
    moreover have "0 \<le> ?b \<and> ?b < F_INF" using False Suc.prems by (simp add: F_INF_def)
    ultimately show ?thesis by blast
  qed
qed

section \<open>Packing\<close>

lemma f_make_parts [simp]:
  assumes "0 \<le> b" "b \<le> F_INF"
  shows "f_sgn (f_make s b) = s" "f_mag (f_make s b) = b"
  using assms by (auto simp: f_make_def f_sgn_def f_mag_def F_INF_def uint_word_of_int take_bit_eq_mod)

lemma f_round_parts [simp]:
  assumes "0 \<le> n" "0 < d"
  shows "f_sgn (f_round s n d) = s" "f_mag (f_round s n d) = round_mag n d"
  using round_mag_bounds [OF assms] by (simp_all add: f_round_def)

lemma f_round_not_nan [simp]: "0 \<le> n \<Longrightarrow> 0 < d \<Longrightarrow> \<not> f_nan (f_round s n d)"
  using round_mag_bounds [of n d] by (simp add: f_nan_def)

lemma F_ONE_pos [simp]: "0 < F_ONE" "0 \<le> F_ONE" "F_ONE \<noteq> 0"
  by (simp_all add: F_ONE_def)

section \<open>Integers as floats\<close>

lemma f_of_int_not_nan [simp]: "\<not> f_nan (f_of_int i)"
  by (simp add: f_of_int_def)

lemma f_of_int_exact:
  assumes "\<bar>i\<bar> < 16777216"
  shows "f_val (f_of_int i) = i * F_ONE" "f_fin (f_of_int i)"
proof -
  obtain b where b: "0 \<le> b" "b < F_INF" "mag_val b = \<bar>i\<bar> * F_ONE"
    using representable [of "\<bar>i\<bar>" 149] assms by (auto simp: F_ONE_def)
  have "round_mag (\<bar>i\<bar> * F_ONE) 1 = b" using round_mag_exact [of 1 b] b by simp
  then have "f_mag (f_of_int i) = b" "f_sgn (f_of_int i) = (i < 0)" by (simp_all add: f_of_int_def)
  then show "f_val (f_of_int i) = i * F_ONE" "f_fin (f_of_int i)"
    using b by (auto simp: f_val_def f_fin_def)
qed

lemma f_of_int_nonneg: "0 \<le> i \<Longrightarrow> 0 \<le> f_val (f_of_int i)"
  using round_mag_bounds [of "i * F_ONE" 1]
  by (simp add: f_val_def f_of_int_def mag_val_nonneg)

lemma f_of_int_lower:
  assumes "0 \<le> c" "c < 16777216" "c \<le> i"
  shows "c * F_ONE \<le> f_val (f_of_int i)"
proof -
  obtain b where b: "0 \<le> b" "b < F_INF" "mag_val b = c * F_ONE"
    using representable [of c 149] assms by (auto simp: F_ONE_def)
  have "b \<le> round_mag (i * F_ONE) 1" using b assms by (intro round_mag_ge) auto
  then have "mag_val b \<le> mag_val (round_mag (i * F_ONE) 1)"
    using b assms round_mag_bounds [of "i * F_ONE" 1] by (subst mag_val_le_iff) auto
  then show ?thesis using assms b by (simp add: f_val_def f_of_int_def)
qed

text \<open>Comparing a counter with a whole number of units is exact.\<close>

lemma f_le_of_int:
  assumes "0 \<le> c" "c < 16777216" "0 \<le> i"
  shows "f_le (f_of_int c) (f_of_int i) \<longleftrightarrow> c \<le> i"
proof (cases "c \<le> i")
  case True
  then show ?thesis using f_of_int_lower [of c i] f_of_int_exact [of c] assms by (simp add: f_le_def)
next
  case False
  then have "f_val (f_of_int i) < f_val (f_of_int c)"
    using f_of_int_exact [of c] f_of_int_exact [of i] assms by simp
  then show ?thesis using False by (simp add: f_le_def)
qed

section \<open>Negation\<close>

lemma f_sgn_bit: "f_sgn w = bit w 31"
proof -
  have lt: "uint w < 4294967296" by (rule order.strict_trans2 [OF unsigned_less]) simp
  have "bit w 31 = bit (uint w) 31" by (simp add: bit_uint_iff)
  also have "\<dots> = odd (uint w div 2147483648)" by (simp add: bit_iff_odd)
  also have "\<dots> = f_sgn w"
  proof (cases "2147483648 \<le> uint w")
    case True
    then have "uint w div 2147483648 = 1" using lt by (intro int_div_pos_eq [of _ _ _ "uint w - 2147483648"]) simp_all
    then show ?thesis using True by (simp add: f_sgn_def)
  next
    case False
    then show ?thesis by (simp add: f_sgn_def div_pos_pos_trivial)
  qed
  finally show ?thesis by simp
qed

lemma f_mag_take_bit: "f_mag w = uint (take_bit 31 w)"
proof -
  have "uint (take_bit 31 w) = take_bit 31 (uint w)" by (rule unsigned_take_bit_eq)
  then show ?thesis by (simp add: f_mag_def take_bit_eq_mod [of 31 "uint w"])
qed

lemma f_neg_parts [simp]:
  "f_mag (f_neg a) = f_mag a" "f_sgn (f_neg a) = (\<not> f_sgn a)"
  unfolding f_sgn_bit f_mag_take_bit f_neg_def by (simp_all add: bit_simps take_bit_xor)

lemma f_neg_val [simp]: "f_val (f_neg a) = - f_val a" "f_nan (f_neg a) = f_nan a"
  by (simp_all add: f_val_def f_nan_def)

text \<open>Truncation of a whole number.\<close>

lemma f_int_whole: "f_val x = i * F_ONE \<Longrightarrow> 0 \<le> i \<Longrightarrow> f_int x = i"
  by (cases "i = 0") (simp_all add: f_int_def sgn_if zero_less_mult_iff)

end
