(* ===== verification/Float32_Code.thy ===== *)
theory Float32_Code
  imports Float32
begin

text \<open>
  Code equations that evaluate the binary32 operations on mantissas of a few dozen bits instead of
  integers on the \<open>2^-149\<close> scale. They are proved equal to the definitions of \<open>Float32\<close>, so that
  concrete runs of the firmware evaluate quickly.
\<close>

section \<open>Rounding a scaled quotient\<close>

text \<open>\<open>ge2 p d j\<close> decides \<open>d * 2^j \<le> p\<close> for an exponent of either sign.\<close>

definition ge2 :: "int \<Rightarrow> int \<Rightarrow> int \<Rightarrow> bool" where
  "ge2 p d j = (if 0 \<le> j then d * 2 ^ nat j \<le> p else d \<le> p * 2 ^ nat (- j))"

definition round_scaled :: "int \<Rightarrow> int \<Rightarrow> int \<Rightarrow> int" where
  "round_scaled p d e = (if 0 \<le> e then round_mag (p * 2 ^ nat e) d else round_mag p (d * 2 ^ nat (- e)))"

primrec num_len :: "num \<Rightarrow> int" where
  "num_len Num.One = 1"
| "num_len (Num.Bit0 n) = num_len n + 1"
| "num_len (Num.Bit1 n) = num_len n + 1"

lemma num_len_pos: "0 < num_len n"
  by (induction n) simp_all

lemma bitlen_numeral: "bitlen (numeral n) = num_len n"
proof (induction n)
  case One
  show ?case by (simp add: compute_bitlen [of 1])
next
  case (Bit0 n)
  then show ?case by (subst compute_bitlen) simp
next
  case (Bit1 n)
  then show ?case by (subst compute_bitlen) simp
qed

declare compute_bitlen [code del]

lemma bitlen_code [code]:
  "bitlen 0 = 0" "bitlen (Int.Pos n) = num_len n" "bitlen (Int.Neg n) = 0"
  by (simp_all add: bitlen_numeral Int.Pos_def Int.Neg_def bitlen_eq_zero_iff)

lemma rne_scale: "0 < c \<Longrightarrow> rne (n * c) (D * c) = rne n D"
  by (simp add: rne_def Let_def mult_mod_left [symmetric] mult.assoc [symmetric])

lemma round_mag_scale: "0 < c \<Longrightarrow> round_mag (n * c) (d * c) = round_mag n d"
  using rne_scale [of c n]
  by (simp add: round_mag_def Let_def mult.assoc) (simp add: mult.assoc [symmetric] mult.commute [of c])

lemma ge2_real: "ge2 p d j \<longleftrightarrow> real_of_int d * 2 powi j \<le> real_of_int p"
proof (cases "0 \<le> j")
  case True
  then have "real_of_int d * 2 powi j = real_of_int (d * 2 ^ nat j)"
    by (simp add: power_int_def)
  with True show ?thesis by (simp only: ge2_def of_int_le_iff if_True)
next
  case False
  have "real_of_int d * 2 powi j \<le> real_of_int p \<longleftrightarrow> real_of_int d \<le> real_of_int p * 2 ^ nat (- j)"
    using False by (simp add: power_int_def field_simps)
  also have "\<dots> \<longleftrightarrow> real_of_int d \<le> real_of_int (p * 2 ^ nat (- j))" by simp
  also have "\<dots> \<longleftrightarrow> ge2 p d j" using False by (simp only: of_int_le_iff ge2_def if_False)
  finally show ?thesis by simp
qed

lemma ge2_antimono: "0 < d \<Longrightarrow> i \<le> j \<Longrightarrow> ge2 p d j \<Longrightarrow> ge2 p d i"
proof -
  assume "0 < d" "i \<le> j" "ge2 p d j"
  then have "real_of_int d * 2 powi i \<le> real_of_int d * 2 powi j"
    by (intro mult_left_mono power_int_increasing) auto
  with \<open>ge2 p d j\<close> show ?thesis by (simp add: ge2_real)
qed

lemma ge2_bitlen:
  assumes "0 < p" "0 < d"
  shows "ge2 p d (bitlen p - bitlen d - 1)" "\<not> ge2 p d (bitlen p - bitlen d + 1)"
proof -
  have P: "2 powi (bitlen p - 1) \<le> real_of_int p" "real_of_int p < 2 powi bitlen p"
    if "0 < p" for p
    using bitlen_bounds [OF that] bitlen_nonneg [of p] that bitlen_eq_zero_iff [of p]
    by (simp_all add: power_int_def)
  have "real_of_int d * 2 powi (bitlen p - bitlen d - 1) \<le> 2 powi bitlen d * 2 powi (bitlen p - bitlen d - 1)"
    using P [OF assms(2)] by (intro mult_right_mono) auto
  also have "\<dots> = 2 powi (bitlen p - 1)" by (simp add: power_int_add [symmetric])
  also have "\<dots> \<le> real_of_int p" using P [OF assms(1)] by simp
  finally show "ge2 p d (bitlen p - bitlen d - 1)" by (simp add: ge2_real)
  have "real_of_int p < 2 powi bitlen p" using P [OF assms(1)] by simp
  also have "\<dots> = 2 powi (bitlen d - 1) * 2 powi (bitlen p - bitlen d + 1)"
    by (simp add: power_int_add [symmetric])
  also have "\<dots> \<le> real_of_int d * 2 powi (bitlen p - bitlen d + 1)"
    using P [OF assms(2)] by (intro mult_right_mono) auto
  finally show "\<not> ge2 p d (bitlen p - bitlen d + 1)" by (simp add: ge2_real)
qed

text \<open>The number of bits of the integer part of \<open>p / d * 2^e\<close>.\<close>

lemma bitlen_div_pow:
  assumes "0 \<le> p" "0 < d"
  shows "int j < bitlen (p div d) \<longleftrightarrow> ge2 p d (int j)"
proof -
  have "int j < bitlen (p div d) \<longleftrightarrow> 2 ^ j \<le> p div d"
    using bitlen_le_iff_power [of "p div d" "int j"] by auto
  also have "\<dots> \<longleftrightarrow> d * 2 ^ j \<le> p"
    using assms(2) int_div_lower [of d "2 ^ j" p] int_div_upper [of d p "2 ^ j"] by (metis linorder_not_le)
  finally show ?thesis by (simp add: ge2_def)
qed

lemma ge2_shift:
  assumes "0 < d"
  shows "ge2 (p * 2 ^ a) (d * 2 ^ b) (j + int a - int b) \<longleftrightarrow> ge2 p d j"
proof -
  have "2 ^ b * 2 powi (j + int a - int b) = (2 powi j * 2 ^ a :: real)"
    by (simp add: power_int_add power_int_diff power_int_of_nat)
  then have "real_of_int (d * 2 ^ b) * 2 powi (j + int a - int b) = (real_of_int d * 2 powi j) * 2 ^ a"
    by (simp add: mult.assoc)
  then have "ge2 (p * 2 ^ a) (d * 2 ^ b) (j + int a - int b)
      \<longleftrightarrow> (real_of_int d * 2 powi j) * 2 ^ a \<le> real_of_int p * 2 ^ a"
    by (simp only: ge2_real) simp
  then show ?thesis by (simp add: ge2_real)
qed

definition quot_len :: "int \<Rightarrow> int \<Rightarrow> int" where
  "quot_len p d = (let L = bitlen p - bitlen d in if ge2 p d L then L + 1 else L)"

lemma quot_len:
  assumes "0 < p" "0 < d"
  shows "ge2 p d j \<longleftrightarrow> j < quot_len p d"
  using ge2_bitlen [OF assms] ge2_antimono [OF assms(2)]
  by (auto simp: quot_len_def Let_def split: if_splits)
     (smt (verit, best))+

lemma bitlen_scaled:
  assumes "0 < p" "0 < d"
  shows "max 0 (bitlen ((p * 2 ^ a) div (d * 2 ^ b)) - 24)
       = max 0 (quot_len p d + int a - int b - 24)"
proof -
  let ?B = "bitlen ((p * 2 ^ a) div (d * 2 ^ b))" and ?Q = "quot_len p d + int a - int b"
  have "int j < ?B \<longleftrightarrow> int j < ?Q" for j
  proof -
    have "int j < ?B \<longleftrightarrow> ge2 (p * 2 ^ a) (d * 2 ^ b) (int j)"
      using assms by (intro bitlen_div_pow) simp_all
    also have "\<dots> \<longleftrightarrow> ge2 p d (int j - int a + int b)"
      using ge2_shift [OF assms(2), of p a b "int j - int a + int b"] by simp
    finally have "int j < ?B \<longleftrightarrow> int j - int a + int b < quot_len p d"
      by (simp only: quot_len [OF assms])
    then show ?thesis by (simp only:) arith
  qed
  then have "j < nat ?B \<longleftrightarrow> j < nat ?Q" for j by (simp add: zless_nat_eq_int_zless)
  then have "nat ?B = nat ?Q" by (metis less_irrefl linorder_neqE_nat)
  then show ?thesis by linarith
qed

lemma round_scaled_code:
  "round_scaled p d e =
     (if 0 < p \<and> 0 < d then
        let k = max 0 (quot_len p d + e - 24); x = k - e in
        min F_INF (k * 8388608 + (if 0 \<le> x then rne p (d * 2 ^ nat x) else rne (p * 2 ^ nat (- x)) d))
      else if 0 \<le> e then round_mag (p * 2 ^ nat e) d else round_mag p (d * 2 ^ nat (- e)))"
proof (cases "0 < p \<and> 0 < d")
  case True
  define a b where "a = nat e" and "b = nat (- e)"
  define k where "k = nat (max 0 (quot_len p d + e - 24))"
  have ab: "int a - int b = e" "a = 0 \<or> b = 0" by (auto simp: a_def b_def)
  have rs: "round_scaled p d e = round_mag (p * 2 ^ a) (d * 2 ^ b)"
    by (simp add: round_scaled_def a_def b_def)
  have k: "max 0 (quot_len p d + e - 24) = int k" by (simp add: k_def)
  have "rne (p * 2 ^ a) (d * 2 ^ b * 2 ^ k)
      = (if 0 \<le> int k - e then rne p (d * 2 ^ nat (int k - e)) else rne (p * 2 ^ nat (- (int k - e))) d)"
  proof (cases "e \<le> int k")
    case True
    then have "b + k = nat (int k - e) + a" using ab by linarith
    then have "d * 2 ^ b * 2 ^ k = d * 2 ^ nat (int k - e) * (2 ^ a :: int)"
      by (metis mult.assoc power_add)
    then have "rne (p * 2 ^ a) (d * 2 ^ b * 2 ^ k) = rne p (d * 2 ^ nat (int k - e))"
      by (simp only: rne_scale zero_less_power zero_less_numeral)
    then show ?thesis using True by simp
  next
    case False
    then have "a = nat (- (int k - e)) + k" "b = 0" using ab by linarith+
    then show ?thesis using False rne_scale [of "2 ^ k" "p * 2 ^ nat (- (int k - e))" d]
      by (simp add: power_add mult.assoc)
  qed
  moreover have "max 0 (bitlen ((p * 2 ^ a) div (d * 2 ^ b)) - 24) = int k"
    using bitlen_scaled [of p d a b] True ab(1) k by (simp add: add_diff_eq [symmetric])
  ultimately show ?thesis
    using True by (simp only: rs round_mag_def Let_def k nat_int simp_thms if_True)
next
  case False
  then show ?thesis by (simp only: round_scaled_def if_False)
qed

section \<open>The operations\<close>

definition f_man :: "float32 \<Rightarrow> int" where
  "f_man w = (let b = f_mag w in if b < 8388608 then b else b mod 8388608 + 8388608)"

definition f_exp :: "float32 \<Rightarrow> int" where
  "f_exp w = max 0 (f_mag w div 8388608 - 1)"

definition f_sman :: "float32 \<Rightarrow> int" where
  "f_sman w = (if f_sgn w then - f_man w else f_man w)"

lemma f_mag_nonneg: "0 \<le> f_mag w"
  by (simp add: f_mag_def)

lemma f_val_man: "f_val w = f_sman w * 2 ^ nat (f_exp w)"
proof -
  have "mag_val (f_mag w) = f_man w * 2 ^ nat (f_exp w)"
  proof (cases "f_mag w < 8388608")
    case True
    then show ?thesis using f_mag_nonneg [of w] by (simp add: mag_val_def f_man_def f_exp_def)
  next
    case False
    then have "1 \<le> f_mag w div 8388608" by (intro int_div_lower) simp_all
    then show ?thesis using False by (simp add: mag_val_def f_man_def f_exp_def Let_def)
  qed
  then show ?thesis by (simp add: f_val_def f_sman_def)
qed

lemma f_man_nonneg: "0 \<le> f_man w" and f_exp_nonneg: "0 \<le> f_exp w"
  using f_mag_nonneg [of w] by (simp_all add: f_man_def f_exp_def Let_def)

lemma abs_f_val: "\<bar>f_val w\<bar> = f_man w * 2 ^ nat (f_exp w)"
  using f_man_nonneg [of w] by (auto simp: f_val_man f_sman_def abs_mult)

lemma f_add_code:
  "f_add a b =
     (if f_nan a \<or> f_nan b then f_NAN
      else if f_inf a then (if f_inf b \<and> f_sgn a \<noteq> f_sgn b then f_NAN else a)
      else if f_inf b then b
      else let e = min (f_exp a) (f_exp b);
               v = f_sman a * 2 ^ nat (f_exp a - e) + f_sman b * 2 ^ nat (f_exp b - e) in
        if v = 0 then f_make (f_sgn a \<and> f_sgn b) 0 else f_make (v < 0) (round_scaled \<bar>v\<bar> 1 e))"
proof -
  define e where "e = min (f_exp a) (f_exp b)"
  define v where "v = f_sman a * 2 ^ nat (f_exp a - e) + f_sman b * 2 ^ nat (f_exp b - e)"
  have e: "0 \<le> e" "e \<le> f_exp a" "e \<le> f_exp b" by (auto simp: e_def f_exp_nonneg)
  have "2 ^ nat (f_exp w) = 2 ^ nat (f_exp w - e) * (2 ^ nat e :: int)" if "e \<le> f_exp w" for w
    using that e(1) by (simp add: power_add [symmetric] nat_add_distrib [symmetric])
  then have "f_val a + f_val b = v * 2 ^ nat e"
    using e by (simp add: f_val_man v_def algebra_simps)
  moreover have "f_round s (\<bar>v\<bar> * 2 ^ nat e) 1 = f_make s (round_scaled \<bar>v\<bar> 1 e)" for s
    using e(1) by (simp add: f_round_def round_scaled_def)
  ultimately show ?thesis
    by (simp add: f_add_def Let_def e_def [symmetric] v_def [symmetric] abs_mult mult_less_0_iff)
qed

lemma f_mul_code:
  "f_mul a b =
     (let s = (f_sgn a \<noteq> f_sgn b) in
      if f_nan a \<or> f_nan b then f_NAN
      else if f_inf a \<or> f_inf b
        then (if f_mag a = 0 \<or> f_mag b = 0 then f_NAN else f_make s F_INF)
      else f_make s (round_scaled (f_man a * f_man b) 1 (f_exp a + f_exp b - 149)))"
proof -
  let ?t = "f_exp a + f_exp b" and ?p = "f_man a * f_man b"
  have v: "\<bar>f_val a\<bar> * \<bar>f_val b\<bar> = ?p * 2 ^ nat ?t"
    by (simp add: abs_f_val nat_add_distrib f_exp_nonneg power_add)
  have "round_mag (?p * 2 ^ nat ?t) (2 ^ 149) = round_scaled ?p 1 (?t - 149)"
  proof (cases "149 \<le> ?t")
    case True
    then have "2 ^ nat ?t = 2 ^ nat (?t - 149) * (2 ^ 149 :: int)"
      by (simp only: power_add [symmetric]) (simp add: nat_diff_distrib)
    then show ?thesis
      using True round_mag_scale [of "2 ^ 149" "?p * 2 ^ nat (?t - 149)" 1]
      by (simp add: round_scaled_def mult.assoc)
  next
    case False
    have "(2 ^ 149 :: int) = 2 ^ nat (149 - ?t) * 2 ^ nat ?t"
      using False f_exp_nonneg [of a] f_exp_nonneg [of b]
      by (simp only: power_add [symmetric]) (simp add: nat_add_distrib [symmetric])
    then show ?thesis
      using False round_mag_scale [of "2 ^ nat ?t" ?p "2 ^ nat (149 - ?t)"]
      by (simp add: round_scaled_def)
  qed
  then show ?thesis by (simp add: f_mul_def Let_def v f_round_def F_ONE_def)
qed

lemma f_div_code:
  "f_div a b =
     (let s = (f_sgn a \<noteq> f_sgn b) in
      if f_nan a \<or> f_nan b then f_NAN
      else if f_inf a then (if f_inf b then f_NAN else f_make s F_INF)
      else if f_inf b then f_make s 0
      else if f_mag b = 0 then (if f_mag a = 0 then f_NAN else f_make s F_INF)
      else f_make s (round_scaled (f_man a) (f_man b) (f_exp a + 149 - f_exp b)))"
proof -
  let ?t = "f_exp a + 149"
  have n: "f_man a * 2 ^ nat (f_exp a) * F_ONE = f_man a * 2 ^ nat ?t"
    using f_exp_nonneg [of a] by (simp add: F_ONE_def nat_add_distrib power_add)
  have "round_mag (f_man a * 2 ^ nat ?t) (f_man b * 2 ^ nat (f_exp b))
      = round_scaled (f_man a) (f_man b) (?t - f_exp b)"
  proof (cases "f_exp b \<le> ?t")
    case True
    then have "2 ^ nat ?t = 2 ^ nat (?t - f_exp b) * (2 ^ nat (f_exp b) :: int)"
      using f_exp_nonneg [of b] by (simp only: power_add [symmetric]) (simp add: nat_add_distrib [symmetric])
    then show ?thesis
      using True round_mag_scale [of "2 ^ nat (f_exp b)" "f_man a * 2 ^ nat (?t - f_exp b)" "f_man b"]
      by (simp add: round_scaled_def mult.assoc)
  next
    case False
    then have "2 ^ nat (f_exp b) = 2 ^ nat (f_exp b - ?t) * (2 ^ nat ?t :: int)"
      using f_exp_nonneg [of a] by (simp only: power_add [symmetric]) (simp add: nat_add_distrib [symmetric])
    then show ?thesis
      using False round_mag_scale [of "2 ^ nat ?t" "f_man a" "f_man b * 2 ^ nat (f_exp b - ?t)"]
      by (simp add: round_scaled_def mult.assoc)
  qed
  then show ?thesis by (simp only: f_div_def Let_def abs_f_val n f_round_def)
qed

lemma f_of_int_code [code]: "f_of_int i = f_make (i < 0) (round_scaled \<bar>i\<bar> 1 149)"
  by (simp add: f_of_int_def f_round_def round_scaled_def F_ONE_def)

lemma f_lit_code [code]: "f_lit n d = f_make (n < 0) (round_scaled \<bar>n\<bar> d 149)"
  by (simp add: f_lit_def f_round_def round_scaled_def F_ONE_def)

lemma f_int_code:
  "f_int a = (let x = 149 - f_exp a;
                  m = (if 0 \<le> x then f_man a div 2 ^ nat x else f_man a * 2 ^ nat (- x))
              in if f_sgn a then - m else m)"
proof -
  define x where "x = 149 - f_exp a"
  have "f_man a * 2 ^ nat (f_exp a) div F_ONE
      = (if 0 \<le> x then f_man a div 2 ^ nat x else f_man a * 2 ^ nat (- x))"
  proof (cases "0 \<le> x")
    case True
    then have "F_ONE = 2 ^ nat x * 2 ^ nat (f_exp a)"
      using f_exp_nonneg [of a] by (simp only: F_ONE_def x_def power_add [symmetric])
        (simp add: nat_add_distrib [symmetric])
    moreover have "f_man a * 2 ^ nat (f_exp a) div (2 ^ nat x * 2 ^ nat (f_exp a)) = f_man a div 2 ^ nat x"
      by (rule div_mult_mult2) simp
    ultimately show ?thesis using True by simp
  next
    case False
    then have "2 ^ nat (f_exp a) = 2 ^ nat (- x) * F_ONE"
      by (simp only: F_ONE_def x_def power_add [symmetric]) (simp add: nat_diff_distrib)
    then show ?thesis using False by (simp add: mult.assoc [symmetric])
  qed
  moreover have "sgn (f_val a) * (\<bar>f_val a\<bar> div F_ONE)
      = (if f_sgn a then - (\<bar>f_val a\<bar> div F_ONE) else \<bar>f_val a\<bar> div F_ONE)"
  proof -
    have "0 \<le> f_man a * 2 ^ nat (f_exp a)" by (simp add: f_man_nonneg)
    then show ?thesis by (auto simp: f_val_man f_sman_def sgn_if)
  qed
  ultimately show ?thesis by (simp add: f_int_def abs_f_val x_def Let_def)
qed

section \<open>Strict evaluation\<close>

text \<open>
  The simplifier that evaluates code equations works under \<open>let\<close> before the bound value is known;
  the equations below pass intermediate results as arguments instead.
\<close>

definition rne_qr :: "int \<Rightarrow> int \<Rightarrow> int \<Rightarrow> int" where
  "rne_qr q r D = (if D < 2 * r \<or> (2 * r = D \<and> odd q) then q + 1 else q)"

definition round_k :: "int \<Rightarrow> int \<Rightarrow> int \<Rightarrow> int \<Rightarrow> int" where
  "round_k p d e k = min F_INF (k * 8388608 +
     (if 0 \<le> k - e then rne p (d * 2 ^ nat (k - e)) else rne (p * 2 ^ nat (e - k)) d))"

definition quot_len_at :: "int \<Rightarrow> int \<Rightarrow> int \<Rightarrow> int" where
  "quot_len_at p d L = (if ge2 p d L then L + 1 else L)"

definition man_of :: "int \<Rightarrow> int" where
  "man_of b = (if b < 8388608 then b else b mod 8388608 + 8388608)"

definition add_at :: "bool \<Rightarrow> int \<Rightarrow> int \<Rightarrow> float32" where
  "add_at s v e = (if v = 0 then f_make s 0 else f_make (v < 0) (round_scaled \<bar>v\<bar> 1 e))"

definition add_al :: "float32 \<Rightarrow> float32 \<Rightarrow> int \<Rightarrow> int \<Rightarrow> int \<Rightarrow> float32" where
  "add_al a b ea eb e = add_at (f_sgn a \<and> f_sgn b)
     (f_sman a * 2 ^ nat (ea - e) + f_sman b * 2 ^ nat (eb - e)) e"

definition trunc_at :: "bool \<Rightarrow> int \<Rightarrow> int \<Rightarrow> int" where
  "trunc_at s m x = (if s then - 1 else 1) * (if 0 \<le> x then m div 2 ^ nat x else m * 2 ^ nat (- x))"

lemma rne_strict [code]: "rne n D = rne_qr (n div D) (n mod D) D"
  by (simp add: rne_def rne_qr_def Let_def)

lemma quot_len_strict [code]: "quot_len p d = quot_len_at p d (bitlen p - bitlen d)"
  by (simp add: quot_len_def quot_len_at_def Let_def)

lemma round_scaled_strict [code]:
  "round_scaled p d e =
     (if 0 < p \<and> 0 < d then round_k p d e (max 0 (quot_len p d + e - 24))
      else if 0 \<le> e then round_mag (p * 2 ^ nat e) d else round_mag p (d * 2 ^ nat (- e)))"
  by (subst round_scaled_code) (simp add: round_k_def Let_def)

lemma f_man_strict [code]: "f_man w = man_of (f_mag w)"
  by (simp add: f_man_def man_of_def Let_def)

lemma f_add_strict [code]:
  "f_add a b =
     (if f_nan a \<or> f_nan b then f_NAN
      else if f_inf a then (if f_inf b \<and> f_sgn a \<noteq> f_sgn b then f_NAN else a)
      else if f_inf b then b
      else add_al a b (f_exp a) (f_exp b) (min (f_exp a) (f_exp b)))"
  by (subst f_add_code) (simp add: add_al_def add_at_def Let_def)

lemma f_mul_strict [code]:
  "f_mul a b =
     (if f_nan a \<or> f_nan b then f_NAN
      else if f_inf a \<or> f_inf b
        then (if f_mag a = 0 \<or> f_mag b = 0 then f_NAN else f_make (f_sgn a \<noteq> f_sgn b) F_INF)
      else f_make (f_sgn a \<noteq> f_sgn b) (round_scaled (f_man a * f_man b) 1 (f_exp a + f_exp b - 149)))"
  by (subst f_mul_code) (simp add: Let_def)

lemma f_div_strict [code]:
  "f_div a b =
     (if f_nan a \<or> f_nan b then f_NAN
      else if f_inf a then (if f_inf b then f_NAN else f_make (f_sgn a \<noteq> f_sgn b) F_INF)
      else if f_inf b then f_make (f_sgn a \<noteq> f_sgn b) 0
      else if f_mag b = 0 then (if f_mag a = 0 then f_NAN else f_make (f_sgn a \<noteq> f_sgn b) F_INF)
      else f_make (f_sgn a \<noteq> f_sgn b) (round_scaled (f_man a) (f_man b) (f_exp a + 149 - f_exp b)))"
  by (subst f_div_code) (simp add: Let_def)

lemma f_int_strict [code]: "f_int a = trunc_at (f_sgn a) (f_man a) (149 - f_exp a)"
  by (subst f_int_code) (simp add: Let_def trunc_at_def)

text \<open>Rules that evaluate a closed float expression with the simplifier.\<close>

lemmas f_eval [flt] = f_mul_strict f_div_strict f_add_strict f_sub_def f_neg_def f_nan_def f_mag_def f_inf_def F_INF_def
  f_sgn_def f_man_strict man_of_def f_exp_def round_scaled_strict round_k_def quot_len_strict quot_len_at_def ge2_def
  bitlen_numeral rne_strict rne_qr_def f_make_def add_al_def add_at_def f_sman_def f_of_int_code f_lit_code
  f_to_s16_def f_trunc_def f_int_strict trunc_at_def f_fin_def checked_s16_def f_to_u16_def checked_u16_def
  f_lt_def f_le_def f_ne_def f_val_man f_NAN_def

lemma bitlen_small [flt]: "bitlen 1 = 1" "bitlen 0 = 0"
  by (simp_all add: compute_bitlen)

end
