(* ===== verification/Avr_Io.thy ===== *)
theory Avr_Io
  imports Float32_Code
begin

text \<open>
  The I/O registers of the ATmega32U4 that several drivers share: the ports and the status register.
  Registers used by one driver only are part of that driver's record. Pin input registers are
  arguments: the outside world sets them.
\<close>

record io =
  SREG :: uint8
  PORTB :: uint8
  DDRB :: uint8
  PORTC :: uint8
  DDRC :: uint8
  PORTD :: uint8
  DDRD :: uint8
  PORTF :: uint8
  DDRF :: uint8

record pins =
  PINB :: uint8
  PINE :: uint8
  PINF :: uint8

definition io_reset :: io where
  "io_reset = \<lparr>SREG = 0, PORTB = 0, DDRB = 0, PORTC = 0, DDRC = 0, PORTD = 0, DDRD = 0, PORTF = 0, DDRF = 0\<rparr>"

text \<open>The global interrupt enable flag is bit 7 of the status register.\<close>

definition cli :: "io \<Rightarrow> io" where
  "cli r = r\<lparr>SREG := SREG r AND 0x7F\<rparr>"

definition sei :: "io \<Rightarrow> io" where
  "sei r = r\<lparr>SREG := SREG r OR 0x80\<rparr>"

text \<open>\<open>1 << n\<close> and its complement as a byte mask.\<close>

definition bv :: "nat \<Rightarrow> uint8" where
  "bv n = push_bit n 1"

text \<open>
  \<open>bit_is_set (sfr, n)\<close> of \<^verbatim>\<open>avr/sfr_defs.h\<close> is the masked register, \<open>sfr & (1 << n)\<close>: a byte,
  not a truth value.
\<close>

definition bit_is_set :: "uint8 \<Rightarrow> nat \<Rightarrow> uint8" where
  "bit_is_set sfr n = sfr AND bv n"

lemma bit_bv [simp]: "bit (bv n) k \<longleftrightarrow> k = n \<and> n < 8"
  by (auto simp: bv_def bit_simps)

lemma bit_is_set_iff [simp]: "bit_is_set r n \<noteq> 0 \<longleftrightarrow> bit r n" "bit_is_set r n = 0 \<longleftrightarrow> \<not> bit r n"
proof -
  have "bit_is_set r n = 0 \<longleftrightarrow> \<not> bit r n"
  proof
    assume "bit_is_set r n = 0"
    then have "\<not> bit (bit_is_set r n) n" by simp
    then show "\<not> bit r n" by (auto simp: bit_is_set_def bit_simps dest: bit_imp_le_length)
  next
    assume "\<not> bit r n"
    then show "bit_is_set r n = 0" by (intro bit_word_eqI) (auto simp: bit_is_set_def bit_simps)
  qed
  then show "bit_is_set r n \<noteq> 0 \<longleftrightarrow> bit r n" "bit_is_set r n = 0 \<longleftrightarrow> \<not> bit r n" by auto
qed

lemma sei_cli [simp]: "sei (cli r) = sei r"
proof -
  have "(SREG r AND 0x7F) OR 0x80 = SREG r OR 0x80"
    by (simp add: eq8 bit_simps)
  then show ?thesis by (simp add: sei_def cli_def)
qed

end
