(* ===== verification/Timing.thy ===== *)
theory Timing
  imports Avr_Io
begin

text \<open>
  \<^verbatim>\<open>Driver/Timing.c\<close>: the millisecond clock on timer 0. The 8-bit counter \<open>TCNT0\<close> advances every
  four microseconds; at compare value 249 the interrupt service routine counts one millisecond and
  clears it.
\<close>

record Time_t =
  millisec :: uint32
  microsec :: uint16

record timing =
  count_ms :: uint32
  ms_counter_1 :: uint8
  ms_counter_2 :: uint8
  ms_counter_3 :: uint8
  ms_counter_4 :: uint8
  TCNT0 :: uint8
  TCCR0B :: uint8
  TIMSK0 :: uint8
  OCR0B :: uint8

definition timing_reset :: timing where
  "timing_reset = \<lparr>count_ms = 0, ms_counter_1 = 0, ms_counter_2 = 0, ms_counter_3 = 0, ms_counter_4 = 0,
     TCNT0 = 0, TCCR0B = 0, TIMSK0 = 0, OCR0B = 0\<rparr>"

definition SetupTimer0 :: "timing \<Rightarrow> io \<Rightarrow> timing \<times> io" where
  "SetupTimer0 t r =
     (t\<lparr>TCCR0B := TCCR0B t OR bv 0 OR bv 1, TIMSK0 := TIMSK0 t OR bv 2, OCR0B := 249, TCNT0 := 0,
        count_ms := 0, ms_counter_1 := 0, ms_counter_2 := 0, ms_counter_3 := 0, ms_counter_4 := 0\<rparr>,
      sei r)"

definition GetTime :: "timing \<Rightarrow> Time_t" where
  "GetTime t =
     \<lparr>millisec = count_ms t,
      microsec = word_of_int (f_int (f_mul (f_of_int (uint (TCNT0 t) * 64)) (f_lit 625 10000)))\<rparr>"

definition GetTimeSec :: "timing \<Rightarrow> float32" where
  "GetTimeSec t =
     (let time = GetTime t;
          time_seconds = f_add 0 (f_div (f_of_int (uint (millisec time))) (f_of_int 1000))
      in f_add time_seconds (f_div (f_of_int (uint (microsec time))) (f_of_int 1000000)))"

definition GetMilli :: "timing \<Rightarrow> uint32" where
  "GetMilli t = millisec (GetTime t)"

definition GetMicro :: "timing \<Rightarrow> uint16" where
  "GetMicro t = microsec (GetTime t)"

definition SecondsSince :: "timing \<Rightarrow> Time_t \<Rightarrow> Time_t" where
  "SecondsSince t time_start_p =
     (let current_time = GetTime t in
      \<lparr>millisec = millisec current_time - millisec time_start_p,
       microsec = microsec current_time - microsec time_start_p\<rparr>)"

text \<open>The number of passes of the busy-wait loop: \<open>sbiw\<close> decrements before \<open>brne\<close> tests.\<close>

definition delay_passes :: "uint16 \<Rightarrow> nat" where
  "delay_passes us = (if us = 0 then 65536 else unat us)"

definition DelayMicroseconds :: "uint16 \<Rightarrow> nat" where
  "DelayMicroseconds us = (if us \<le> 1 then 0 else delay_passes (push_bit 2 us - 5))"

definition TIMER0_COMPB_vect :: "timing \<Rightarrow> timing" where
  "TIMER0_COMPB_vect t =
     t\<lparr>count_ms := count_ms t + 1, TCNT0 := 0,
       ms_counter_1 := ms_counter_1 t + 1, ms_counter_2 := ms_counter_2 t + 1,
       ms_counter_3 := ms_counter_3 t + 1, ms_counter_4 := ms_counter_4 t + 1\<rparr>"

section \<open>The clock\<close>

lemma f_lit_sixteenth: "f_lit 625 10000 = 0x3D800000"
  by code_simp

lemma GetTime_parts [simp]: "millisec (GetTime t) = count_ms t"
  by (simp add: GetTime_def)

lemma SecondsSince_millisec [simp]: "millisec (SecondsSince t s) = count_ms t - millisec s"
  by (simp add: SecondsSince_def Let_def)

lemma count_ms_isr [simp]: "count_ms (TIMER0_COMPB_vect t) = count_ms t + 1"
  by (simp add: TIMER0_COMPB_vect_def)

lemma count_ms_isr_n: "count_ms ((TIMER0_COMPB_vect ^^ n) t) = count_ms t + of_nat n"
  by (induction n) simp_all

end
