(* ===== verification/Encoder.thy ===== *)
theory Encoder
  imports Avr_Io
begin

text \<open>
  \<^verbatim>\<open>Driver/Encoder.c\<close>: the quadrature encoders of the two tracks. Channel B and the XOR of the two
  channels are wired to pins; the interrupt service routines run on a change of the XOR pin. The
  counters are signed 32-bit: an increment past their range is undefined (\<^const>\<open>None\<close>).
\<close>

record encoder =
  last_right_A :: bool
  last_right_B :: bool
  last_right_XOR :: bool
  last_left_A :: bool
  last_left_B :: bool
  last_left_XOR :: bool
  left_counts :: int32
  right_counts :: int32
  PCICR :: uint8
  PCMSK0 :: uint8
  EIMSK :: uint8
  EICRB :: uint8

definition encoder_reset :: encoder where
  "encoder_reset = \<lparr>last_right_A = False, last_right_B = False, last_right_XOR = False,
     last_left_A = False, last_left_B = False, last_left_XOR = False, left_counts = 0, right_counts = 0,
     PCICR = 0, PCMSK0 = 0, EIMSK = 0, EICRB = 0\<rparr>"

text \<open>A \<open>bool\<close> result is the test of the returned byte against zero.\<close>

definition Right_XOR :: "pins \<Rightarrow> bool" where "Right_XOR i = (bit_is_set (PINE i) 6 \<noteq> 0)"
definition Right_B :: "pins \<Rightarrow> bool" where "Right_B i = (bit_is_set (PINF i) 0 \<noteq> 0)"
definition Right_A :: "pins \<Rightarrow> bool" where "Right_A i = (bit_is_set (PINE i) 6 XOR bit_is_set (PINF i) 0 \<noteq> 0)"
definition Left_XOR :: "pins \<Rightarrow> bool" where "Left_XOR i = (bit_is_set (PINB i) 4 \<noteq> 0)"
definition Left_B :: "pins \<Rightarrow> bool" where "Left_B i = (bit_is_set (PINE i) 2 \<noteq> 0)"
definition Left_A :: "pins \<Rightarrow> bool" where "Left_A i = (bit_is_set (PINB i) 4 XOR bit_is_set (PINE i) 2 \<noteq> 0)"

definition Encoders_Init :: "pins \<Rightarrow> encoder \<Rightarrow> encoder" where
  "Encoders_Init i e =
     (let e = e\<lparr>PCICR := PCICR e OR 0x01, PCMSK0 := PCMSK0 e OR 0x10,
                EIMSK := EIMSK e OR 0x40, EICRB := EICRB e OR 0x10\<rparr>;
          e = e\<lparr>last_left_B := (bit_is_set (PINE i) 2 \<noteq> 0), last_left_XOR := (bit_is_set (PINB i) 4 \<noteq> 0)\<rparr>;
          e = e\<lparr>last_left_A := (last_left_B e \<noteq> last_left_XOR e)\<rparr>;
          e = e\<lparr>last_right_B := (bit_is_set (PINF i) 0 \<noteq> 0), last_right_XOR := (bit_is_set (PINE i) 6 \<noteq> 0)\<rparr>;
          e = e\<lparr>last_right_A := (last_right_B e \<noteq> last_right_XOR e)\<rparr>
      in e\<lparr>left_counts := 0, right_counts := 0\<rparr>)"

text \<open>The readers save the status register, disable interrupts and restore it.\<close>

definition Counts_Left :: "encoder \<Rightarrow> io \<Rightarrow> int32 \<times> io" where
  "Counts_Left e r = (let sreg_value = SREG r; r = cli r; counts_left = left_counts e
     in (counts_left, r\<lparr>SREG := sreg_value\<rparr>))"

definition Counts_Right :: "encoder \<Rightarrow> io \<Rightarrow> int32 \<times> io" where
  "Counts_Right e r = (let sreg_value = SREG r; r = cli r; counts_right = right_counts e
     in (counts_right, r\<lparr>SREG := sreg_value\<rparr>))"

definition Zero_Encoders :: "encoder \<Rightarrow> io \<Rightarrow> encoder \<times> io" where
  "Zero_Encoders e r = (let sreg_value = SREG r; r = cli r; e = e\<lparr>right_counts := 0, left_counts := 0\<rparr>
     in (e, r\<lparr>SREG := sreg_value\<rparr>))"

definition rad_per_count :: float32 where
  "rad_per_count = f_div (f_mul (f_of_int 2) (f_lit 314159 100000)) (f_mul (f_of_int 12) (f_lit 7581 100))"

definition Rad_Left :: "encoder \<Rightarrow> io \<Rightarrow> float32 \<times> io" where
  "Rad_Left e r = (let (c, r) = Counts_Left e r in (f_mul (f_of_int (sint c)) rad_per_count, r))"

definition Rad_Right :: "encoder \<Rightarrow> io \<Rightarrow> float32 \<times> io" where
  "Rad_Right e r = (let (c, r) = Counts_Right e r in (f_mul (f_of_int (sint c)) rad_per_count, r))"

definition PCINT0_vect :: "pins \<Rightarrow> encoder \<Rightarrow> encoder option" where
  "PCINT0_vect i e =
     (if last_left_XOR e \<noteq> Left_XOR i then do {
        c \<leftarrow> checked_s32 (sint (left_counts e)
               + (of_bool (last_left_B e \<noteq> Left_A i) - of_bool (last_left_A e \<noteq> Left_B i)));
        Some (e\<lparr>left_counts := c, last_left_A := Left_A i, last_left_B := Left_B i, last_left_XOR := Left_XOR i\<rparr>) }
      else Some e)"

definition INT6_vect :: "pins \<Rightarrow> encoder \<Rightarrow> encoder option" where
  "INT6_vect i e =
     (if last_right_XOR e \<noteq> Right_XOR i then do {
        c \<leftarrow> checked_s32 (sint (right_counts e)
               + (of_bool (last_right_B e \<noteq> Right_A i) - of_bool (last_right_A e \<noteq> Right_B i)));
        Some (e\<lparr>right_counts := c, last_right_A := Right_A i, last_right_B := Right_B i, last_right_XOR := Right_XOR i\<rparr>) }
      else Some e)"

section \<open>What the channel A helpers compute\<close>

text \<open>
  The operands of \<open>^\<close> are bytes with different bits set, so the result is zero only when both pins
  are low: the helpers compute a disjunction.
\<close>

lemma xor_of_masks: "m \<noteq> n \<Longrightarrow> bit_is_set r m XOR bit_is_set s n \<noteq> 0 \<longleftrightarrow> bit r m \<or> bit s n"
proof -
  assume "m \<noteq> n"
  have "bit_is_set r m XOR bit_is_set s n = 0 \<longleftrightarrow> bit_is_set r m = bit_is_set s n"
  proof
    assume z: "bit_is_set r m XOR bit_is_set s n = 0"
    have "bit_is_set r m = (bit_is_set r m XOR bit_is_set s n) XOR bit_is_set s n" by (simp add: xor.assoc)
    then show "bit_is_set r m = bit_is_set s n" by (simp add: z)
  qed simp
  also have "\<dots> \<longleftrightarrow> \<not> bit r m \<and> \<not> bit s n"
  proof
    assume eq: "bit_is_set r m = bit_is_set s n"
    have "bit (bit_is_set r m) m = bit (bit_is_set s n) m" "bit (bit_is_set r m) n = bit (bit_is_set s n) n"
      using eq by simp_all
    then show "\<not> bit r m \<and> \<not> bit s n" using \<open>m \<noteq> n\<close>
      by (auto simp: bit_is_set_def bit_simps dest: bit_imp_le_length)
  qed (metis bit_is_set_iff(2))
  finally show ?thesis by blast
qed

lemma Left_A_or: "Left_A i = (Left_XOR i \<or> Left_B i)"
  by (simp add: Left_A_def Left_XOR_def Left_B_def xor_of_masks)

lemma Right_A_or: "Right_A i = (Right_XOR i \<or> Right_B i)"
  by (simp add: Right_A_def Right_XOR_def Right_B_def xor_of_masks)

section \<open>Motion of a track\<close>

text \<open>
  The position of a track in quarter periods of the quadrature signal: channel A leads channel B when
  the position grows. \<open>left_pins\<close> are pin values that show the left channels at that position.
\<close>

definition chan_A :: "int \<Rightarrow> bool" where "chan_A p = (p mod 4 = 1 \<or> p mod 4 = 2)"
definition chan_B :: "int \<Rightarrow> bool" where "chan_B p = (p mod 4 = 2 \<or> p mod 4 = 3)"

definition left_pins :: "int \<Rightarrow> pins \<Rightarrow> bool" where
  "left_pins p i \<longleftrightarrow> (bit (PINB i) 4 = (chan_A p \<noteq> chan_B p)) \<and> (bit (PINE i) 2 = chan_B p)"

definition right_pins :: "int \<Rightarrow> pins \<Rightarrow> bool" where
  "right_pins p i \<longleftrightarrow> (bit (PINE i) 6 = (chan_A p \<noteq> chan_B p)) \<and> (bit (PINF i) 0 = chan_B p)"

text \<open>The count the routine reaches at position \<open>p\<close>: two counts in four quarter periods.\<close>

definition half_count :: "int \<Rightarrow> int" where
  "half_count p = 2 * (p div 4) + (if p mod 4 = 0 then 0 else if p mod 4 = 1 then 1 else 2)"

text \<open>What the routine remembers of position \<open>p\<close>.\<close>

definition left_at :: "int \<Rightarrow> encoder \<Rightarrow> bool" where
  "left_at p e \<longleftrightarrow> last_left_XOR e = (chan_A p \<noteq> chan_B p) \<and> last_left_B e = chan_B p \<and>
     last_left_A e = (chan_A p \<or> chan_B p) \<and> sint (left_counts e) = half_count p"

definition right_at :: "int \<Rightarrow> encoder \<Rightarrow> bool" where
  "right_at p e \<longleftrightarrow> last_right_XOR e = (chan_A p \<noteq> chan_B p) \<and> last_right_B e = chan_B p \<and>
     last_right_A e = (chan_A p \<or> chan_B p) \<and> sint (right_counts e) = half_count p"

fun run_left :: "pins list \<Rightarrow> encoder \<Rightarrow> encoder option" where
  "run_left [] e = Some e"
| "run_left (i # is) e = PCINT0_vect i e \<bind> run_left is"

fun run_right :: "pins list \<Rightarrow> encoder \<Rightarrow> encoder option" where
  "run_right [] e = Some e"
| "run_right (i # is) e = INT6_vect i e \<bind> run_right is"

text \<open>A path moves by one quarter period at a time.\<close>

fun quarter_path :: "int \<Rightarrow> int list \<Rightarrow> bool" where
  "quarter_path p [] = True"
| "quarter_path p (q # qs) = ((q = p + 1 \<or> q = p - 1) \<and> quarter_path q qs)"

lemma mod4_cases: "(p::int) mod 4 = 0 \<or> p mod 4 = 1 \<or> p mod 4 = 2 \<or> p mod 4 = 3"
  by presburger

lemma succ_mod4: "((p::int) + 1) mod 4 = (if p mod 4 = 3 then 0 else p mod 4 + 1)"
  by presburger

lemma succ_div4: "((p::int) + 1) div 4 = (if p mod 4 = 3 then p div 4 + 1 else p div 4)"
  by presburger

lemma half_count_step:
  "q = p + 1 \<or> q = p - 1 \<Longrightarrow>
   half_count q - half_count p = of_bool (chan_B p \<noteq> (chan_A q \<or> chan_B q)) - of_bool ((chan_A p \<or> chan_B p) \<noteq> chan_B q)"
proof -
  note s = succ_mod4 succ_div4
  have up: "half_count (p + 1) - half_count p
      = of_bool (chan_B p \<noteq> (chan_A (p + 1) \<or> chan_B (p + 1))) - of_bool ((chan_A p \<or> chan_B p) \<noteq> chan_B (p + 1))" for p
    using mod4_cases [of p] by (auto simp: half_count_def chan_A_def chan_B_def s)
  have down: "half_count p - half_count (p + 1)
      = of_bool (chan_B (p + 1) \<noteq> (chan_A p \<or> chan_B p)) - of_bool ((chan_A (p + 1) \<or> chan_B (p + 1)) \<noteq> chan_B p)" for p
    using mod4_cases [of p] by (auto simp: half_count_def chan_A_def chan_B_def s)
  assume "q = p + 1 \<or> q = p - 1"
  then show ?thesis using up [of p] down [of "p - 1"] by auto
qed

lemma xor_changes: "q = p + 1 \<or> q = p - 1 \<Longrightarrow> (chan_A p \<noteq> chan_B p) \<noteq> (chan_A q \<noteq> chan_B q)"
proof -
  have "(chan_A p \<noteq> chan_B p) \<noteq> (chan_A (p + 1) \<noteq> chan_B (p + 1))" for p
    using mod4_cases [of p] by (auto simp: chan_A_def chan_B_def succ_mod4)
  from this [of p] this [of "p - 1"] show "q = p + 1 \<or> q = p - 1 \<Longrightarrow> ?thesis" by auto
qed

lemma half_count_bound: "\<bar>2 * half_count p - p\<bar> \<le> 2"
proof -
  define a r where "a = p div 4" and "r = p mod 4"
  have "p = 4 * a + r" "r = 0 \<or> r = 1 \<or> r = 2 \<or> r = 3" using mod4_cases [of p] by (simp_all add: a_def r_def)
  then show ?thesis by (auto simp: half_count_def a_def [symmetric] r_def [symmetric])
qed

section \<open>The interrupt service routines follow the motion\<close>

lemma left_step:
  assumes "left_at p e" "q = p + 1 \<or> q = p - 1" "left_pins q i" "\<bar>q\<bar> < 2147483648"
  shows "\<exists>e'. PCINT0_vect i e = Some e' \<and> left_at q e' \<and>
    right_counts e' = right_counts e"
proof -
  have pins: "Left_XOR i = (chan_A q \<noteq> chan_B q)" "Left_B i = chan_B q" "Left_A i = (chan_A q \<or> chan_B q)"
    using assms(3) by (auto simp: left_pins_def Left_XOR_def Left_B_def Left_A_or)
  have ne: "last_left_XOR e \<noteq> Left_XOR i" using xor_changes [OF assms(2)] assms(1) by (simp add: pins left_at_def)
  let ?c = "sint (left_counts e) + (of_bool (last_left_B e \<noteq> Left_A i) - of_bool (last_left_A e \<noteq> Left_B i))"
  have c: "?c = half_count q" using half_count_step [OF assms(2)] assms(1) by (simp add: pins left_at_def)
  have "\<bar>half_count q\<bar> < 2147483648" using half_count_bound [of q] assms(4) by linarith
  then have "checked_s32 ?c = Some (word_of_int (half_count q))" "sint (word_of_int (half_count q) :: int32) = half_count q"
    unfolding c by (auto simp: checked_s32_def signed_of_int signed_take_bit_int_eq_self)
  then show ?thesis using ne by (simp add: PCINT0_vect_def left_at_def pins)
qed

lemma right_step:
  assumes "right_at p e" "q = p + 1 \<or> q = p - 1" "right_pins q i" "\<bar>q\<bar> < 2147483648"
  shows "\<exists>e'. INT6_vect i e = Some e' \<and> right_at q e' \<and>
    left_counts e' = left_counts e"
proof -
  have pins: "Right_XOR i = (chan_A q \<noteq> chan_B q)" "Right_B i = chan_B q" "Right_A i = (chan_A q \<or> chan_B q)"
    using assms(3) by (auto simp: right_pins_def Right_XOR_def Right_B_def Right_A_or)
  have ne: "last_right_XOR e \<noteq> Right_XOR i" using xor_changes [OF assms(2)] assms(1) by (simp add: pins right_at_def)
  let ?c = "sint (right_counts e) + (of_bool (last_right_B e \<noteq> Right_A i) - of_bool (last_right_A e \<noteq> Right_B i))"
  have c: "?c = half_count q" using half_count_step [OF assms(2)] assms(1) by (simp add: pins right_at_def)
  have "\<bar>half_count q\<bar> < 2147483648" using half_count_bound [of q] assms(4) by linarith
  then have "checked_s32 ?c = Some (word_of_int (half_count q))" "sint (word_of_int (half_count q) :: int32) = half_count q"
    unfolding c by (auto simp: checked_s32_def signed_of_int signed_take_bit_int_eq_self)
  then show ?thesis using ne by (simp add: INT6_vect_def right_at_def pins)
qed

lemma left_run:
  assumes "left_at p e" "quarter_path p qs" "list_all2 left_pins qs is" "list_all (\<lambda>q. \<bar>q\<bar> < 2147483648) qs"
  shows "\<exists>e'. run_left is e = Some e' \<and> left_at (last (p # qs)) e'"
  using assms
proof (induction qs arbitrary: p e "is")
  case Nil
  then show ?case by simp
next
  case (Cons q qs)
  then obtain i is' where i: "is = i # is'" "left_pins q i" "list_all2 left_pins qs is'"
    by (auto simp: list_all2_Cons1)
  obtain e1 where "PCINT0_vect i e = Some e1" "left_at q e1"
    using left_step [of p e q i] Cons.prems i(2) by auto
  then show ?case using Cons.IH [of q e1 is'] Cons.prems i by simp
qed

lemma right_run:
  assumes "right_at p e" "quarter_path p qs" "list_all2 right_pins qs is" "list_all (\<lambda>q. \<bar>q\<bar> < 2147483648) qs"
  shows "\<exists>e'. run_right is e = Some e' \<and> right_at (last (p # qs)) e'"
  using assms
proof (induction qs arbitrary: p e "is")
  case Nil
  then show ?case by simp
next
  case (Cons q qs)
  then obtain i is' where i: "is = i # is'" "right_pins q i" "list_all2 right_pins qs is'"
    by (auto simp: list_all2_Cons1)
  obtain e1 where "INT6_vect i e = Some e1" "right_at q e1"
    using right_step [of p e q i] Cons.prems i(2) by auto
  then show ?case using Cons.IH [of q e1 is'] Cons.prems i by simp
qed

lemma Encoders_Init_at:
  "left_pins 0 i \<Longrightarrow> left_at 0 (Encoders_Init i e)"
  "right_pins 0 i \<Longrightarrow> right_at 0 (Encoders_Init i e)"
  by (auto simp: Encoders_Init_def left_at_def right_at_def left_pins_def right_pins_def
      chan_A_def chan_B_def half_count_def Let_def)

lemma Counts_simps [simp]:
  "Counts_Left e r = (left_counts e, r)" "Counts_Right e r = (right_counts e, r)"
  "Zero_Encoders e r = (e\<lparr>right_counts := 0, left_counts := 0\<rparr>, r)"
  by (simp_all add: Counts_Left_def Counts_Right_def Zero_Encoders_def cli_def)

end
