(* ===== verification/Led_Servo.thy ===== *)
theory Led_Servo
  imports Avr_Io
begin

text \<open>
  \<^verbatim>\<open>Driver/LED_switch.c\<close> and \<^verbatim>\<open>Driver/ServoPWM.c\<close>: the three status lights on port D and the gripper
  servo on timer 4.
\<close>

datatype eLEDLights = RED | GREEN | BLUE

datatype eGripperState = OPEN | CLOSE

record servo =
  TCCR4A :: uint8
  TCCR4B :: uint8
  TCCR4D :: uint8
  OCR4A :: uint8
  OCR4C :: uint8
  TCNT4 :: uint8
  TC4H :: uint8

definition servo_reset :: servo where
  "servo_reset = \<lparr>TCCR4A = 0, TCCR4B = 0, TCCR4D = 0, OCR4A = 0, OCR4C = 0, TCNT4 = 0, TC4H = 0\<rparr>"

definition DUTY_CYCLE_MIN :: uint8 where "DUTY_CYCLE_MIN = 8"
definition DUTY_CYCLE_MAX :: uint8 where "DUTY_CYCLE_MAX = 16"
definition DUTY_CYCLE_OPEN :: uint8 where "DUTY_CYCLE_OPEN = 10"
definition DUTY_CYCLE_CLOSED :: uint8 where "DUTY_CYCLE_CLOSED = 13"
definition SERVO_MAX_PWM :: uint8 where "SERVO_MAX_PWM = 156"

definition LED_Init :: "io \<Rightarrow> io" where
  "LED_Init r =
     (let r = r\<lparr>DDRD := DDRD r OR bv 5, PORTD := PORTD r AND NOT (bv 5)\<rparr>;
          r = r\<lparr>DDRD := DDRD r OR bv 0, PORTD := PORTD r AND NOT (bv 0)\<rparr>
      in r\<lparr>DDRD := DDRD r OR bv 3, PORTD := PORTD r AND NOT (bv 3)\<rparr>)"

fun Set_LED :: "eLEDLights \<Rightarrow> bool \<Rightarrow> io \<Rightarrow> io" where
  "Set_LED RED on r = (if on then r\<lparr>PORTD := PORTD r OR bv 5\<rparr> else r\<lparr>PORTD := PORTD r AND NOT (bv 5)\<rparr>)"
| "Set_LED GREEN on r = (if on then r\<lparr>PORTD := PORTD r OR bv 0\<rparr> else r\<lparr>PORTD := PORTD r AND NOT (bv 0)\<rparr>)"
| "Set_LED BLUE on r = (if on then r\<lparr>PORTD := PORTD r OR bv 3\<rparr> else r\<lparr>PORTD := PORTD r AND NOT (bv 3)\<rparr>)"

definition Set_LEDs :: "eGripperState \<Rightarrow> io \<Rightarrow> io" where
  "Set_LEDs state r =
     (if state = OPEN then Set_LED BLUE False (Set_LED GREEN True r)
      else if state = CLOSE then Set_LED GREEN False (Set_LED BLUE True r)
      else Set_LED BLUE False (Set_LED GREEN False r))"

definition Servo_PWM_Init :: "eGripperState \<Rightarrow> servo \<Rightarrow> io \<Rightarrow> servo \<times> io" where
  "Servo_PWM_Init state s r =
     (let s = s\<lparr>TCCR4A := (TCCR4A s OR 0x82) AND NOT 0x40\<rparr>;
          s = s\<lparr>TCCR4B := (TCCR4B s AND NOT 0x0F) OR 0x0C\<rparr>;
          s = s\<lparr>TCCR4D := TCCR4D s AND NOT 0x03\<rparr>;
          r = r\<lparr>DDRC := DDRC r OR bv 7\<rparr>;
          (s, r) = (if state = OPEN then (s\<lparr>OCR4A := DUTY_CYCLE_OPEN\<rparr>, Set_LEDs OPEN r)
                    else (s\<lparr>OCR4A := DUTY_CYCLE_CLOSED\<rparr>, Set_LEDs CLOSE r));
          oldSREG = SREG r; r = cli r;
          s = s\<lparr>OCR4C := SERVO_MAX_PWM, TCNT4 := 0, TC4H := TC4H s AND NOT 0x07\<rparr>
      in (s, r\<lparr>SREG := oldSREG\<rparr>))"

definition Close_Servo :: "servo \<Rightarrow> io \<Rightarrow> servo \<times> io" where
  "Close_Servo s r = (let oldSREG = SREG r; r = cli r; s = s\<lparr>OCR4A := DUTY_CYCLE_MAX\<rparr>; r = r\<lparr>SREG := oldSREG\<rparr>
     in (s, Set_LEDs CLOSE r))"

definition Open_Servo :: "servo \<Rightarrow> io \<Rightarrow> servo \<times> io" where
  "Open_Servo s r = (let oldSREG = SREG r; r = cli r; s = s\<lparr>OCR4A := DUTY_CYCLE_MIN\<rparr>; r = r\<lparr>SREG := oldSREG\<rparr>
     in (s, Set_LEDs OPEN r))"

definition Servo_Is_Closed :: "servo \<Rightarrow> bool" where
  "Servo_Is_Closed s = (OCR4A s < DUTY_CYCLE_MIN + 10)"

text \<open>The light that each pin drives.\<close>

fun led_pin :: "eLEDLights \<Rightarrow> nat" where
  "led_pin RED = 5" | "led_pin GREEN = 0" | "led_pin BLUE = 3"

definition led_on :: "eLEDLights \<Rightarrow> io \<Rightarrow> bool" where
  "led_on l r = bit (PORTD r) (led_pin l)"

lemma Set_LED_on: "led_on l (Set_LED m on r) = (if l = m then on else led_on l r)"
  by (cases l; cases m) (auto simp: led_on_def bit_simps)

lemma Set_LED_frame [simp]:
  "SREG (Set_LED l on r) = SREG r" "PORTB (Set_LED l on r) = PORTB r" "DDRB (Set_LED l on r) = DDRB r"
  "PORTC (Set_LED l on r) = PORTC r" "DDRC (Set_LED l on r) = DDRC r" "DDRD (Set_LED l on r) = DDRD r"
  "PORTF (Set_LED l on r) = PORTF r" "DDRF (Set_LED l on r) = DDRF r"
  by (cases l; simp)+

lemma Set_LEDs_on:
  "led_on l (Set_LEDs g r) = (case l of RED \<Rightarrow> led_on RED r | GREEN \<Rightarrow> g = OPEN | BLUE \<Rightarrow> g = CLOSE)"
  by (cases l; cases g) (simp_all add: Set_LEDs_def led_on_def bit_simps)

lemma Servo_PWM_Init_ok:
  "OCR4A (fst (Servo_PWM_Init g s r)) = (if g = OPEN then 10 else 13)"
  "OCR4C (fst (Servo_PWM_Init g s r)) = 156"
  "SREG (snd (Servo_PWM_Init g s r)) = SREG r"
  "PORTB (snd (Servo_PWM_Init g s r)) = PORTB r"
  "led_on l (snd (Servo_PWM_Init g s r)) = led_on l (Set_LEDs g r)"
  by (cases g; simp add: Servo_PWM_Init_def Let_def DUTY_CYCLE_OPEN_def DUTY_CYCLE_CLOSED_def SERVO_MAX_PWM_def
      cli_def Set_LEDs_def Set_LED_on led_on_def bit_simps)+

end
