(* ===== verification/Ring_Buffer.thy ===== *)
theory Ring_Buffer
  imports Float32
begin

text \<open>
  \<^verbatim>\<open>Driver/Ring_Buffer.c\<close>: the fixed size ring buffers of floats (8 slots) and of bytes (64 slots).
  The C code has one copy of every operation per element type; so has this theory. Both copies
  satisfy the equations of the locale \<open>ring_ops\<close>, for which the contract \<open>bounded_deque\<close>
  (a list of at most \<open>N - 1\<close> elements that drops from the far end when it is full) is proved once.

  Indices are 8-bit words; the masks keep them below the number of slots. The loop of \<open>rb_set_X\<close>
  may run forever: \<^const>\<open>None\<close> is its not returning.
\<close>

section \<open>Data\<close>

record 'a ring_buffer =
  buffer :: "'a list"
  start_index :: uint8
  end_index :: uint8

type_synonym Ring_Buffer_F = "float32 ring_buffer"
type_synonym Ring_Buffer_C = "byte ring_buffer"

definition RB_LENGTH_F :: uint8 where "RB_LENGTH_F = 8"
definition RB_LENGTH_C :: uint8 where "RB_LENGTH_C = 64"
definition RB_MASK_F :: uint8 where "RB_MASK_F = RB_LENGTH_F - 1"
definition RB_MASK_C :: uint8 where "RB_MASK_C = RB_LENGTH_C - 1"

section \<open>Operations on the float buffer\<close>

definition rb_initialize_F :: "Ring_Buffer_F \<Rightarrow> Ring_Buffer_F" where
  "rb_initialize_F p = p\<lparr>start_index := 0, end_index := 0\<rparr>"

definition rb_length_F :: "Ring_Buffer_F \<Rightarrow> uint8" where
  "rb_length_F p = (end_index p - start_index p) AND RB_MASK_F"

definition rb_push_back_F :: "Ring_Buffer_F \<Rightarrow> float32 \<Rightarrow> Ring_Buffer_F" where
  "rb_push_back_F p value =
     (let p = p\<lparr>buffer := (buffer p)[unat (end_index p) := value]\<rparr>;
          p = p\<lparr>end_index := (end_index p + 1) AND RB_MASK_F\<rparr>
      in if end_index p = start_index p
         then p\<lparr>start_index := (start_index p + 1) AND RB_MASK_F\<rparr> else p)"

definition rb_push_front_F :: "Ring_Buffer_F \<Rightarrow> float32 \<Rightarrow> Ring_Buffer_F" where
  "rb_push_front_F p value =
     (let p = p\<lparr>start_index := (start_index p - 1) AND RB_MASK_F\<rparr>;
          p = p\<lparr>buffer := (buffer p)[unat (start_index p) := value]\<rparr>
      in if start_index p = end_index p
         then p\<lparr>end_index := (end_index p - 1) AND RB_MASK_F\<rparr> else p)"

definition rb_pop_back_F :: "Ring_Buffer_F \<Rightarrow> float32 \<times> Ring_Buffer_F" where
  "rb_pop_back_F p =
     (if start_index p \<noteq> end_index p
      then let p = p\<lparr>end_index := (end_index p - 1) AND RB_MASK_F\<rparr>
           in (buffer p ! unat (end_index p), p)
      else (0, p))"

definition rb_pop_front_F :: "Ring_Buffer_F \<Rightarrow> float32 \<times> Ring_Buffer_F" where
  "rb_pop_front_F p =
     (if end_index p \<noteq> start_index p
      then let p = p\<lparr>start_index := (start_index p + 1) AND RB_MASK_F\<rparr>
           in (buffer p ! unat ((start_index p - 1) AND RB_MASK_F), p)
      else (0, p))"

definition rb_get_F :: "Ring_Buffer_F \<Rightarrow> uint8 \<Rightarrow> float32" where
  "rb_get_F p index = buffer p ! unat ((start_index p + index) AND RB_MASK_F)"

partial_function (option) rb_fill_F ::
  "Ring_Buffer_F \<Rightarrow> uint8 \<Rightarrow> float32 \<Rightarrow> Ring_Buffer_F option" where
  "rb_fill_F p index value =
     (if index \<ge> rb_length_F p then rb_fill_F (rb_push_back_F p value) index value else Some p)"

definition rb_set_F :: "Ring_Buffer_F \<Rightarrow> uint8 \<Rightarrow> float32 \<Rightarrow> Ring_Buffer_F option" where
  "rb_set_F p index value =
     (if index \<ge> rb_length_F p
      then (if \<not> index \<ge> RB_LENGTH_F then rb_fill_F p index value else Some p)
      else Some (p\<lparr>buffer := (buffer p)[unat ((start_index p + index) AND RB_MASK_F) := value]\<rparr>))"

section \<open>Operations on the byte buffer\<close>

definition rb_initialize_C :: "Ring_Buffer_C \<Rightarrow> Ring_Buffer_C" where
  "rb_initialize_C p = p\<lparr>start_index := 0, end_index := 0\<rparr>"

definition rb_length_C :: "Ring_Buffer_C \<Rightarrow> uint8" where
  "rb_length_C p = (end_index p - start_index p) AND RB_MASK_C"

definition rb_push_back_C :: "Ring_Buffer_C \<Rightarrow> byte \<Rightarrow> Ring_Buffer_C" where
  "rb_push_back_C p value =
     (let p = p\<lparr>buffer := (buffer p)[unat (end_index p) := value]\<rparr>;
          p = p\<lparr>end_index := (end_index p + 1) AND RB_MASK_C\<rparr>
      in if end_index p = start_index p
         then p\<lparr>start_index := (start_index p + 1) AND RB_MASK_C\<rparr> else p)"

definition rb_push_front_C :: "Ring_Buffer_C \<Rightarrow> byte \<Rightarrow> Ring_Buffer_C" where
  "rb_push_front_C p value =
     (let p = p\<lparr>start_index := (start_index p - 1) AND RB_MASK_C\<rparr>;
          p = p\<lparr>buffer := (buffer p)[unat (start_index p) := value]\<rparr>
      in if start_index p = end_index p
         then p\<lparr>end_index := (end_index p - 1) AND RB_MASK_C\<rparr> else p)"

definition rb_pop_back_C :: "Ring_Buffer_C \<Rightarrow> byte \<times> Ring_Buffer_C" where
  "rb_pop_back_C p =
     (if start_index p \<noteq> end_index p
      then let p = p\<lparr>end_index := (end_index p - 1) AND RB_MASK_C\<rparr>
           in (buffer p ! unat (end_index p), p)
      else (0, p))"

definition rb_pop_front_C :: "Ring_Buffer_C \<Rightarrow> byte \<times> Ring_Buffer_C" where
  "rb_pop_front_C p =
     (if end_index p \<noteq> start_index p
      then let p = p\<lparr>start_index := (start_index p + 1) AND RB_MASK_C\<rparr>
           in (buffer p ! unat ((start_index p - 1) AND RB_MASK_C), p)
      else (0, p))"

definition rb_get_C :: "Ring_Buffer_C \<Rightarrow> uint8 \<Rightarrow> byte" where
  "rb_get_C p index = buffer p ! unat ((start_index p + index) AND RB_MASK_C)"

partial_function (option) rb_fill_C ::
  "Ring_Buffer_C \<Rightarrow> uint8 \<Rightarrow> byte \<Rightarrow> Ring_Buffer_C option" where
  "rb_fill_C p index value =
     (if index \<ge> rb_length_C p then rb_fill_C (rb_push_back_C p value) index value else Some p)"

definition rb_set_C :: "Ring_Buffer_C \<Rightarrow> uint8 \<Rightarrow> byte \<Rightarrow> Ring_Buffer_C option" where
  "rb_set_C p index value =
     (if index \<ge> rb_length_C p
      then (if \<not> index \<ge> RB_LENGTH_C then rb_fill_C p index value else Some p)
      else Some (p\<lparr>buffer := (buffer p)[unat ((start_index p + index) AND RB_MASK_C) := value]\<rparr>))"

text \<open>A buffer as the C runtime zeroes it before \<open>main\<close>.\<close>

definition rb_zero_F :: Ring_Buffer_F where
  "rb_zero_F = \<lparr>buffer = replicate 8 0, start_index = 0, end_index = 0\<rparr>"

definition rb_zero_C :: Ring_Buffer_C where
  "rb_zero_C = \<lparr>buffer = replicate 64 0, start_index = 0, end_index = 0\<rparr>"

section \<open>Well-formedness and contents\<close>

definition rb_wf :: "nat \<Rightarrow> 'a ring_buffer \<Rightarrow> bool" where
  "rb_wf N p \<longleftrightarrow> length (buffer p) = N \<and> unat (start_index p) < N \<and> unat (end_index p) < N"

definition slice :: "nat \<Rightarrow> 'a list \<Rightarrow> nat \<Rightarrow> nat \<Rightarrow> 'a list" where
  "slice N b s L = map (\<lambda>i. b ! ((s + i) mod N)) [0..<L]"

definition rb_list :: "nat \<Rightarrow> 'a ring_buffer \<Rightarrow> 'a list" where
  "rb_list N p = slice N (buffer p) (unat (start_index p))
     ((unat (end_index p) + N - unat (start_index p)) mod N)"

section \<open>Slices of a circular array\<close>

lemma length_slice [simp]: "length (slice N b s L) = L"
  by (simp add: slice_def)

lemma slice_0 [simp]: "slice N b s 0 = []"
  by (simp add: slice_def)

lemma nth_slice [simp]: "i < L \<Longrightarrow> slice N b s L ! i = b ! ((s + i) mod N)"
  by (simp add: slice_def)

lemma slice_Suc: "slice N b s (Suc L) = slice N b s L @ [b ! ((s + L) mod N)]"
  by (simp add: slice_def)

lemma slice_Cons: "slice N b s (Suc L) = b ! (s mod N) # slice N b (Suc s) L"
  by (rule nth_equalityI) (auto simp: nth_Cons split: nat.split)

lemma slice_mod: "slice N b (s mod N) L = slice N b s L"
  by (simp add: slice_def mod_simps)

lemma mod_neq:
  assumes "i < j" "j < N"
  shows "(s + i) mod N \<noteq> (s + j) mod (N::nat)"
proof
  assume "(s + i) mod N = (s + j) mod N"
  then have "N dvd (s + j) - (s + i)" using assms mod_eq_dvd_iff_nat [of "s + i" "s + j" N] by simp
  then have "N dvd j - i" by simp
  then show False using assms nat_dvd_not_less [of "j - i" N] by auto
qed

lemma slice_update_end:
  "L < N \<Longrightarrow> slice N (b[(s + L) mod N := v]) s L = slice N b s L"
  by (rule nth_equalityI) (auto simp: nth_list_update mod_neq [symmetric])

lemma slice_update_nth:
  assumes "i < L" "L \<le> N" "length b = N"
  shows "slice N (b[(s + i) mod N := v]) s L = (slice N b s L)[i := v]"
proof (rule nth_equalityI)
  fix j assume "j < length (slice N (b[(s + i) mod N := v]) s L)"
  then have j: "j < L" by simp
  have "(s + i) mod N = (s + j) mod N \<longleftrightarrow> i = j"
    using mod_neq [of i j N s] mod_neq [of j i N s] assms j by (metis linorder_neqE_nat order_less_le_trans)
  then show "slice N (b[(s + i) mod N := v]) s L ! j = (slice N b s L)[i := v] ! j"
    using assms j by (auto simp: nth_list_update)
qed simp

lemma ring_end:
  assumes "s < N" "e < (N::nat)"
  shows "(s + (e + N - s) mod N) mod N = e"
  using assms by (simp add: mod_simps)

lemma ring_len:
  assumes "s < N" "L < (N::nat)"
  shows "((s + L) mod N + N - s) mod N = L"
proof (cases "s + L < N")
  case False
  then have "(s + L) mod N = s + L - N" using assms by (simp add: mod_if)
  then show ?thesis using assms False by simp
qed (use assms in simp)

section \<open>The contract of a bounded deque\<close>

text \<open>
  What the clients of a ring buffer rely on: its contents are a list \<open>abs p\<close> of at most \<open>cap\<close>
  elements; pushing on a full buffer drops the element at the other end; popping an empty buffer
  returns the element \<open>zero\<close> and changes nothing.
\<close>

locale bounded_deque =
  fixes cap :: nat and zero :: 'a
    and inv :: "'q \<Rightarrow> bool" and abs :: "'q \<Rightarrow> 'a list"
    and init :: "'q \<Rightarrow> 'q" and len :: "'q \<Rightarrow> uint8"
    and push_back push_front :: "'q \<Rightarrow> 'a \<Rightarrow> 'q"
    and pop_back pop_front :: "'q \<Rightarrow> 'a \<times> 'q"
    and get :: "'q \<Rightarrow> uint8 \<Rightarrow> 'a"
  assumes cap_pos: "0 < cap"
    and length_abs: "inv p \<Longrightarrow> length (abs p) \<le> cap"
    and len: "inv p \<Longrightarrow> unat (len p) = length (abs p)"
    and inv_init: "inv p \<Longrightarrow> inv (init p)"
    and abs_init: "inv p \<Longrightarrow> abs (init p) = []"
    and inv_push_back: "inv p \<Longrightarrow> inv (push_back p v)"
    and abs_push_back: "inv p \<Longrightarrow> abs (push_back p v) =
      (if length (abs p) < cap then abs p @ [v] else tl (abs p) @ [v])"
    and inv_push_front: "inv p \<Longrightarrow> inv (push_front p v)"
    and abs_push_front: "inv p \<Longrightarrow> abs (push_front p v) =
      (if length (abs p) < cap then v # abs p else v # butlast (abs p))"
    and inv_pop_back: "inv p \<Longrightarrow> inv (snd (pop_back p))"
    and pop_back: "inv p \<Longrightarrow> fst (pop_back p) = (if abs p = [] then zero else last (abs p))"
    and abs_pop_back: "inv p \<Longrightarrow> abs (snd (pop_back p)) = butlast (abs p)"
    and inv_pop_front: "inv p \<Longrightarrow> inv (snd (pop_front p))"
    and pop_front: "inv p \<Longrightarrow> fst (pop_front p) = (if abs p = [] then zero else hd (abs p))"
    and abs_pop_front: "inv p \<Longrightarrow> abs (snd (pop_front p)) = tl (abs p)"
    and get: "inv p \<Longrightarrow> unat i < length (abs p) \<Longrightarrow> get p i = abs p ! unat i"
begin

text \<open>Appending a list keeps the newest \<open>cap\<close> elements.\<close>

lemma inv_fold_push_back: "inv p \<Longrightarrow> inv (fold (\<lambda>v p. push_back p v) xs p)"
  by (induction xs arbitrary: p) (auto simp: inv_push_back)

lemma abs_fold_push_back:
  "inv p \<Longrightarrow> abs (fold (\<lambda>v p. push_back p v) xs p)
     = drop (length (abs p) + length xs - cap) (abs p @ xs)"
proof (induction xs arbitrary: p)
  case Nil
  then show ?case using length_abs [of p] by simp
next
  case (Cons x xs)
  show ?case
  proof (cases "length (abs p) < cap")
    case True
    then show ?thesis using Cons by (simp add: inv_push_back abs_push_back del: drop_append)
  next
    case False
    then have full: "length (abs p) = cap" using Cons.prems length_abs [of p] by simp
    have "abs (fold (\<lambda>v p. push_back p v) (x # xs) p) = drop (length xs) (tl (abs p) @ x # xs)"
      using Cons full cap_pos by (simp add: inv_push_back abs_push_back del: drop_append)
    also have "\<dots> = drop (Suc (length xs)) (abs p @ x # xs)"
      using full cap_pos by (cases "abs p") auto
    finally show ?thesis using full by simp
  qed
qed

lemma abs_fold_push_back_fits:
  "inv p \<Longrightarrow> length (abs p) + length xs \<le> cap
     \<Longrightarrow> abs (fold (\<lambda>v p. push_back p v) xs p) = abs p @ xs"
  by (simp add: abs_fold_push_back)

lemma len_le_cap: "inv p \<Longrightarrow> unat (len p) \<le> cap"
  by (simp add: len length_abs)

lemma len_eq_0: "inv p \<Longrightarrow> len p = 0 \<longleftrightarrow> abs p = []"
  by (metis len length_0_conv unat_eq_zero)

lemma push_pop_front: "inv p \<Longrightarrow> fst (pop_front (push_front p v)) = v"
  by (auto simp: inv_push_front abs_push_front pop_front)

lemma push_pop_back: "inv p \<Longrightarrow> fst (pop_back (push_back p v)) = v"
  by (auto simp: inv_push_back abs_push_back pop_back)

end

section \<open>The masked index operations satisfy the contract\<close>

locale ring_ops =
  fixes n :: nat and N :: nat and msk :: uint8 and zero :: 'a
    and init :: "'a ring_buffer \<Rightarrow> 'a ring_buffer" and len :: "'a ring_buffer \<Rightarrow> uint8"
    and push_back push_front :: "'a ring_buffer \<Rightarrow> 'a \<Rightarrow> 'a ring_buffer"
    and pop_back pop_front :: "'a ring_buffer \<Rightarrow> 'a \<times> 'a ring_buffer"
    and get :: "'a ring_buffer \<Rightarrow> uint8 \<Rightarrow> 'a"
  assumes N: "N = 2 ^ n" "0 < n" "n \<le> 7" and msk: "msk = mask n"
    and init_eq: "init p = p\<lparr>start_index := 0, end_index := 0\<rparr>"
    and len_eq: "len p = (end_index p - start_index p) AND msk"
    and push_back_eq: "push_back p v =
      (let e = (end_index p + 1) AND msk;
           p' = p\<lparr>buffer := (buffer p)[unat (end_index p) := v], end_index := e\<rparr>
       in if e = start_index p then p'\<lparr>start_index := (start_index p + 1) AND msk\<rparr> else p')"
    and push_front_eq: "push_front p v =
      (let s = (start_index p - 1) AND msk;
           p' = p\<lparr>start_index := s, buffer := (buffer p)[unat s := v]\<rparr>
       in if s = end_index p then p'\<lparr>end_index := (end_index p - 1) AND msk\<rparr> else p')"
    and pop_back_eq: "pop_back p =
      (if start_index p \<noteq> end_index p
       then let e = (end_index p - 1) AND msk in (buffer p ! unat e, p\<lparr>end_index := e\<rparr>) else (zero, p))"
    and pop_front_eq: "pop_front p =
      (if end_index p \<noteq> start_index p
       then let s = (start_index p + 1) AND msk
            in (buffer p ! unat ((s - 1) AND msk), p\<lparr>start_index := s\<rparr>) else (zero, p))"
    and get_eq: "get p i = buffer p ! unat ((start_index p + i) AND msk)"
begin

lemma N_bounds: "2 \<le> N" "N \<le> 128" "N dvd 256"
proof -
  show "2 \<le> N" using power_increasing [of 1 n "2::nat"] N by simp
  show "N \<le> 128" using power_increasing [of n 7 "2::nat"] N by simp
  show "N dvd 256" using le_imp_power_dvd [of n 8 "2::nat"] N by simp
qed

lemma unat_msk: "unat (w AND msk) = unat w mod N"
  by (simp only: msk unat_and_mask N(1))

lemma unat_succ: "unat ((w + 1) AND msk) = (unat w + 1) mod N"
  by (simp only: unat_msk unat_plus_one8 mod_256_mod [OF N_bounds(3)])

lemma unat_pred: "unat w < N \<Longrightarrow> unat ((w - 1) AND msk) = (unat w + N - 1) mod N"
proof -
  obtain c where c: "256 = N * c" using N_bounds(3) by (auto simp: dvd_def)
  then obtain c' where "c = Suc c'" by (cases c) auto
  then have "unat w + 255 = unat w + N - 1 + N * c'" using c N_bounds(1) by simp
  then show ?thesis by (simp only: unat_msk unat_minus_one8 mod_256_mod [OF N_bounds(3)] mod_mult_self2)
qed

lemma unat_dist:
  assumes "unat s < N"
  shows "unat ((e - s) AND msk) = (unat e + N - unat s) mod N"
proof -
  obtain c where c: "256 = N * c" using N_bounds(3) by (auto simp: dvd_def)
  then obtain c' where "c = Suc c'" by (cases c) auto
  then have "unat e + 256 - unat s = (unat e + N - unat s) + N * c'" using c assms by simp
  moreover have "unat (e - s) = (unat e + 256 - unat s) mod 256"
    by (cases "unat s \<le> unat e")
      (simp_all add: unat_sub_if_size word_size word_le_nat_alt le_mod_geq less_imp_diff_less)
  ultimately show ?thesis by (simp only: unat_msk mod_256_mod [OF N_bounds(3)] mod_mult_self2)
qed

text \<open>A well-formed buffer is given by its start and its number of elements.\<close>

lemma rep:
  assumes "rb_wf N p"
  obtains L where "L < N" "unat (end_index p) = (unat (start_index p) + L) mod N"
    "rb_list N p = slice N (buffer p) (unat (start_index p)) L" "unat (len p) = L"
proof -
  let ?L = "(unat (end_index p) + N - unat (start_index p)) mod N"
  have "unat (end_index p) = (unat (start_index p) + ?L) mod N"
    using assms ring_end [of "unat (start_index p)" N "unat (end_index p)"] by (simp add: rb_wf_def)
  then show ?thesis
    using that [of ?L] assms N_bounds(1) by (auto simp: rb_list_def len_eq unat_dist rb_wf_def)
qed

lemma rb_listI:
  assumes "unat (start_index q) < N" "L < N" "unat (end_index q) = (unat (start_index q) + L) mod N"
  shows "rb_list N q = slice N (buffer q) (unat (start_index q)) L"
  using assms ring_len [of "unat (start_index q)" N L] by (simp add: rb_list_def)

lemma unat_eq: "(u = v) = (unat u = unat (v :: uint8))"
  by (auto simp: word_eq_iff_unsigned)

lemma push_back_ok:
  assumes "rb_wf N p"
  shows "rb_wf N (push_back p v)"
    and "rb_list N (push_back p v) =
      (if length (rb_list N p) < N - 1 then rb_list N p @ [v] else tl (rb_list N p) @ [v])"
proof -
  obtain L where L: "L < N" "unat (end_index p) = (unat (start_index p) + L) mod N"
    "rb_list N p = slice N (buffer p) (unat (start_index p)) L"
    using rep [OF assms] by metis
  let ?s = "unat (start_index p)" and ?q = "push_back p v"
  have s: "?s < N" "length (buffer p) = N" using assms by (auto simp: rb_wf_def)
  have e: "unat ((end_index p + 1) AND msk) = (?s + Suc L) mod N"
    by (simp add: unat_succ L(2) mod_simps)
  have app: "slice N ((buffer p)[unat (end_index p) := v]) ?s (Suc L) = rb_list N p @ [v]"
    using L s by (simp add: slice_Suc slice_update_end)
  have hit: "(end_index p + 1) AND msk = start_index p \<longleftrightarrow> Suc L = N"
  proof -
    have "(?s + Suc L) mod N = ?s \<longleftrightarrow> Suc L = N"
      using mod_neq [of 0 "Suc L" N ?s] s L(1) by (cases "Suc L = N") (auto simp: Suc_lessI)
    then show ?thesis by (simp add: unat_eq e)
  qed
  show "rb_wf N ?q"
    using assms N_bounds(1) by (auto simp: push_back_eq Let_def rb_wf_def unat_msk)
  show "rb_list N ?q = (if length (rb_list N p) < N - 1 then rb_list N p @ [v] else tl (rb_list N p) @ [v])"
  proof (cases "Suc L = N")
    case False
    then have "rb_list N ?q = slice N (buffer ?q) (unat (start_index ?q)) (Suc L)"
      using s e hit L(1) by (intro rb_listI) (simp_all add: push_back_eq Let_def)
    moreover have "L < N - 1" using False L(1) by simp
    ultimately show ?thesis using False hit app L by (simp add: push_back_eq Let_def)
  next
    case True
    have "unat ((start_index p + 1) AND msk) = Suc ?s mod N" by (simp add: unat_succ)
    moreover have "Suc (?s + L) mod N = ?s" using True s(1) by (metis add_Suc_right mod_add_self2 mod_less)
    ultimately have "rb_list N ?q = slice N (buffer ?q) (unat (start_index ?q)) L"
      using s e hit True L(1) N_bounds(1)
      by (intro rb_listI) (simp_all add: push_back_eq Let_def mod_simps)
    then have "rb_list N ?q = slice N ((buffer p)[unat (end_index p) := v]) (Suc ?s) L"
      using hit True by (simp add: push_back_eq Let_def unat_succ slice_mod)
    also have "\<dots> = tl (rb_list N p @ [v])" by (simp only: app [symmetric] slice_Cons list.sel)
    finally have q: "rb_list N ?q = tl (rb_list N p @ [v])" .
    have "length (rb_list N p) = N - 1" using True L(3) by simp
    then show ?thesis using q N_bounds(1) by (cases "rb_list N p") simp_all
  qed
qed

lemma push_front_ok:
  assumes "rb_wf N p"
  shows "rb_wf N (push_front p v)"
    and "rb_list N (push_front p v) =
      (if length (rb_list N p) < N - 1 then v # rb_list N p else v # butlast (rb_list N p))"
proof -
  obtain L where L: "L < N" "unat (end_index p) = (unat (start_index p) + L) mod N"
    "rb_list N p = slice N (buffer p) (unat (start_index p)) L"
    using rep [OF assms] by metis
  let ?s = "unat (start_index p)" and ?q = "push_front p v"
  define s' where "s' = unat ((start_index p - 1) AND msk)"
  have s: "?s < N" "length (buffer p) = N" using assms by (auto simp: rb_wf_def)
  have s': "s' = (?s + N - 1) mod N" "s' < N" "Suc s' mod N = ?s"
    using unat_pred [OF s(1)] s(1) N_bounds(1) by (auto simp: s'_def mod_Suc_eq)
  have cons: "slice N ((buffer p)[s' := v]) s' (Suc L) = v # rb_list N p"
  proof -
    have "slice N ((buffer p)[s' := v]) (Suc s') L = slice N (buffer p) (Suc s') L"
    proof (rule nth_equalityI)
      fix i assume "i < length (slice N ((buffer p)[s' := v]) (Suc s') L)"
      then have "(s' + 0) mod N \<noteq> (s' + Suc i) mod N" using L(1) by (intro mod_neq) auto
      then show "slice N ((buffer p)[s' := v]) (Suc s') L ! i = slice N (buffer p) (Suc s') L ! i"
        using \<open>i < _\<close> s'(2) by simp
    qed simp
    also have "\<dots> = rb_list N p" using slice_mod [of N "buffer p" "Suc s'" L] by (simp only: s'(3) L(3))
    finally show ?thesis using s s'(2) by (simp add: slice_Cons)
  qed
  have e: "unat (end_index p) = (s' + Suc L) mod N"
    using L(2) s'(3) by (metis add_Suc_right add_Suc mod_add_left_eq)
  have hit: "(start_index p - 1) AND msk = end_index p \<longleftrightarrow> Suc L = N"
  proof -
    have "(s' + Suc L) mod N = s' \<longleftrightarrow> Suc L = N"
      using mod_neq [of 0 "Suc L" N s'] s'(2) L(1) by (cases "Suc L = N") (auto simp: Suc_lessI)
    then show ?thesis by (auto simp: unat_eq s'_def [symmetric] e)
  qed
  show "rb_wf N ?q"
    using assms N_bounds(1) by (auto simp: push_front_eq Let_def rb_wf_def unat_msk)
  show "rb_list N ?q = (if length (rb_list N p) < N - 1 then v # rb_list N p else v # butlast (rb_list N p))"
  proof (cases "Suc L = N")
    case False
    then have "rb_list N ?q = slice N (buffer ?q) (unat (start_index ?q)) (Suc L)"
      using s'(2) e hit L(1) by (intro rb_listI) (simp_all add: push_front_eq Let_def s'_def)
    moreover have "L < N - 1" using False L(1) by simp
    ultimately show ?thesis using False hit cons L by (simp add: push_front_eq Let_def s'_def)
  next
    case True
    have "unat (end_index p) = s'" using hit True by (simp add: s'_def)
    then have "unat ((end_index p - 1) AND msk) = (s' + L) mod N"
      using unat_pred [of "end_index p"] s'(2) by (simp add: True [symmetric])
    then have "rb_list N ?q = slice N (buffer ?q) (unat (start_index ?q)) L"
      using s'(2) hit True L(1) by (intro rb_listI) (simp_all add: push_front_eq Let_def s'_def)
    then have "rb_list N ?q = slice N ((buffer p)[s' := v]) s' L"
      using hit True by (simp add: push_front_eq Let_def s'_def)
    then have q: "rb_list N ?q = butlast (v # rb_list N p)"
      by (simp only: cons [symmetric] slice_Suc butlast_snoc)
    have "length (rb_list N p) = N - 1" using True L(3) by simp
    then show ?thesis using q N_bounds(1) by (cases "rb_list N p") simp_all
  qed
qed

lemma empty_iff: "rb_wf N (p :: 'a ring_buffer) \<Longrightarrow> start_index p = end_index p \<longleftrightarrow> rb_list N p = []"
proof -
  assume wf: "rb_wf N p"
  obtain L where L: "L < N" "unat (end_index p) = (unat (start_index p) + L) mod N"
    "rb_list N p = slice N (buffer p) (unat (start_index p)) L"
    using rep [OF wf] by metis
  have "(unat (start_index p) + L) mod N = unat (start_index p) \<longleftrightarrow> L = 0"
    using mod_neq [of 0 L N "unat (start_index p)"] L(1) wf by (cases "L = 0") (auto simp: rb_wf_def)
  then show ?thesis using L by (auto simp: unat_eq slice_def)
qed

lemma pop_back_ok:
  assumes "rb_wf N p"
  shows "rb_wf N (snd (pop_back p))"
    and "fst (pop_back p) = (if rb_list N p = [] then zero else last (rb_list N p))"
    and "rb_list N (snd (pop_back p)) = butlast (rb_list N p)"
proof -
  obtain L where L: "L < N" "unat (end_index p) = (unat (start_index p) + L) mod N"
    "rb_list N p = slice N (buffer p) (unat (start_index p)) L"
    using rep [OF assms] by metis
  let ?s = "unat (start_index p)"
  have s: "?s < N" using assms by (auto simp: rb_wf_def)
  show "rb_wf N (snd (pop_back p))"
    using assms N_bounds(1) by (auto simp: pop_back_eq Let_def rb_wf_def unat_msk)
  have step: "unat ((end_index p - 1) AND msk) = (?s + k) mod N" if "L = Suc k" for k
  proof -
    have "unat ((end_index p - 1) AND msk) = (unat (end_index p) + (N - 1)) mod N"
      using unat_pred [of "end_index p"] assms N_bounds(1) by (simp add: rb_wf_def)
    also have "\<dots> = (?s + Suc k + (N - 1)) mod N" unfolding L(2) that by (rule mod_add_left_eq)
    also have "?s + Suc k + (N - 1) = ?s + k + N" using N_bounds(1) by simp
    finally show ?thesis by simp
  qed
  have ne: "start_index p \<noteq> end_index p \<longleftrightarrow> L \<noteq> 0"
    using empty_iff [OF assms] L(3) by (auto simp: slice_def)
  show "fst (pop_back p) = (if rb_list N p = [] then zero else last (rb_list N p))"
    using ne step L(3) by (cases L) (auto simp: pop_back_eq Let_def slice_Suc)
  show "rb_list N (snd (pop_back p)) = butlast (rb_list N p)"
  proof (cases L)
    case 0
    then show ?thesis using ne L(3) by (simp add: pop_back_eq)
  next
    case (Suc k)
    then have "rb_list N (snd (pop_back p)) = slice N (buffer (snd (pop_back p))) (unat (start_index (snd (pop_back p)))) k"
      using s ne step L(1) by (intro rb_listI) (simp_all add: pop_back_eq Let_def)
    then show ?thesis using Suc ne L(3) by (simp add: pop_back_eq Let_def slice_Suc)
  qed
qed

lemma pop_front_ok:
  assumes "rb_wf N p"
  shows "rb_wf N (snd (pop_front p))"
    and "fst (pop_front p) = (if rb_list N p = [] then zero else hd (rb_list N p))"
    and "rb_list N (snd (pop_front p)) = tl (rb_list N p)"
proof -
  obtain L where L: "L < N" "unat (end_index p) = (unat (start_index p) + L) mod N"
    "rb_list N p = slice N (buffer p) (unat (start_index p)) L"
    using rep [OF assms] by metis
  let ?s = "unat (start_index p)"
  have s: "?s < N" using assms by (auto simp: rb_wf_def)
  show "rb_wf N (snd (pop_front p))"
    using assms N_bounds(1) by (auto simp: pop_front_eq Let_def rb_wf_def unat_msk)
  have prv: "unat ((((start_index p + 1) AND msk) - 1) AND msk) = ?s"
    using unat_pred [of "(start_index p + 1) AND msk"] s N_bounds(1)
    by (simp add: unat_succ) (cases "Suc ?s = N"; simp)
  have ne: "end_index p \<noteq> start_index p \<longleftrightarrow> L \<noteq> 0"
    using empty_iff [OF assms] L(3) by (auto simp: slice_def)
  show "fst (pop_front p) = (if rb_list N p = [] then zero else hd (rb_list N p))"
    using ne prv L(3) s by (cases L) (auto simp: pop_front_eq Let_def slice_Cons)
  show "rb_list N (snd (pop_front p)) = tl (rb_list N p)"
  proof (cases L)
    case 0
    then show ?thesis using ne L(3) by (simp add: pop_front_eq)
  next
    case (Suc k)
    then have "rb_list N (snd (pop_front p)) = slice N (buffer (snd (pop_front p))) (unat (start_index (snd (pop_front p)))) k"
      using s ne L(1,2) N_bounds(1) by (intro rb_listI) (simp_all add: pop_front_eq Let_def unat_succ mod_simps)
    then show ?thesis
      using Suc ne L(3) by (simp add: pop_front_eq Let_def unat_succ slice_Cons slice_mod)
  qed
qed

lemma get_ok:
  assumes "rb_wf N p" "unat i < length (rb_list N p)"
  shows "get p i = rb_list N p ! unat i"
proof -
  obtain L where L: "L < N" "rb_list N p = slice N (buffer p) (unat (start_index p)) L"
    using rep [OF assms(1)] by metis
  have "unat ((start_index p + i) AND msk) = (unat (start_index p) + unat i) mod N"
    by (simp only: unat_msk unat_word_ariths(1)) (simp add: mod_256_mod [OF N_bounds(3)])
  then show ?thesis using L assms(2) by (simp add: get_eq)
qed

end

sublocale ring_ops \<subseteq> deque: bounded_deque "N - 1" zero "rb_wf N" "rb_list N"
  init len push_back push_front pop_back pop_front get
proof unfold_locales
  show "0 < N - 1" using N_bounds(1) by simp
  show "length (rb_list N p) \<le> N - 1" if "rb_wf N p" for p :: "'a ring_buffer" using rep [OF that] by (metis length_slice less_Suc_eq_le N_bounds(1) Suc_pred' order_less_le_trans zero_less_numeral)
  show "unat (len p) = length (rb_list N p)" if "rb_wf N p" for p :: "'a ring_buffer" using rep [OF that] by (metis length_slice)
  show "rb_wf N (init p)" if "rb_wf N p" for p :: "'a ring_buffer" using that N_bounds(1) by (simp add: init_eq rb_wf_def)
  show "rb_list N (init p) = []" if "rb_wf N p" for p :: "'a ring_buffer" by (simp add: init_eq rb_list_def)
qed (fact push_back_ok push_front_ok pop_back_ok pop_front_ok get_ok)+

interpretation rbF: ring_ops 3 8 RB_MASK_F 0 rb_initialize_F rb_length_F rb_push_back_F
  rb_push_front_F rb_pop_back_F rb_pop_front_F rb_get_F
  by unfold_locales
    (auto simp: RB_MASK_F_def RB_LENGTH_F_def mask_eq_exp_minus_1 rb_initialize_F_def rb_length_F_def
      rb_push_back_F_def rb_push_front_F_def rb_pop_back_F_def rb_pop_front_F_def rb_get_F_def Let_def)

interpretation rbC: ring_ops 6 64 RB_MASK_C 0 rb_initialize_C rb_length_C rb_push_back_C
  rb_push_front_C rb_pop_back_C rb_pop_front_C rb_get_C
  by unfold_locales
    (auto simp: RB_MASK_C_def RB_LENGTH_C_def mask_eq_exp_minus_1 rb_initialize_C_def rb_length_C_def
      rb_push_back_C_def rb_push_front_C_def rb_pop_back_C_def rb_pop_front_C_def rb_get_C_def Let_def)

lemma rb_wf_zero [simp]: "rb_wf 8 rb_zero_F" "rb_wf 64 rb_zero_C"
  by (simp_all add: rb_wf_def rb_zero_F_def rb_zero_C_def)

lemma rb_list_zero [simp]: "rb_list 8 rb_zero_F = []" "rb_list 64 rb_zero_C = []"
  by (simp_all add: rb_list_def rb_zero_F_def rb_zero_C_def)

section \<open>Setting an element\<close>

text \<open>Inside the active range \<open>rb_set_F\<close> writes one element.\<close>

lemma rb_set_F_inside:
  assumes "rb_wf 8 p" "unat i < length (rb_list 8 p)"
  shows "\<exists>q. rb_set_F p i v = Some q \<and> rb_wf 8 q \<and> rb_list 8 q = (rb_list 8 p)[unat i := v]"
proof -
  obtain L where L: "L < 8" "rb_list 8 p = slice 8 (buffer p) (unat (start_index p)) L"
    "unat (end_index p) = (unat (start_index p) + L) mod 8"
    using rbF.rep [OF assms(1)] by metis
  let ?q = "p\<lparr>buffer := (buffer p)[unat ((start_index p + i) AND RB_MASK_F) := v]\<rparr>"
  have idx: "unat ((start_index p + i) AND RB_MASK_F) = (unat (start_index p) + unat i) mod 8"
    by (simp only: rbF.unat_msk unat_word_ariths(1)) (simp add: mod_256_mod)
  have "\<not> rb_length_F p \<le> i"
    using assms rbF.deque.len [OF assms(1)] by (simp add: word_le_nat_alt)
  then have "rb_set_F p i v = Some ?q" by (simp add: rb_set_F_def)
  moreover have wf: "rb_wf 8 ?q" using assms(1) by (simp add: rb_wf_def)
  moreover have "rb_list 8 ?q = slice 8 (buffer ?q) (unat (start_index ?q)) L"
    using wf L by (intro rbF.rb_listI) (auto simp: rb_wf_def)
  then have "rb_list 8 ?q = (rb_list 8 p)[unat i := v]"
    using L assms by (simp add: idx slice_update_nth rb_wf_def)
  ultimately show ?thesis by blast
qed

text \<open>
  Between the active range and index 6 the loop pads with the value and stops. At index 7, which the
  guard \<open>index < RB_LENGTH_F\<close> lets through, the buffer can never hold eight elements and the
  loop does not return.
\<close>

lemma rb_fill_F_pads:
  "rb_wf 8 p \<Longrightarrow> length (rb_list 8 p) + k = Suc (unat i) \<Longrightarrow> unat i < 7 \<Longrightarrow>
   \<exists>q. rb_fill_F p i v = Some q \<and> rb_wf 8 q \<and> rb_list 8 q = rb_list 8 p @ replicate k v"
proof (induction k arbitrary: p)
  case 0
  then have "\<not> rb_length_F p \<le> i" using rbF.deque.len [of p] by (simp add: word_le_nat_alt)
  then show ?case using 0 by (subst rb_fill_F.simps) simp
next
  case (Suc k)
  let ?p = "rb_push_back_F p v"
  have le: "rb_length_F p \<le> i" using Suc.prems rbF.deque.len [of p] by (simp add: word_le_nat_alt)
  have p: "rb_wf 8 ?p" "rb_list 8 ?p = rb_list 8 p @ [v]"
    using Suc.prems rbF.deque.inv_push_back [of p v] rbF.deque.abs_push_back [of p v] by auto
  then obtain q where "rb_fill_F ?p i v = Some q" "rb_wf 8 q" "rb_list 8 q = rb_list 8 ?p @ replicate k v"
    using Suc.IH [of ?p] Suc.prems by auto
  then show ?case using le p(2) by (subst rb_fill_F.simps) simp
qed

lemma rb_fill_F_diverges:
  assumes "rb_fill_F p i v = Some q"
  shows "rb_wf 8 p \<longrightarrow> i = 7 \<longrightarrow> False"
proof (rule rb_fill_F.raw_induct [where P = "\<lambda>p i v q. rb_wf 8 p \<longrightarrow> i = 7 \<longrightarrow> False", OF _ assms])
  fix f p i v q
  assume IH: "\<And>p i v q. f p i v = Some q \<Longrightarrow> rb_wf 8 p \<longrightarrow> i = 7 \<longrightarrow> False"
    and eq: "(if rb_length_F p \<le> i then f (rb_push_back_F p v) i v else Some p) = Some q"
  show "rb_wf 8 p \<longrightarrow> i = 7 \<longrightarrow> False"
  proof (intro impI)
    assume wf: "rb_wf 8 p" and i: "i = 7"
    have "unat (rb_length_F p) \<le> 7" using rbF.deque.len_le_cap [OF wf] by simp
    then have "rb_length_F p \<le> i" by (simp add: i word_le_nat_alt)
    then have "f (rb_push_back_F p v) i v = Some q" using eq by simp
    then show False using IH i rbF.deque.inv_push_back [OF wf] by blast
  qed
qed

end
