(* ===== verification/Digital_Filter.thy ===== *)
theory Digital_Filter
  imports Ring_Buffer
begin

text \<open>
  \<^verbatim>\<open>Driver/Filter.c\<close>: the z-transform filter on four float ring buffers. The refinement lemma says
  that one call of \<open>Filter_Value\<close> is one step of the difference equation
  \<open>y = (sum b_i * x_i - sum a_i * y_i) / a_0\<close> on lists, with the sums taken in the order of the loop.
  Reading a coefficient array past its end, and a loop of \<open>rb_set_F\<close> that does not return, are
  \<^const>\<open>None\<close>.
\<close>

section \<open>Data\<close>

record Filter_Data_t =
  numerator :: Ring_Buffer_F
  denominator :: Ring_Buffer_F
  out_list :: Ring_Buffer_F
  in_list :: Ring_Buffer_F

definition filter_zero :: Filter_Data_t where
  "filter_zero = \<lparr>numerator = rb_zero_F, denominator = rb_zero_F, out_list = rb_zero_F, in_list = rb_zero_F\<rparr>"

section \<open>Operations\<close>

definition Filter_Init_body :: "float32 list \<Rightarrow> float32 list \<Rightarrow> nat \<Rightarrow> Filter_Data_t \<Rightarrow> Filter_Data_t option" where
  "Filter_Init_body num den i p =
     (if i < length num \<and> i < length den
      then Some (p\<lparr>numerator := rb_push_back_F (numerator p) (num ! i),
                   denominator := rb_push_back_F (denominator p) (den ! i),
                   in_list := rb_push_back_F (in_list p) 0,
                   out_list := rb_push_back_F (out_list p) 0\<rparr>)
      else None)"

definition Filter_Init :: "Filter_Data_t \<Rightarrow> float32 list \<Rightarrow> float32 list \<Rightarrow> uint8 \<Rightarrow> Filter_Data_t option" where
  "Filter_Init p num den order =
     fold_opt (Filter_Init_body num den) [0..<unat order + 1]
       (p\<lparr>numerator := rb_initialize_F (numerator p),
          denominator := rb_initialize_F (denominator p),
          in_list := rb_initialize_F (in_list p),
          out_list := rb_initialize_F (out_list p)\<rparr>)"

definition Filter_ShiftBy_body :: "float32 \<Rightarrow> nat \<Rightarrow> Filter_Data_t \<Rightarrow> Filter_Data_t option" where
  "Filter_ShiftBy_body shift_amount i p = do {
     x \<leftarrow> rb_set_F (in_list p) (of_nat i) (f_add (rb_get_F (in_list p) (of_nat i)) shift_amount);
     let p = p\<lparr>in_list := x\<rparr>;
     y \<leftarrow> rb_set_F (out_list p) (of_nat i) (f_add (rb_get_F (out_list p) (of_nat i)) shift_amount);
     Some (p\<lparr>out_list := y\<rparr>) }"

definition Filter_ShiftBy :: "Filter_Data_t \<Rightarrow> float32 \<Rightarrow> Filter_Data_t option" where
  "Filter_ShiftBy p shift_amount =
     fold_opt (Filter_ShiftBy_body shift_amount) [0..<unat (rb_length_F (in_list p))] p"

definition Filter_SetTo_body :: "float32 \<Rightarrow> nat \<Rightarrow> Filter_Data_t \<Rightarrow> Filter_Data_t option" where
  "Filter_SetTo_body amount i p = do {
     x \<leftarrow> rb_set_F (in_list p) (of_nat i) amount;
     let p = p\<lparr>in_list := x\<rparr>;
     y \<leftarrow> rb_set_F (out_list p) (of_nat i) amount;
     Some (p\<lparr>out_list := y\<rparr>) }"

definition Filter_SetTo :: "Filter_Data_t \<Rightarrow> float32 \<Rightarrow> Filter_Data_t option" where
  "Filter_SetTo p amount =
     fold_opt (Filter_SetTo_body amount) [0..<unat (rb_length_F (in_list p))] p"

definition Filter_Value_sums :: "Filter_Data_t \<Rightarrow> nat \<Rightarrow> nat \<Rightarrow> float32 \<times> float32 \<Rightarrow> float32 \<times> float32" where
  "Filter_Value_sums p n i s =
     (f_add (fst s) (f_mul (rb_get_F (numerator p) (of_nat i)) (rb_get_F (in_list p) (of_nat i))),
      if i < n - 1
      then f_add (snd s) (f_mul (rb_get_F (denominator p) (of_nat (i + 1))) (rb_get_F (out_list p) (of_nat i)))
      else snd s)"

definition Filter_Value :: "Filter_Data_t \<Rightarrow> float32 \<Rightarrow> float32 \<times> Filter_Data_t" where
  "Filter_Value p value =
     (let n = unat (rb_length_F (in_list p));
          p = p\<lparr>in_list := snd (rb_pop_back_F (in_list p))\<rparr>;
          p = p\<lparr>out_list := snd (rb_pop_back_F (out_list p))\<rparr>;
          p = p\<lparr>in_list := rb_push_front_F (in_list p) value\<rparr>;
          (top_sum, bottum_sum) = fold (Filter_Value_sums p n) [0..<n] (0, 0);
          p = p\<lparr>out_list := rb_push_front_F (out_list p)
                  (f_div (f_sub top_sum bottum_sum) (rb_get_F (denominator p) 0))\<rparr>
      in (rb_get_F (out_list p) 0, p))"

definition Filter_Last_Output :: "Filter_Data_t \<Rightarrow> float32" where
  "Filter_Last_Output p = rb_get_F (out_list p) 0"

section \<open>Specification: the difference equation on lists\<close>

definition fsum :: "float32 list \<Rightarrow> float32 list \<Rightarrow> float32" where
  "fsum cs xs = foldl f_add 0 (map2 f_mul cs xs)"

definition diff_eq :: "float32 list \<Rightarrow> float32 list \<Rightarrow> float32 list \<Rightarrow> float32 list \<Rightarrow> float32" where
  "diff_eq b a xs ys = f_div (f_sub (fsum b xs) (fsum (tl a) ys)) (hd a)"

text \<open>A filter of \<open>n\<close> coefficients, with \<open>n\<close> past inputs and outputs, newest first.\<close>

definition filter_wf :: "nat \<Rightarrow> Filter_Data_t \<Rightarrow> bool" where
  "filter_wf n p \<longleftrightarrow> 0 < n \<and>
     rb_wf 8 (numerator p) \<and> rb_wf 8 (denominator p) \<and> rb_wf 8 (in_list p) \<and> rb_wf 8 (out_list p) \<and>
     length (rb_list 8 (numerator p)) = n \<and> length (rb_list 8 (denominator p)) = n \<and>
     length (rb_list 8 (in_list p)) = n \<and> length (rb_list 8 (out_list p)) = n"

section \<open>Correctness\<close>

lemma filter_wf_le: "filter_wf n p \<Longrightarrow> n \<le> 7"
  using rbF.deque.length_abs [of "in_list p"] by (auto simp: filter_wf_def)

lemma rb_get_nth:
  "rb_wf 8 q \<Longrightarrow> i < length (rb_list 8 q) \<Longrightarrow> rb_get_F q (of_nat i) = rb_list 8 q ! i"
  using rbF.deque.get [of q "of_nat i"] rbF.deque.length_abs [of q] by (simp add: unat_of_nat8)

lemma rb_get_0: "rb_wf 8 q \<Longrightarrow> rb_list 8 q \<noteq> [] \<Longrightarrow> rb_get_F q 0 = hd (rb_list 8 q)"
  using rb_get_nth [of q 0] by (simp add: hd_conv_nth)

lemma fsum_take_Suc:
  assumes "i < length cs" "i < length xs"
  shows "fsum (take (Suc i) cs) (take (Suc i) xs) = f_add (fsum (take i cs) (take i xs)) (f_mul (cs ! i) (xs ! i))"
  using assms by (simp add: fsum_def take_Suc_conv_app_nth)

lemma Filter_Init_ok:
  assumes "rb_wf 8 (numerator p)" "rb_wf 8 (denominator p)" "rb_wf 8 (in_list p)" "rb_wf 8 (out_list p)"
    and "unat order < length num" "unat order < length den" "unat order \<le> 6"
  shows "\<exists>q. Filter_Init p num den order = Some q \<and> filter_wf (unat order + 1) q \<and>
    rb_list 8 (numerator q) = take (unat order + 1) num \<and>
    rb_list 8 (denominator q) = take (unat order + 1) den \<and>
    rb_list 8 (in_list q) = replicate (unat order + 1) 0 \<and>
    rb_list 8 (out_list q) = replicate (unat order + 1) 0"
proof -
  let ?P = "\<lambda>i (q :: Filter_Data_t). rb_wf 8 (numerator q) \<and> rb_wf 8 (denominator q) \<and> rb_wf 8 (in_list q) \<and> rb_wf 8 (out_list q) \<and>
    rb_list 8 (numerator q) = take i num \<and> rb_list 8 (denominator q) = take i den \<and>
    rb_list 8 (in_list q) = replicate i 0 \<and> rb_list 8 (out_list q) = replicate i 0"
  have "\<exists>q. Filter_Init p num den order = Some q \<and> ?P (unat order + 1) q"
    unfolding Filter_Init_def
  proof (rule fold_opt_upt [where P = ?P])
    show "?P 0 (p\<lparr>numerator := rb_initialize_F (numerator p), denominator := rb_initialize_F (denominator p),
          in_list := rb_initialize_F (in_list p), out_list := rb_initialize_F (out_list p)\<rparr>)"
      using assms by (simp add: rbF.deque.inv_init rbF.deque.abs_init)
  next
    fix i and q :: Filter_Data_t
    assume "i < unat order + 1" and q: "?P i q"
    then have i: "i < length num" "i < length den" "i < 7" using assms by auto
    then show "\<exists>t. Filter_Init_body num den i q = Some t \<and> ?P (Suc i) t"
      using q by (simp add: Filter_Init_body_def rbF.deque.inv_push_back rbF.deque.abs_push_back
          take_Suc_conv_app_nth replicate_append_same)
  qed
  then show ?thesis using assms by (fastforce simp: filter_wf_def)
qed

text \<open>\<open>Filter_SetTo\<close> and \<open>Filter_ShiftBy\<close> return, and act on every past input and output.\<close>

lemma filter_map_loop:
  assumes wf: "filter_wf n p"
    and step: "\<And>i q. i < n \<Longrightarrow> filter_wf n q \<Longrightarrow> \<exists>x y. f i q = Some (q\<lparr>in_list := x, out_list := y\<rparr>) \<and>
      rb_wf 8 x \<and> rb_list 8 x = (rb_list 8 (in_list q))[i := g (rb_list 8 (in_list q) ! i)] \<and>
      rb_wf 8 y \<and> rb_list 8 y = (rb_list 8 (out_list q))[i := g (rb_list 8 (out_list q) ! i)]"
  shows "\<exists>q. fold_opt f [0..<n] p = Some q \<and> filter_wf n q \<and>
    numerator q = numerator p \<and> denominator q = denominator p \<and>
    rb_list 8 (in_list q) = map g (rb_list 8 (in_list p)) \<and>
    rb_list 8 (out_list q) = map g (rb_list 8 (out_list p))"
proof -
  let ?upd = "\<lambda>i xs. map g (take i xs) @ drop i xs"
  let ?P = "\<lambda>i (q :: Filter_Data_t). filter_wf n q \<and> numerator q = numerator p \<and> denominator q = denominator p \<and>
    rb_list 8 (in_list q) = ?upd i (rb_list 8 (in_list p)) \<and>
    rb_list 8 (out_list q) = ?upd i (rb_list 8 (out_list p))"
  have upd: "(?upd i xs)[i := g (?upd i xs ! i)] = ?upd (Suc i) xs" if "i < length xs" for i and xs :: "float32 list"
    using that by (simp add: nth_append take_Suc_conv_app_nth Cons_nth_drop_Suc [symmetric] list_update_append)
  have "\<exists>q. fold_opt f [0..<n] p = Some q \<and> ?P n q"
  proof (rule fold_opt_upt [where P = ?P])
    show "?P 0 p" using wf by simp
  next
    fix i and q :: Filter_Data_t
    assume i: "i < n" and q: "?P i q"
    then obtain x y where s: "f i q = Some (q\<lparr>in_list := x, out_list := y\<rparr>)" "rb_wf 8 x" "rb_wf 8 y"
      "rb_list 8 x = (rb_list 8 (in_list q))[i := g (rb_list 8 (in_list q) ! i)]"
      "rb_list 8 y = (rb_list 8 (out_list q))[i := g (rb_list 8 (out_list q) ! i)]"
      using step [of i q] by auto
    have xs: "rb_list 8 x = ?upd (Suc i) (rb_list 8 (in_list p))"
      and ys: "rb_list 8 y = ?upd (Suc i) (rb_list 8 (out_list p))"
      using s(4,5) q upd wf i by (simp_all add: filter_wf_def)
    have "?P (Suc i) (q\<lparr>in_list := x, out_list := y\<rparr>)"
      using q s(2,3) xs ys wf i by (simp add: filter_wf_def)
    then show "\<exists>t. f i q = Some t \<and> ?P (Suc i) t" using s(1) by blast
  qed
  then show ?thesis using wf by (auto simp: filter_wf_def)
qed

lemma Filter_SetTo_step:
  assumes "i < n" "filter_wf n q"
  shows "\<exists>x y. Filter_SetTo_body v i q = Some (q\<lparr>in_list := x, out_list := y\<rparr>) \<and>
      rb_wf 8 x \<and> rb_list 8 x = (rb_list 8 (in_list q))[i := v] \<and>
      rb_wf 8 y \<and> rb_list 8 y = (rb_list 8 (out_list q))[i := v]"
proof -
  have i: "unat (of_nat i :: uint8) = i" using assms filter_wf_le [OF assms(2)] by (intro unat_of_nat8) simp
  obtain x where "rb_set_F (in_list q) (of_nat i) v = Some x" "rb_wf 8 x" "rb_list 8 x = (rb_list 8 (in_list q))[i := v]"
    using rb_set_F_inside [of "in_list q" "of_nat i" v] assms i by (auto simp: filter_wf_def)
  moreover obtain y where "rb_set_F (out_list q) (of_nat i) v = Some y" "rb_wf 8 y" "rb_list 8 y = (rb_list 8 (out_list q))[i := v]"
    using rb_set_F_inside [of "out_list q" "of_nat i" v] assms i by (auto simp: filter_wf_def)
  ultimately show ?thesis by (intro exI [of _ x] exI [of _ y]) (simp add: Filter_SetTo_body_def Let_def)
qed

lemma Filter_ShiftBy_step:
  assumes "i < n" "filter_wf n q"
  shows "\<exists>x y. Filter_ShiftBy_body v i q = Some (q\<lparr>in_list := x, out_list := y\<rparr>) \<and>
      rb_wf 8 x \<and> rb_list 8 x = (rb_list 8 (in_list q))[i := f_add (rb_list 8 (in_list q) ! i) v] \<and>
      rb_wf 8 y \<and> rb_list 8 y = (rb_list 8 (out_list q))[i := f_add (rb_list 8 (out_list q) ! i) v]"
proof -
  have i: "unat (of_nat i :: uint8) = i" using assms filter_wf_le [OF assms(2)] by (intro unat_of_nat8) simp
  have g: "rb_get_F (in_list q) (of_nat i) = rb_list 8 (in_list q) ! i"
    "rb_get_F (out_list q) (of_nat i) = rb_list 8 (out_list q) ! i"
    using assms by (auto intro: rb_get_nth simp: filter_wf_def)
  obtain x where "rb_set_F (in_list q) (of_nat i) (f_add (rb_list 8 (in_list q) ! i) v) = Some x" "rb_wf 8 x"
    "rb_list 8 x = (rb_list 8 (in_list q))[i := f_add (rb_list 8 (in_list q) ! i) v]"
    using rb_set_F_inside [of "in_list q" "of_nat i"] assms i by (fastforce simp: filter_wf_def)
  moreover obtain y where "rb_set_F (out_list q) (of_nat i) (f_add (rb_list 8 (out_list q) ! i) v) = Some y" "rb_wf 8 y"
    "rb_list 8 y = (rb_list 8 (out_list q))[i := f_add (rb_list 8 (out_list q) ! i) v]"
    using rb_set_F_inside [of "out_list q" "of_nat i"] assms i by (fastforce simp: filter_wf_def)
  ultimately show ?thesis by (intro exI [of _ x] exI [of _ y]) (simp add: Filter_ShiftBy_body_def Let_def g)
qed

lemma filter_len: "filter_wf n p \<Longrightarrow> unat (rb_length_F (in_list p)) = n"
  by (simp add: filter_wf_def rbF.deque.len)

lemma Filter_SetTo_ok:
  assumes "filter_wf n p"
  shows "\<exists>q. Filter_SetTo p v = Some q \<and> filter_wf n q \<and>
    numerator q = numerator p \<and> denominator q = denominator p \<and>
    rb_list 8 (in_list q) = replicate n v \<and> rb_list 8 (out_list q) = replicate n v"
  using filter_map_loop [OF assms, of "Filter_SetTo_body v" "\<lambda>_. v"] Filter_SetTo_step assms
  by (simp add: Filter_SetTo_def filter_len map_replicate_const) (simp add: filter_wf_def)

lemma Filter_ShiftBy_ok:
  assumes "filter_wf n p"
  shows "\<exists>q. Filter_ShiftBy p v = Some q \<and> filter_wf n q \<and>
    numerator q = numerator p \<and> denominator q = denominator p \<and>
    rb_list 8 (in_list q) = map (\<lambda>x. f_add x v) (rb_list 8 (in_list p)) \<and>
    rb_list 8 (out_list q) = map (\<lambda>x. f_add x v) (rb_list 8 (out_list p))"
  using filter_map_loop [OF assms, of "Filter_ShiftBy_body v" "\<lambda>x. f_add x v"] Filter_ShiftBy_step assms
  by (simp add: Filter_ShiftBy_def filter_len)

text \<open>The loop of \<open>Filter_Value\<close> computes the two sums.\<close>

lemma Filter_Value_sums_ok:
  assumes "rb_wf 8 (numerator p)" "rb_wf 8 (denominator p)" "rb_wf 8 (in_list p)" "rb_wf 8 (out_list p)"
    and "length (rb_list 8 (numerator p)) = n" "length (rb_list 8 (denominator p)) = n"
    and "length (rb_list 8 (in_list p)) = n" "length (rb_list 8 (out_list p)) = n - 1" "0 < n"
  shows "fold (Filter_Value_sums p n) [0..<n] (0, 0) =
    (fsum (rb_list 8 (numerator p)) (rb_list 8 (in_list p)),
     fsum (tl (rb_list 8 (denominator p))) (rb_list 8 (out_list p)))"
proof -
  let ?b = "rb_list 8 (numerator p)" and ?a = "rb_list 8 (denominator p)"
    and ?xs = "rb_list 8 (in_list p)" and ?ys = "rb_list 8 (out_list p)"
  let ?P = "\<lambda>i s. s = (fsum (take i ?b) (take i ?xs), fsum (take i (tl ?a)) (take i ?ys))"
  have "?P n (fold (Filter_Value_sums p n) [0..<n] (0, 0))"
  proof (rule fold_upt_inv [where P = ?P])
    show "?P 0 (0, 0)" by (simp add: fsum_def)
  next
    fix i s assume i: "i < n" and s: "?P i s"
    have top: "f_add (fst s) (f_mul (rb_get_F (numerator p) (of_nat i)) (rb_get_F (in_list p) (of_nat i)))
        = fsum (take (Suc i) ?b) (take (Suc i) ?xs)"
      using s i assms by (simp add: rb_get_nth fsum_take_Suc)
    show "?P (Suc i) (Filter_Value_sums p n i s)"
    proof (cases "i < n - 1")
      case True
      have "rb_get_F (denominator p) (of_nat (i + 1)) = tl ?a ! i"
        using True assms rb_get_nth [of "denominator p" "i + 1"] by (simp add: nth_tl)
      then have "f_add (snd s) (f_mul (rb_get_F (denominator p) (of_nat (i + 1))) (rb_get_F (out_list p) (of_nat i)))
          = fsum (take (Suc i) (tl ?a)) (take (Suc i) ?ys)"
        using s True assms by (simp add: rb_get_nth fsum_take_Suc)
      with top True show ?thesis by (simp add: Filter_Value_sums_def)
    next
      case False
      then have "take (Suc i) (tl ?a) = take i (tl ?a)" "take (Suc i) ?ys = take i ?ys"
        using assms by simp_all
      with top False s show ?thesis by (simp add: Filter_Value_sums_def)
    qed
  qed
  then show ?thesis using assms by simp
qed

lemma Filter_Value_ok:
  assumes "filter_wf n p"
  shows "filter_wf n (snd (Filter_Value p v))"
    and "fst (Filter_Value p v) = diff_eq (rb_list 8 (numerator p)) (rb_list 8 (denominator p))
      (v # butlast (rb_list 8 (in_list p))) (butlast (rb_list 8 (out_list p)))"
    and "rb_list 8 (in_list (snd (Filter_Value p v))) = v # butlast (rb_list 8 (in_list p))"
    and "rb_list 8 (out_list (snd (Filter_Value p v))) = fst (Filter_Value p v) # butlast (rb_list 8 (out_list p))"
    and "numerator (snd (Filter_Value p v)) = numerator p"
    and "denominator (snd (Filter_Value p v)) = denominator p"
proof -
  note wf = assms [unfolded filter_wf_def]
  define x y where "x = rb_push_front_F (snd (rb_pop_back_F (in_list p))) v"
    and "y = snd (rb_pop_back_F (out_list p))"
  define q where "q = p\<lparr>out_list := y, in_list := x\<rparr>"
  have x: "rb_wf 8 x" "rb_list 8 x = v # butlast (rb_list 8 (in_list p))"
    and y: "rb_wf 8 y" "rb_list 8 y = butlast (rb_list 8 (out_list p))"
    using wf filter_wf_le [OF assms]
    by (auto simp: x_def y_def rbF.deque.inv_push_front rbF.deque.inv_pop_back rbF.deque.abs_push_front rbF.deque.abs_pop_back)
  have sums: "fold (Filter_Value_sums q n) [0..<n] (0, 0) =
      (fsum (rb_list 8 (numerator p)) (rb_list 8 x), fsum (tl (rb_list 8 (denominator p))) (rb_list 8 y))"
    using Filter_Value_sums_ok [of q n] wf x y by (simp add: q_def)
  define r where "r = diff_eq (rb_list 8 (numerator p)) (rb_list 8 (denominator p)) (rb_list 8 x) (rb_list 8 y)"
  have "rb_get_F (denominator p) 0 = hd (rb_list 8 (denominator p))"
    using wf by (intro rb_get_0) auto
  then have val: "Filter_Value p v = (rb_get_F (rb_push_front_F y r) 0, q\<lparr>out_list := rb_push_front_F y r\<rparr>)"
    unfolding Filter_Value_def using sums filter_len [OF assms]
    by (simp add: Let_def q_def x_def y_def r_def diff_eq_def split: prod.split)
  have z: "rb_wf 8 (rb_push_front_F y r)" "rb_list 8 (rb_push_front_F y r) = r # rb_list 8 y"
    using y wf filter_wf_le [OF assms] by (auto simp: rbF.deque.inv_push_front rbF.deque.abs_push_front)
  then have g: "rb_get_F (rb_push_front_F y r) 0 = r" by (simp add: rb_get_0)
  show "fst (Filter_Value p v) = diff_eq (rb_list 8 (numerator p)) (rb_list 8 (denominator p))
      (v # butlast (rb_list 8 (in_list p))) (butlast (rb_list 8 (out_list p)))"
    using val g x y by (simp add: r_def)
  show "filter_wf n (snd (Filter_Value p v))" using val wf x y z by (simp add: q_def filter_wf_def)
  show "rb_list 8 (in_list (snd (Filter_Value p v))) = v # butlast (rb_list 8 (in_list p))"
    and "rb_list 8 (out_list (snd (Filter_Value p v))) = fst (Filter_Value p v) # butlast (rb_list 8 (out_list p))"
    and "numerator (snd (Filter_Value p v)) = numerator p"
    and "denominator (snd (Filter_Value p v)) = denominator p"
    using val g x y z by (simp_all add: q_def)
qed

lemma Filter_Last_Output_ok:
  "filter_wf n p \<Longrightarrow> Filter_Last_Output p = hd (rb_list 8 (out_list p))"
  unfolding Filter_Last_Output_def by (rule rb_get_0) (auto simp: filter_wf_def)

end
