(* ===== verification/Battery.thy ===== *)
theory Battery
  imports Avr_Io Digital_Filter
begin

text \<open>
  \<^verbatim>\<open>Driver/Battery_Monitor.c\<close>: the battery voltage, sampled by the A/D converter and smoothed by a
  second order filter. The converter is outside the program: \<open>adc\<close> is what it delivers, \<^const>\<open>None\<close>
  when the conversion never completes and the busy-wait loop does not return.
\<close>

record battery =
  battery_filter :: Filter_Data_t
  ADMUX :: uint8
  ADCSRA :: uint8

definition battery_reset :: battery where
  "battery_reset = \<lparr>battery_filter = filter_zero, ADMUX = 0, ADCSRA = 0\<rparr>"

definition BITS_TO_BATTERY_VOLTS :: float32 where
  "BITS_TO_BATTERY_VOLTS = f_lit 4887585533 1000000000000"

definition a_coeff :: "float32 list" where
  "a_coeff = [f_lit 10 10, f_lit (-19112) 10000, f_lit 9150 10000]"

definition b_coeff :: "float32 list" where
  "b_coeff = [f_lit 94469 100000000, f_lit 188938 100000000, f_lit 94469 100000000]"

definition Battery_Voltage_Oneshot :: "uint16 option \<Rightarrow> battery \<Rightarrow> (float32 \<times> battery) option" where
  "Battery_Voltage_Oneshot adc b =
     (let b = b\<lparr>ADMUX := (ADMUX b AND 0xE0) OR 0x06\<rparr>;
          b = b\<lparr>ADCSRA := ADCSRA b OR 0x40\<rparr>
      in do {
        v \<leftarrow> adc;
        let b = b\<lparr>ADCSRA := ADCSRA b AND NOT 0x40\<rparr>;
        Some (f_mul (f_of_int (uint v)) BITS_TO_BATTERY_VOLTS, b) })"

definition Battery_Monitor_Init :: "uint16 option \<Rightarrow> battery \<Rightarrow> battery option" where
  "Battery_Monitor_Init adc b =
     (let b = b\<lparr>ADMUX := 0xC6, ADCSRA := ADCSRA b OR 0x87\<rparr>;
          order = of_nat (length a_coeff - 1)
      in do {
        f \<leftarrow> Filter_Init (battery_filter b) b_coeff a_coeff order;
        let b = b\<lparr>battery_filter := f\<rparr>;
        (v, b) \<leftarrow> Battery_Voltage_Oneshot adc b;
        f \<leftarrow> Filter_SetTo (battery_filter b) v;
        Some (b\<lparr>battery_filter := f\<rparr>) })"

definition Battery_Voltage_Task :: "uint16 option \<Rightarrow> battery \<Rightarrow> (float32 \<times> battery) option" where
  "Battery_Voltage_Task adc b = do {
     (v, b) \<leftarrow> Battery_Voltage_Oneshot adc b;
     let (y, f) = Filter_Value (battery_filter b) v;
     Some (y, b\<lparr>battery_filter := f\<rparr>) }"

definition Battery_Voltage :: "battery \<Rightarrow> float32" where
  "Battery_Voltage b = Filter_Last_Output (battery_filter b)"

definition battery_wf :: "battery \<Rightarrow> bool" where
  "battery_wf b \<longleftrightarrow> filter_wf 3 (battery_filter b)"

definition volts :: "uint16 \<Rightarrow> float32" where
  "volts v = f_mul (f_of_int (uint v)) BITS_TO_BATTERY_VOLTS"

lemma Oneshot_Some: "Battery_Voltage_Oneshot (Some v) b =
    Some (volts v, b\<lparr>ADMUX := (ADMUX b AND 0xE0) OR 0x06, ADCSRA := (ADCSRA b OR 0x40) AND NOT 0x40\<rparr>)"
  by (simp add: Battery_Voltage_Oneshot_def volts_def Let_def)

lemma Battery_Monitor_Init_ok:
  assumes "rb_wf 8 (numerator (battery_filter b))" "rb_wf 8 (denominator (battery_filter b))"
    "rb_wf 8 (in_list (battery_filter b))" "rb_wf 8 (out_list (battery_filter b))"
  shows "\<exists>b'. Battery_Monitor_Init (Some v) b = Some b' \<and> battery_wf b' \<and> Battery_Voltage b' = volts v \<and>
    rb_list 8 (numerator (battery_filter b')) = b_coeff \<and> rb_list 8 (denominator (battery_filter b')) = a_coeff \<and>
    rb_list 8 (in_list (battery_filter b')) = replicate 3 (volts v) \<and> rb_list 8 (out_list (battery_filter b')) = replicate 3 (volts v)"
proof -
  have len: "length a_coeff = 3" "length b_coeff = 3" by (simp_all add: a_coeff_def b_coeff_def)
  obtain f where f: "Filter_Init (battery_filter b) b_coeff a_coeff 2 = Some f" "filter_wf 3 f"
    "rb_list 8 (numerator f) = b_coeff" "rb_list 8 (denominator f) = a_coeff"
    using Filter_Init_ok [of "battery_filter b" 2 b_coeff a_coeff] assms len by auto
  obtain g where g: "Filter_SetTo f (volts v) = Some g" "filter_wf 3 g"
    "numerator g = numerator f" "denominator g = denominator f" "rb_list 8 (out_list g) = replicate 3 (volts v)"
    "rb_list 8 (in_list g) = replicate 3 (volts v)" using Filter_SetTo_ok [OF f(2), of "volts v"] by auto
  have "Filter_Last_Output g = volts v" using Filter_Last_Output_ok [OF g(2)] g(5) by simp
  then show ?thesis using f g
    by (simp add: Battery_Monitor_Init_def len Let_def Oneshot_Some battery_wf_def Battery_Voltage_def)
qed

lemma Battery_Voltage_Task_ok:
  assumes "battery_wf b"
  shows "\<exists>b'. Battery_Voltage_Task (Some v) b = Some (Battery_Voltage b', b') \<and> battery_wf b' \<and>
    Battery_Voltage b' = diff_eq (rb_list 8 (numerator (battery_filter b))) (rb_list 8 (denominator (battery_filter b)))
      (volts v # butlast (rb_list 8 (in_list (battery_filter b)))) (butlast (rb_list 8 (out_list (battery_filter b))))"
proof -
  let ?r = "Filter_Value (battery_filter b) (volts v)"
  note ok = Filter_Value_ok [OF assms [unfolded battery_wf_def], of "volts v"]
  have "Filter_Last_Output (snd ?r) = fst ?r" using Filter_Last_Output_ok [OF ok(1)] ok(4) by simp
  then show ?thesis using ok
    by (simp add: Battery_Voltage_Task_def Oneshot_Some battery_wf_def Battery_Voltage_def split: prod.split) force
qed

lemma Battery_Voltage_Task_None: "Battery_Voltage_Task None b = None"
  by (simp add: Battery_Voltage_Task_def Battery_Voltage_Oneshot_def Let_def)

end
