(* ===== verification/Proximity.thy ===== *)
theory Proximity
  imports Timing
begin

text \<open>
  \<^verbatim>\<open>Driver/Proximity.c\<close>: the front infrared sensor. The light of one side is strobed at two brightness
  levels; a low sensor pin after a strobe is a hit. The pin input register is the environment:
  \<open>pinf_rmw\<close> is what the statement \<open>PINF |= 0x01\<close> reads, \<open>pinf_sample i\<close> what the sensor shows in
  pass \<open>i\<close>. Writing ones to a pin register toggles the port (ATmega32U4 data sheet, 10.2.2).
\<close>

datatype eProximitySize = LEFT | RIGHT

record t_ProximityReturn =
  m_nCount :: uint16
  m_eSide :: eProximitySize

record proximity =
  m_nLEDProxyCountLeft :: uint16
  m_nLEDProxyCountRight :: uint16
  TIMSK3 :: uint8
  TCCR3A :: uint8
  TCCR3B :: uint8
  TCCR3C :: uint8
  ICR3 :: uint16
  TCNT3 :: uint16
  OCR3A :: uint16

definition proximity_reset :: proximity where
  "proximity_reset = \<lparr>m_nLEDProxyCountLeft = 0, m_nLEDProxyCountRight = 0, TIMSK3 = 0, TCCR3A = 0, TCCR3B = 0,
     TCCR3C = 0, ICR3 = 0, TCNT3 = 0, OCR3A = 0\<rparr>"

record ir_env =
  pinf_rmw :: uint8
  pinf_sample :: "nat \<Rightarrow> uint8"

definition stobe_period :: uint16 where "stobe_period = 420"
definition pulseOnTimeUs :: uint16 where "pulseOnTimeUs = 421"
definition pulseOffTimeUs :: uint16 where "pulseOffTimeUs = 578"
definition levelsArray :: "uint16 list" where "levelsArray = [4, 15]"
definition numLevels :: uint8 where "numLevels = 2"

definition Proxy_Init :: "proximity \<Rightarrow> proximity" where
  "Proxy_Init x = x\<lparr>m_nLEDProxyCountLeft := 0, m_nLEDProxyCountRight := 0\<rparr>"

definition start_strobe :: "eProximitySize \<Rightarrow> uint16 \<Rightarrow> proximity \<Rightarrow> io \<Rightarrow> proximity \<times> io" where
  "start_strobe side brightness x r =
     (let x = x\<lparr>TIMSK3 := 0\<rparr>;
          r = r\<lparr>PORTC := PORTC r AND NOT (bv 6), DDRC := DDRC r AND NOT (bv 6)\<rparr>;
          x = x\<lparr>TCCR3A := bv 7, TCCR3B := 0\<rparr>;
          x = x\<lparr>TCCR3C := bv 7\<rparr>;
          r = r\<lparr>DDRC := DDRC r OR bv 6\<rparr>;
          r = (if side = LEFT then r\<lparr>PORTF := PORTF r AND NOT (bv 6)\<rparr>
               else if side = RIGHT then r\<lparr>PORTF := PORTF r OR bv 6\<rparr> else r);
          r = r\<lparr>DDRF := DDRF r OR bv 6\<rparr>;
          x = x\<lparr>ICR3 := stobe_period, TCNT3 := stobe_period - 1, OCR3A := brightness\<rparr>;
          x = x\<lparr>TCCR3A := bv 7 OR bv 1, TCCR3B := bv 4 OR bv 3 OR bv 0\<rparr>
      in (x, r))"

definition stop_strobe :: "proximity \<Rightarrow> io \<Rightarrow> proximity \<times> io" where
  "stop_strobe x r =
     (let r = r\<lparr>PORTC := PORTC r AND NOT (bv 6), DDRC := DDRC r OR bv 6\<rparr>;
          x = x\<lparr>TCCR3A := bv 1\<rparr>;
          x = x\<lparr>TCCR3B := 0\<rparr>;
          x = x\<lparr>TIMSK3 := 0, TCCR3A := 0, OCR3A := 0, ICR3 := 0, TCNT3 := 0\<rparr>;
          r = r\<lparr>DDRF := DDRF r AND NOT (bv 6), PORTF := PORTF r AND NOT (bv 6)\<rparr>
      in (x, r))"

definition IRRead_pass :: "eProximitySize \<Rightarrow> ir_env \<Rightarrow> nat \<Rightarrow> proximity \<times> io \<Rightarrow> proximity \<times> io" where
  "IRRead_pass side env i s =
     (let (x, r) = start_strobe side (levelsArray ! i) (fst s) (snd s);
          x = (if bit_is_set (pinf_sample env i) 1 = 0
               then (if side = LEFT then x\<lparr>m_nLEDProxyCountLeft := m_nLEDProxyCountLeft x + 1\<rparr>
                     else if side = RIGHT then x\<lparr>m_nLEDProxyCountRight := m_nLEDProxyCountRight x + 1\<rparr> else x)
               else x)
      in stop_strobe x r)"

definition IRRead :: "eProximitySize \<Rightarrow> ir_env \<Rightarrow> proximity \<Rightarrow> io \<Rightarrow> proximity \<times> io" where
  "IRRead side env x r =
     (let oldSREG = SREG r;
          r = cli r;
          r = r\<lparr>DDRF := DDRF r AND NOT 0x01\<rparr>;
          r = r\<lparr>PORTF := PORTF r XOR (pinf_rmw env OR 0x01)\<rparr>;
          r = r\<lparr>PORTF := PORTF r OR 0x01\<rparr>;
          r = r\<lparr>PORTB := PORTB r AND NOT 0x80, DDRB := DDRB r AND NOT 0x80\<rparr>;
          r = r\<lparr>SREG := oldSREG\<rparr>;
          x = (if side = LEFT then x\<lparr>m_nLEDProxyCountLeft := 0\<rparr>
               else if side = RIGHT then x\<lparr>m_nLEDProxyCountRight := 0\<rparr> else x)
      in fold (IRRead_pass side env) [0..<unat numLevels] (x, r))"

definition IR_Counts :: "proximity \<Rightarrow> t_ProximityReturn" where
  "IR_Counts x =
     (if m_nLEDProxyCountRight x \<le> m_nLEDProxyCountLeft x
      then \<lparr>m_nCount = m_nLEDProxyCountLeft x, m_eSide = LEFT\<rparr>
      else \<lparr>m_nCount = m_nLEDProxyCountRight x, m_eSide = RIGHT\<rparr>)"

section \<open>Correctness\<close>

text \<open>The number of brightness levels at which the sensor pin was low.\<close>

definition hits :: "ir_env \<Rightarrow> uint16" where
  "hits env = of_bool (\<not> bit (pinf_sample env 0) 1) + of_bool (\<not> bit (pinf_sample env 1) 1)"

lemma IRRead_pass_counts:
  "m_nLEDProxyCountLeft (fst (IRRead_pass side env i s)) =
     m_nLEDProxyCountLeft (fst s) + of_bool (side = LEFT \<and> \<not> bit (pinf_sample env i) 1)"
  "m_nLEDProxyCountRight (fst (IRRead_pass side env i s)) =
     m_nLEDProxyCountRight (fst s) + of_bool (side = RIGHT \<and> \<not> bit (pinf_sample env i) 1)"
  by (cases side; auto simp: IRRead_pass_def start_strobe_def stop_strobe_def Let_def)+

lemma IRRead_pass_regs:
  "TCCR3B (fst (IRRead_pass side env i s)) = 0" "OCR3A (fst (IRRead_pass side env i s)) = 0"
  "SREG (snd (IRRead_pass side env i s)) = SREG (snd s)"
  "PORTB (snd (IRRead_pass side env i s)) = PORTB (snd s)" "PORTD (snd (IRRead_pass side env i s)) = PORTD (snd s)"
  "DDRF (snd (IRRead_pass side env i s)) = DDRF (snd s) AND NOT (bv 6)"
  "PORTF (snd (IRRead_pass side env i s)) = PORTF (snd s) AND NOT (bv 6)"
  by (cases side; simp add: IRRead_pass_def start_strobe_def stop_strobe_def Let_def eq8 bit_simps)+

lemma levels_upt: "[0..<unat numLevels] = [0, 1]"
  by (simp add: numLevels_def upt_rec)

lemma IRRead_unfold:
  "IRRead side env x r =
     IRRead_pass side env 1 (IRRead_pass side env 0
       ((if side = LEFT then x\<lparr>m_nLEDProxyCountLeft := 0\<rparr> else x\<lparr>m_nLEDProxyCountRight := 0\<rparr>),
        r\<lparr>DDRF := DDRF r AND NOT 1, PORTF := (PORTF r XOR (pinf_rmw env OR 1)) OR 1,
          PORTB := PORTB r AND NOT 0x80, DDRB := DDRB r AND NOT 0x80, SREG := SREG r\<rparr>))"
  by (cases side) (simp_all add: IRRead_def Let_def levels_upt cli_def)

lemma IRRead_counts:
  "m_nLEDProxyCountLeft (fst (IRRead side env x r)) = (if side = LEFT then hits env else m_nLEDProxyCountLeft x)"
  "m_nLEDProxyCountRight (fst (IRRead side env x r)) = (if side = RIGHT then hits env else m_nLEDProxyCountRight x)"
  by (cases side; simp add: IRRead_unfold IRRead_pass_counts hits_def)+

lemma IRRead_regs:
  "TCCR3B (fst (IRRead side env x r)) = 0" "OCR3A (fst (IRRead side env x r)) = 0"
  "SREG (snd (IRRead side env x r)) = SREG r" "PORTD (snd (IRRead side env x r)) = PORTD r"
  "PORTB (snd (IRRead side env x r)) = PORTB r AND NOT 0x80"
  by (simp_all add: IRRead_unfold IRRead_pass_regs)

lemma hits_le: "hits env \<le> 2"
  by (auto simp: hits_def)

lemma IR_Counts_max:
  "m_nCount (IR_Counts x) = max (m_nLEDProxyCountLeft x) (m_nLEDProxyCountRight x)"
  "m_eSide (IR_Counts x) = (if m_nLEDProxyCountRight x \<le> m_nLEDProxyCountLeft x then LEFT else RIGHT)"
  by (auto simp: IR_Counts_def max_def)

end
