(* ===== verification/Motor_PWM.thy ===== *)
theory Motor_PWM
  imports Avr_Io
begin

text \<open>
  \<^verbatim>\<open>Driver/MotorPWM.c\<close>: the two motor drives on timer 1, and the conversions between duty cycle,
  velocity and encoder counts. The compare outputs are inverting: a compare value equal to the top
  value \<open>ICR1\<close> is a stopped motor, zero is full speed. Negating \<open>INT16_MIN\<close> and converting a float
  outside the range of \<open>int16_t\<close> are undefined (\<^const>\<open>None\<close>).
\<close>

record motor =
  TCCR1A :: uint8
  TCCR1B :: uint8
  ICR1 :: uint16
  OCR1A :: uint16
  OCR1B :: uint16

definition motor_reset :: motor where
  "motor_reset = \<lparr>TCCR1A = 0, TCCR1B = 0, ICR1 = 0, OCR1A = 0, OCR1B = 0\<rparr>"

definition Motor_PWM_Init :: "uint16 \<Rightarrow> motor \<Rightarrow> io \<Rightarrow> motor \<times> io" where
  "Motor_PWM_Init MAX_PWM m r =
     (let m = m\<lparr>TCCR1B := 0x11\<rparr>;
          m = m\<lparr>TCCR1A := TCCR1A m AND 0xFE\<rparr>;
          m = m\<lparr>TCCR1A := TCCR1A m OR 0x02\<rparr>;
          m = m\<lparr>TCCR1A := TCCR1A m AND 0x0F\<rparr>;
          r = r\<lparr>DDRB := DDRB r OR (bv 1 OR bv 2 OR bv 5 OR bv 6)\<rparr>;
          r = cli r;
          m = m\<lparr>ICR1 := MAX_PWM\<rparr>
      in (m, sei r))"

definition Motor_PWM_Enable :: "bool \<Rightarrow> motor \<Rightarrow> motor" where
  "Motor_PWM_Enable enable m =
     (if enable then m\<lparr>TCCR1A := TCCR1A m OR 0xF0\<rparr> else m\<lparr>TCCR1A := TCCR1A m AND 0x0F\<rparr>)"

definition Is_Motor_PWM_Enabled :: "motor \<Rightarrow> bool" where
  "Is_Motor_PWM_Enabled m \<longleftrightarrow> TCCR1A m AND bv 7 \<noteq> 0 \<and> TCCR1A m AND bv 6 \<noteq> 0"

text \<open>The compare value of a duty cycle between 0 and 100 percent.\<close>

definition duty_fraction :: "int \<Rightarrow> float32" where
  "duty_fraction p = f_add (f_mul (f_of_int p) (f_neg (f_lit 1 100))) (f_of_int 1)"

definition duty_compare :: "int \<Rightarrow> uint16 \<Rightarrow> int16 option" where
  "duty_compare p icr = f_to_s16 (f_mul (duty_fraction p) (f_of_int (uint icr)))"

definition Motor_PWM_Left :: "int16 \<Rightarrow> motor \<Rightarrow> io \<Rightarrow> (motor \<times> io) option" where
  "Motor_PWM_Left pwm m r = do {
     (pwm, r) \<leftarrow> (if sint pwm < 0
       then do { p \<leftarrow> checked_s16 (sint pwm * -1); Some (p, r\<lparr>PORTB := PORTB r OR 0x04\<rparr>) }
       else Some (pwm, r\<lparr>PORTB := PORTB r AND 0xFB\<rparr>));
     let pwm = (if 100 < sint pwm then 100 else pwm);
     let r = cli r;
     c \<leftarrow> duty_compare (sint pwm) (ICR1 m);
     Some (m\<lparr>OCR1B := c\<rparr>, sei r) }"

definition Motor_PWM_Right :: "int16 \<Rightarrow> motor \<Rightarrow> io \<Rightarrow> (motor \<times> io) option" where
  "Motor_PWM_Right pwm m r = do {
     (pwm, r) \<leftarrow> (if sint pwm < 0
       then do { p \<leftarrow> checked_s16 (sint pwm * -1); Some (p, r\<lparr>PORTB := PORTB r OR 0x02\<rparr>) }
       else Some (pwm, r\<lparr>PORTB := PORTB r AND 0xFD\<rparr>));
     let pwm = (if 100 < sint pwm then 100 else pwm);
     let r = cli r;
     c \<leftarrow> duty_compare (sint pwm) (ICR1 m);
     Some (m\<lparr>OCR1A := c\<rparr>, sei r) }"

definition Get_MAX_Motor_PWM :: "motor \<Rightarrow> uint16" where
  "Get_MAX_Motor_PWM m = ICR1 m"

definition duty_of_compare :: "uint16 \<Rightarrow> uint16 \<Rightarrow> int16 option" where
  "duty_of_compare c icr =
     f_to_s16 (f_add (f_mul (f_of_int (-100)) (f_div (f_of_int (uint c)) (f_of_int (uint icr)))) (f_of_int 100))"

definition Get_Motor_PWM_Left :: "motor \<Rightarrow> int16 option" where
  "Get_Motor_PWM_Left m = duty_of_compare (OCR1B m) (Get_MAX_Motor_PWM m)"

definition Get_Motor_PWM_Right :: "motor \<Rightarrow> int16 option" where
  "Get_Motor_PWM_Right m = duty_of_compare (OCR1A m) (Get_MAX_Motor_PWM m)"

definition Set_MAX_Motor_PWM :: "uint16 \<Rightarrow> motor \<Rightarrow> io \<Rightarrow> motor \<times> io" where
  "Set_MAX_Motor_PWM MAX_PWM m r = (let r = cli r; m = m\<lparr>ICR1 := MAX_PWM\<rparr> in (m, sei r))"

definition DutyCycle_to_Velocity_Left :: "int16 \<Rightarrow> float32" where
  "DutyCycle_to_Velocity_Left duty_cycle =
     f_add (f_mul (f_of_int (sint duty_cycle)) (f_lit 33 10000)) (f_lit 133 10000)"

definition DutyCycle_to_Velocity_Right :: "int16 \<Rightarrow> float32" where
  "DutyCycle_to_Velocity_Right duty_cycle =
     f_add (f_mul (f_of_int (sint duty_cycle)) (f_lit 34 10000)) (f_lit 133 10000)"

definition Velocity_to_DutyCycle_Left :: "float32 \<Rightarrow> int16 option" where
  "Velocity_to_DutyCycle_Left velocity = f_to_s16 (f_div (f_sub velocity (f_lit 133 10000)) (f_lit 33 10000))"

definition Velocity_to_DutyCycle_Right :: "float32 \<Rightarrow> int16 option" where
  "Velocity_to_DutyCycle_Right velocity = f_to_s16 (f_div (f_sub velocity (f_lit 133 10000)) (f_lit 34 10000))"

definition ECount_to_Distance :: "int16 \<Rightarrow> float32" where
  "ECount_to_Distance encoder_count =
     f_div (f_mul (f_mul (f_mul (f_of_int (sint encoder_count)) (f_of_int 2)) (f_lit 314159 100000)) (f_lit 195 10000))
           (f_mul (f_of_int 12) (f_lit 7581 100))"

section \<open>The outputs\<close>

lemma Motor_PWM_Init_ok:
  "\<not> Is_Motor_PWM_Enabled (fst (Motor_PWM_Init n m r))" "ICR1 (fst (Motor_PWM_Init n m r)) = n"
  "TCCR1A (fst (Motor_PWM_Init n m r)) AND 0xF0 = 0"
  by (simp_all add: Motor_PWM_Init_def Let_def Is_Motor_PWM_Enabled_def eq8 bit_simps)

lemma Motor_PWM_Enable_ok:
  "Is_Motor_PWM_Enabled (Motor_PWM_Enable b m) = b"
  "TCCR1A (Motor_PWM_Enable b m) AND 0xF0 = (if b then 0xF0 else 0)"
  "TCCR1A (Motor_PWM_Enable b m) AND 0x0F = TCCR1A m AND 0x0F"
  "ICR1 (Motor_PWM_Enable b m) = ICR1 m" "OCR1A (Motor_PWM_Enable b m) = OCR1A m" "OCR1B (Motor_PWM_Enable b m) = OCR1B m"
  by (cases b; simp add: Motor_PWM_Enable_def Is_Motor_PWM_Enabled_def eq8 bit_simps)+

lemma f_lit_hundredth: "f_lit 1 100 = 0x3C23D70A"
  by code_simp

lemma duty_fraction_code [code]: "duty_fraction p = f_add (f_mul (f_of_int p) 0xBC23D70A) 0x3F800000"
proof -
  have "f_of_int 1 = 0x3F800000" "f_neg 0x3C23D70A = 0xBC23D70A" by code_simp+
  then show ?thesis by (simp add: duty_fraction_def f_lit_hundredth)
qed

text \<open>Rounding does not leave an interval from zero to a whole number.\<close>

lemma round_below:
  assumes "0 \<le> n" "0 < d" "n \<le> d * (c * F_ONE)" "0 \<le> c" "c < 16777216"
  shows "mag_val (round_mag n d) \<le> c * F_ONE" "round_mag n d < F_INF"
proof -
  obtain b where b: "0 \<le> b" "b < F_INF" "mag_val b = c * F_ONE"
    using representable [of c 149] assms by (auto simp: F_ONE_def)
  have le: "round_mag n d \<le> b" using assms b by (intro round_mag_le) auto
  then show "round_mag n d < F_INF" using b by simp
  show "mag_val (round_mag n d) \<le> c * F_ONE"
    using le b assms round_mag_bounds [of n d] by (subst b(3) [symmetric], subst mag_val_le_iff) auto
qed

lemma hundredth: "\<not> f_sgn 0x3C23D70A" "f_mag 0x3C23D70A = 0x3C23D70A" "100 * f_val 0x3C23D70A \<le> F_ONE" "0 \<le> f_val 0x3C23D70A"
  by (simp_all add: f_sgn_def f_mag_def f_val_def mag_val_def F_ONE_def)

lemma duty_product:
  assumes "0 \<le> p" "p \<le> 100"
  shows "f_fin (f_mul (f_of_int p) (f_neg (f_lit 1 100)))" "- F_ONE \<le> f_val (f_mul (f_of_int p) (f_neg (f_lit 1 100)))"
    "f_val (f_mul (f_of_int p) (f_neg (f_lit 1 100))) \<le> 0"
proof -
  let ?h = "0x3C23D70A :: float32"
  have pv: "f_val (f_of_int p) = p * F_ONE" "f_fin (f_of_int p)" using f_of_int_exact [of p] assms by auto
  have ps: "\<not> f_sgn (f_of_int p)" using assms by (simp add: f_of_int_def)
  have nn: "\<not> f_nan ?h" "\<not> f_inf ?h" using hundredth(2) by (simp_all add: f_nan_def f_inf_def F_INF_def)
  have fin: "\<not> f_inf (f_of_int p)" using pv(2) by (simp add: f_inf_def f_fin_def)
  have m: "f_mul (f_of_int p) (f_neg ?h) = f_round True (p * F_ONE * f_val ?h) F_ONE"
    using nn fin hundredth ps assms pv by (simp add: f_mul_def Let_def f_inf_def abs_mult)
  have b: "p * F_ONE * f_val ?h \<le> F_ONE * (1 * F_ONE)"
  proof -
    have "p * f_val ?h \<le> 100 * f_val ?h" using assms hundredth(4) by (intro mult_right_mono) auto
    then have "F_ONE * (p * f_val ?h) \<le> F_ONE * (1 * F_ONE)" using hundredth(3) by (intro mult_left_mono) auto
    then show ?thesis by (simp add: mult_ac)
  qed
  have z: "0 \<le> p * F_ONE * f_val ?h" using assms hundredth(4) by simp
  note rb = round_below [OF z _ b] round_mag_bounds [OF z, of F_ONE]
  show "f_fin (f_mul (f_of_int p) (f_neg (f_lit 1 100)))" "- F_ONE \<le> f_val (f_mul (f_of_int p) (f_neg (f_lit 1 100)))"
    "f_val (f_mul (f_of_int p) (f_neg (f_lit 1 100))) \<le> 0"
    unfolding f_lit_hundredth m using z rb by (simp_all add: f_fin_def f_val_def mag_val_nonneg)
qed

lemma duty_fraction_bounds:
  assumes "0 \<le> p" "p \<le> 100"
  shows "f_fin (duty_fraction p)" "\<not> f_sgn (duty_fraction p)" "0 \<le> f_val (duty_fraction p)" "f_val (duty_fraction p) \<le> F_ONE"
proof -
  let ?m = "f_mul (f_of_int p) (f_neg (f_lit 1 100))"
  note m = duty_product [OF assms]
  have one: "f_val (f_of_int 1) = F_ONE" "f_fin (f_of_int 1)" "\<not> f_sgn (f_of_int 1)"
    using f_of_int_exact [of 1] by (simp_all add: f_of_int_def)
  have fin: "\<not> f_nan ?m" "\<not> f_inf ?m" "\<not> f_nan (f_of_int 1)" "\<not> f_inf (f_of_int 1)"
    using m(1) one(2) by (auto simp: f_fin_def f_nan_def f_inf_def)
  let ?v = "f_val ?m + F_ONE"
  have v: "0 \<le> ?v" "?v \<le> 1 * (1 * F_ONE)" using m by simp_all
  have d: "duty_fraction p = (if ?v = 0 then f_make False 0 else f_round False ?v 1)"
    using fin v one by (simp add: duty_fraction_def f_add_def Let_def)
  note rb = round_below [OF v(1) _ v(2)] round_mag_bounds [OF v(1), of 1]
  have z: "f_fin (f_make False 0)" "\<not> f_sgn (f_make False 0)" "f_val (f_make False 0) = 0"
    by (simp_all add: f_fin_def f_val_def F_INF_def)
  have q: "f_fin (f_round False ?v 1)" "\<not> f_sgn (f_round False ?v 1)" "0 \<le> f_val (f_round False ?v 1)"
    "f_val (f_round False ?v 1) \<le> F_ONE"
    using rb v by (simp_all add: f_fin_def f_val_def mag_val_nonneg)
  show "f_fin (duty_fraction p)" "\<not> f_sgn (duty_fraction p)" "0 \<le> f_val (duty_fraction p)" "f_val (duty_fraction p) \<le> F_ONE"
    unfolding d using z q by simp_all
qed

lemma duty_compare_ok:
  assumes "0 \<le> p" "p \<le> 100" "uint icr \<le> 32767"
  shows "\<exists>c. duty_compare p icr = Some c \<and> c \<le> icr"
proof -
  let ?x = "duty_fraction p" and ?t = "f_of_int (uint icr)"
  note x = duty_fraction_bounds [OF assms(1,2)]
  have t: "f_val ?t = uint icr * F_ONE" "f_fin ?t" "\<not> f_sgn ?t"
    using f_of_int_exact [of "uint icr"] assms by (simp_all add: f_of_int_def)
  have fin: "\<not> f_nan ?x" "\<not> f_inf ?x" "\<not> f_nan ?t" "\<not> f_inf ?t"
    using x(1) t(2) by (auto simp: f_fin_def f_nan_def f_inf_def)
  let ?n = "f_val ?x * (uint icr * F_ONE)"
  have m: "f_mul ?x ?t = f_round False ?n F_ONE" using fin x t by (simp add: f_mul_def Let_def abs_mult)
  have n: "0 \<le> ?n" "?n \<le> F_ONE * (uint icr * F_ONE)" using x by (auto intro: mult_right_mono)
  note rb = round_below [OF n(1) _ n(2)] round_mag_bounds [OF n(1), of F_ONE]
  have v: "f_fin (f_mul ?x ?t)" "0 \<le> f_val (f_mul ?x ?t)" "f_val (f_mul ?x ?t) \<le> uint icr * F_ONE"
    unfolding m using rb n assms by (simp_all add: f_fin_def f_val_def mag_val_nonneg)
  let ?i = "f_val (f_mul ?x ?t) div F_ONE"
  have i: "0 \<le> ?i" "?i \<le> uint icr" using v zdiv_mono1 [OF v(3), of F_ONE] by (simp_all add: pos_imp_zdiv_nonneg_iff)
  have fi: "f_int (f_mul ?x ?t) = ?i" using v(2) by (auto simp: f_int_def sgn_if)
  have "duty_compare p icr = Some (word_of_int ?i)"
    using v(1) i assms(3) by (simp add: duty_compare_def f_to_s16_def f_trunc_def fi checked_s16_def)
  moreover have "(word_of_int ?i :: 16 word) \<le> icr" using i assms(3)
    by (simp add: word_le_def uint_word_of_int take_bit_eq_mod)
  ultimately show ?thesis by blast
qed

text \<open>
  The compare value a signed duty cycle asks for: its magnitude, at most 100, against the top value.
\<close>

definition duty_mag :: "int16 \<Rightarrow> int" where
  "duty_mag pwm = min 100 \<bar>sint pwm\<bar>"

lemma sint16_bounds: "- 32768 \<le> sint (w :: 16 word)" "sint (w :: 16 word) \<le> 32767"
  using sint_greater_eq [of w] sint_less [of w] by simp_all

lemma duty_mag_bounds: "0 \<le> duty_mag p" "duty_mag p \<le> 100"
  by (simp_all add: duty_mag_def)

lemma sint_checked: "checked_s16 i = Some w \<Longrightarrow> sint w = i"
  by (auto simp: checked_s16_def int_word_sint split: if_splits)

lemma Motor_PWM_Left_unfold:
  "Motor_PWM_Left pwm m r =
     (if sint pwm = - 32768 then None
      else map_option (\<lambda>c. (m\<lparr>OCR1B := c\<rparr>,
        sei (r\<lparr>PORTB := if sint pwm < 0 then PORTB r OR 0x04 else PORTB r AND 0xFB\<rparr>))) (duty_compare (duty_mag pwm) (ICR1 m)))"
proof (cases "sint pwm < 0")
  case True
  show ?thesis
  proof (cases "sint pwm = - 32768")
    case False
    then obtain w where w: "checked_s16 (- sint pwm) = Some w" "sint w = - sint pwm"
      using True sint16_bounds [of pwm] sint_checked by (fastforce simp: checked_s16_def)
    have "sint (if 100 < sint w then 100 else w) = duty_mag pwm" using w True by (auto simp: duty_mag_def)
    then show ?thesis using w True False by (simp add: Motor_PWM_Left_def Let_def map_option_case split: option.split bind_splits)
  qed (simp add: Motor_PWM_Left_def checked_s16_def)
next
  case False
  have "sint (if 100 < sint pwm then 100 else pwm) = duty_mag pwm" using False by (auto simp: duty_mag_def)
  then show ?thesis using False by (simp add: Motor_PWM_Left_def Let_def map_option_case split: option.split bind_splits)
qed

lemma Motor_PWM_Right_unfold:
  "Motor_PWM_Right pwm m r =
     (if sint pwm = - 32768 then None
      else map_option (\<lambda>c. (m\<lparr>OCR1A := c\<rparr>,
        sei (r\<lparr>PORTB := if sint pwm < 0 then PORTB r OR 0x02 else PORTB r AND 0xFD\<rparr>))) (duty_compare (duty_mag pwm) (ICR1 m)))"
proof (cases "sint pwm < 0")
  case True
  show ?thesis
  proof (cases "sint pwm = - 32768")
    case False
    then obtain w where w: "checked_s16 (- sint pwm) = Some w" "sint w = - sint pwm"
      using True sint16_bounds [of pwm] sint_checked by (fastforce simp: checked_s16_def)
    have "sint (if 100 < sint w then 100 else w) = duty_mag pwm" using w True by (auto simp: duty_mag_def)
    then show ?thesis using w True False by (simp add: Motor_PWM_Right_def Let_def map_option_case split: option.split bind_splits)
  qed (simp add: Motor_PWM_Right_def checked_s16_def)
next
  case False
  have "sint (if 100 < sint pwm then 100 else pwm) = duty_mag pwm" using False by (auto simp: duty_mag_def)
  then show ?thesis using False by (simp add: Motor_PWM_Right_def Let_def map_option_case split: option.split bind_splits)
qed

lemma Motor_PWM_Left_ok:
  assumes "uint (ICR1 m) \<le> 32767" "sint pwm \<noteq> - 32768"
  shows "\<exists>m' r'. Motor_PWM_Left pwm m r = Some (m', r') \<and> OCR1B m' \<le> ICR1 m' \<and>
    m' = m\<lparr>OCR1B := OCR1B m'\<rparr> \<and> duty_compare (duty_mag pwm) (ICR1 m) = Some (OCR1B m') \<and> bit (PORTB r') 2 = (sint pwm < 0)"
proof -
  obtain c where "duty_compare (duty_mag pwm) (ICR1 m) = Some c" "c \<le> ICR1 m"
    using duty_compare_ok [OF duty_mag_bounds assms(1)] by blast
  then show ?thesis using assms(2) by (simp add: Motor_PWM_Left_unfold sei_def bit_simps)
qed

lemma Motor_PWM_Right_ok:
  assumes "uint (ICR1 m) \<le> 32767" "sint pwm \<noteq> - 32768"
  shows "\<exists>m' r'. Motor_PWM_Right pwm m r = Some (m', r') \<and> OCR1A m' \<le> ICR1 m' \<and>
    m' = m\<lparr>OCR1A := OCR1A m'\<rparr> \<and> duty_compare (duty_mag pwm) (ICR1 m) = Some (OCR1A m') \<and> bit (PORTB r') 1 = (sint pwm < 0)"
proof -
  obtain c where "duty_compare (duty_mag pwm) (ICR1 m) = Some c" "c \<le> ICR1 m"
    using duty_compare_ok [OF duty_mag_bounds assms(1)] by blast
  then show ?thesis using assms(2) by (simp add: Motor_PWM_Right_unfold sei_def bit_simps)
qed

text \<open>A duty cycle of zero is the top value: the motor stands.\<close>

lemma duty_compare_0:
  assumes "uint icr \<le> 32767"
  shows "duty_compare 0 icr = Some icr"
proof -
  have one: "duty_fraction 0 = 0x3F800000" by code_simp
  let ?t = "f_of_int (uint icr)"
  have t: "f_val ?t = uint icr * F_ONE" "f_fin ?t" "\<not> f_sgn ?t"
    using f_of_int_exact [of "uint icr"] assms by (simp_all add: f_of_int_def)
  have o1: "f_val 0x3F800000 = F_ONE" "\<not> f_nan 0x3F800000" "\<not> f_inf 0x3F800000" "\<not> f_sgn 0x3F800000"
    by (simp_all add: f_val_def f_nan_def f_inf_def f_sgn_def f_mag_def mag_val_def F_ONE_def F_INF_def)
  have mv: "0 \<le> f_mag ?t" "f_mag ?t \<le> F_INF" "mag_val (f_mag ?t) = uint icr * F_ONE"
    using t by (auto simp: f_fin_def f_val_def f_mag_def)
  have "f_mul 0x3F800000 ?t = f_make False (f_mag ?t)"
    using o1 t mv round_mag_exact [of F_ONE "f_mag ?t"]
    by (simp add: f_mul_def Let_def f_fin_def f_inf_def f_round_def abs_mult)
  then have m: "f_fin (f_mul 0x3F800000 ?t)" "f_val (f_mul 0x3F800000 ?t) = uint icr * F_ONE"
    using mv t by (simp_all add: f_fin_def f_val_def)
  have "f_int (f_mul 0x3F800000 ?t) = uint icr" using f_int_whole [OF m(2)] by simp
  moreover have "- 32768 \<le> uint icr" by (rule order_trans [OF _ uint_nonnegative]) simp
  ultimately show ?thesis using m assms by (simp add: duty_compare_def one f_to_s16_def f_trunc_def checked_s16_def)
qed

end
