(* ===== verification/Motor_Duty.thy ===== *)
theory Motor_Duty
  imports Motor_PWM
begin

text \<open>
  The compare value of every duty cycle at the top value 400 that \<^verbatim>\<open>Main.c\<close> configures, by evaluation
  of the binary32 arithmetic.
\<close>

lemma f_of_int_400: "f_of_int 400 = 0x43C80000"
  by code_simp

definition compare400 :: "float32 \<Rightarrow> int \<Rightarrow> bool" where
  "compare400 x p \<longleftrightarrow> f_fin x \<and> f_int x = 400 - 4 * p - of_bool (p = 47 \<or> p = 93)"

definition compare400_ok :: "int \<Rightarrow> bool" where
  "compare400_ok p \<longleftrightarrow> compare400 (f_mul (duty_fraction p) 0x43C80000) p"

lemma compare400_table_1: "list_all compare400_ok [0..25]"
  by code_simp

lemma compare400_table_2: "list_all compare400_ok [26..50]"
  by code_simp

lemma compare400_table_3: "list_all compare400_ok [51..75]"
  by code_simp

lemma compare400_table_4: "list_all compare400_ok [76..100]"
  by code_simp

lemma list_all_upto: "list_all P [a..b] \<Longrightarrow> a \<le> p \<Longrightarrow> p \<le> b \<Longrightarrow> P p"
  by (simp only: list_all_iff set_upto) simp

lemma compare400_table: "0 \<le> p \<Longrightarrow> p \<le> 100 \<Longrightarrow> compare400_ok p"
  using list_all_upto [OF compare400_table_1, of p] list_all_upto [OF compare400_table_2, of p]
    list_all_upto [OF compare400_table_3, of p] list_all_upto [OF compare400_table_4, of p] by linarith

lemma duty_compare_400:
  assumes "0 \<le> p" "p \<le> 100"
  shows "duty_compare p 400 = Some (word_of_int (400 - 4 * p - of_bool (p = 47 \<or> p = 93)))"
proof -
  have "compare400_ok p" by (rule compare400_table [OF assms])
  then show ?thesis using assms
    by (auto simp: compare400_ok_def compare400_def duty_compare_def f_of_int_400 f_to_s16_def f_trunc_def checked_s16_def)
qed

end
