(* ===== verification/Controller.thy ===== *)
theory Controller
  imports Digital_Filter
begin

text \<open>
  \<^verbatim>\<open>Driver/Controller.c\<close> and \<^verbatim>\<open>Driver/Controller.h\<close>: the motor controllers, a filter with a target
  position and a target velocity.
\<close>

record Controller_t =
  controller :: Filter_Data_t
  kp :: float32
  target_pos :: float32
  target_vel :: float32
  update_period :: float32

definition controller_zero :: Controller_t where
  "controller_zero = \<lparr>controller = filter_zero, kp = 0, target_pos = 0, target_vel = 0, update_period = 0\<rparr>"

definition Saturate :: "float32 \<Rightarrow> float32 \<Rightarrow> float32" where
  "Saturate value ABS_MAX =
     (if f_lt ABS_MAX value then ABS_MAX else if f_lt value (f_neg ABS_MAX) then f_neg ABS_MAX else value)"

definition Controller_Init ::
  "Controller_t \<Rightarrow> float32 \<Rightarrow> float32 list \<Rightarrow> float32 list \<Rightarrow> uint8 \<Rightarrow> float32 \<Rightarrow> Controller_t option" where
  "Controller_Init p_cont kp_v num den order period = do {
     f \<leftarrow> Filter_Init (controller p_cont) num den order;
     Some (p_cont\<lparr>controller := f, kp := kp_v, update_period := period, target_pos := 0, target_vel := 0\<rparr>) }"

definition Controller_Set_Target_Velocity :: "Controller_t \<Rightarrow> float32 \<Rightarrow> Controller_t" where
  "Controller_Set_Target_Velocity p_cont vel = p_cont\<lparr>target_vel := vel\<rparr>"

definition Controller_Set_Target_Position :: "Controller_t \<Rightarrow> float32 \<Rightarrow> Controller_t" where
  "Controller_Set_Target_Position p_cont pos = p_cont\<lparr>target_pos := pos\<rparr>"

definition Controller_Update :: "Controller_t \<Rightarrow> float32 \<Rightarrow> float32 \<Rightarrow> float32 \<times> Controller_t" where
  "Controller_Update p_cont measurement dt =
     (let input = f_sub (target_vel p_cont) (f_div measurement dt);
          (filt_val, f) = Filter_Value (controller p_cont) input
      in (filt_val, p_cont\<lparr>controller := f\<rparr>))"

definition Controller_Last :: "Controller_t \<Rightarrow> float32" where
  "Controller_Last p_cont = Filter_Last_Output (controller p_cont)"

definition Controller_SetTo :: "Controller_t \<Rightarrow> float32 \<Rightarrow> Controller_t option" where
  "Controller_SetTo p_cont measurement = do {
     f \<leftarrow> Filter_SetTo (controller p_cont) measurement;
     Some (p_cont\<lparr>controller := f\<rparr>) }"

definition Controller_ShiftBy :: "Controller_t \<Rightarrow> float32 \<Rightarrow> Controller_t option" where
  "Controller_ShiftBy p_cont measurement = do {
     f \<leftarrow> Filter_ShiftBy (controller p_cont) measurement;
     Some (p_cont\<lparr>controller := f\<rparr>) }"

definition controller_wf :: "nat \<Rightarrow> Controller_t \<Rightarrow> bool" where
  "controller_wf n c = filter_wf n (controller c)"

lemma Controller_targets [simp]:
  "target_vel (Controller_Set_Target_Velocity c v) = v"
  "target_pos (Controller_Set_Target_Velocity c v) = target_pos c"
  "target_pos (Controller_Set_Target_Position c v) = v"
  "target_vel (Controller_Set_Target_Position c v) = target_vel c"
  "update_period (Controller_Set_Target_Velocity c v) = update_period c"
  "update_period (Controller_Set_Target_Position c v) = update_period c"
  "controller (Controller_Set_Target_Velocity c v) = controller c"
  "controller (Controller_Set_Target_Position c v) = controller c"
  by (simp_all add: Controller_Set_Target_Velocity_def Controller_Set_Target_Position_def)

lemma controller_wf_targets [simp]:
  "controller_wf n (Controller_Set_Target_Velocity c v) = controller_wf n c"
  "controller_wf n (Controller_Set_Target_Position c v) = controller_wf n c"
  by (simp_all add: controller_wf_def)

lemma Saturate_bounds:
  assumes "\<not> f_nan v" "\<not> f_nan m" "0 \<le> f_val m"
  shows "f_le (f_neg m) (Saturate v m)" "f_le (Saturate v m) m"
  using assms by (auto simp: Saturate_def f_le_def f_lt_def)

end
