(* ===== verification/Usb_Core.thy ===== *)
theory Usb_Core
  imports Ring_Buffer Avr_Io
begin

text \<open>
  The USB device controller of the ATmega32U4 and the functions of the LUFA library on it
  (\<^verbatim>\<open>Endpoint_AVR8.h\<close>, \<^verbatim>\<open>Endpoint_AVR8.c\<close>, \<^verbatim>\<open>Device_AVR8.h\<close>, \<^verbatim>\<open>USBInterrupt_AVR8\<close>, \<^verbatim>\<open>USBController_AVR8\<close>) for this chip
  (series 4) and the options of the firmware's makefile. One record holds the registers, the variables
  of the library and the static variables of \<^verbatim>\<open>SerialIO.c\<close>.

  Each endpoint has its own copy of the registers behind \<open>UENUM\<close> and the bytes of its current bank, which
  \<open>UEDATX\<close> reads and writes and \<open>UEBCX\<close> counts; \<open>to_host\<close> are the packets handed to the host. The hardware
  acts in four places: handing over a bank, \<open>CFGOK\<close>, \<open>RWAL\<close> and the lock of the PLL (\<open>pll_ok\<close>: whether it locks).
\<close>

section \<open>State\<close>

datatype device_state = DEVICE_STATE_Unattached | DEVICE_STATE_Powered | DEVICE_STATE_Default
  | DEVICE_STATE_Addressed | DEVICE_STATE_Configured | DEVICE_STATE_Suspended

record endpoint =
  UEINTX :: uint8
  UEIENX :: uint8
  UECONX :: uint8
  UECFG0X :: uint8
  UECFG1X :: uint8
  UESTA0X :: uint8
  bank :: "byte list"
  to_host :: "byte list list"

record CDC_LineEncoding_t =
  BaudRateBPS :: uint32
  CharFormat :: uint8
  ParityType :: uint8
  DataBits :: uint8

record USB_Request_Header_t =
  bmRequestType :: uint8
  bRequest :: uint8
  wValue :: uint16
  wIndex :: uint16
  wLength :: uint16

record usb =
  usb_receive_buffer :: Ring_Buffer_C
  usb_send_buffer :: Ring_Buffer_C
  clear_buffer :: bool
  reading :: bool
  sending :: bool
  LineEncoding1 :: CDC_LineEncoding_t
  USB_DeviceState :: device_state
  USB_ControlRequest :: USB_Request_Header_t
  USB_Device_ConfigurationNumber :: uint8
  USB_Device_RemoteWakeupEnabled :: bool
  USB_Device_CurrentlySelfPowered :: bool
  USB_IsInitialized :: bool
  UENUM :: uint8
  eps :: "uint8 \<Rightarrow> endpoint"
  UERST :: uint8
  UDADDR :: uint8
  UDFNUM :: uint16
  UDCON :: uint8
  UDIEN :: uint8
  UDINT :: uint8
  USBCON :: uint8
  USBINT :: uint8
  USBSTA :: uint8
  UHWCON :: uint8
  PLLCSR :: uint8
  PLLFRQ :: uint8
  MCUSR :: uint8
  WDTCSR :: uint8
  CLKPR :: uint8
  pll_ok :: bool
  signature :: "uint8 \<Rightarrow> uint8"

text \<open>The static variables and registers at power-on.\<close>

definition endpoint_zero :: endpoint where
  "endpoint_zero = \<lparr>UEINTX = 0, UEIENX = 0, UECONX = 0, UECFG0X = 0, UECFG1X = 0, UESTA0X = 0, bank = [], to_host = []\<rparr>"

definition request_zero :: USB_Request_Header_t where
  "request_zero = \<lparr>bmRequestType = 0, bRequest = 0, wValue = 0, wIndex = 0, wLength = 0\<rparr>"

definition usb_zero :: usb where
  "usb_zero = \<lparr>usb_receive_buffer = rb_zero_C, usb_send_buffer = rb_zero_C, clear_buffer = False, reading = False,
     sending = False, LineEncoding1 = \<lparr>BaudRateBPS = 0, CharFormat = 0, ParityType = 0, DataBits = 8\<rparr>,
     USB_DeviceState = DEVICE_STATE_Unattached, USB_ControlRequest = request_zero, USB_Device_ConfigurationNumber = 0,
     USB_Device_RemoteWakeupEnabled = False, USB_Device_CurrentlySelfPowered = False, USB_IsInitialized = False,
     UENUM = 0, eps = (\<lambda>n. endpoint_zero), UERST = 0, UDADDR = 0, UDFNUM = 0, UDCON = 1, UDIEN = 0, UDINT = 0,
     USBCON = 0x20, USBINT = 0, USBSTA = 0, UHWCON = 0, PLLCSR = 0, PLLFRQ = 4, MCUSR = 0, WDTCSR = 0, CLKPR = 0,
     pll_ok = True, signature = (\<lambda>n. 0)\<rparr>"

definition ENDPOINT_DIR_IN :: uint8 where "ENDPOINT_DIR_IN = 0x80"
definition ENDPOINT_EPNUM_MASK :: uint8 where "ENDPOINT_EPNUM_MASK = 0x0F"
definition ENDPOINT_CONTROLEP :: uint8 where "ENDPOINT_CONTROLEP = 0"
definition ENDPOINT_TOTAL_ENDPOINTS :: uint8 where "ENDPOINT_TOTAL_ENDPOINTS = 7"
definition EP_TYPE_CONTROL :: uint8 where "EP_TYPE_CONTROL = 0"
definition EP_TYPE_BULK :: uint8 where "EP_TYPE_BULK = 2"
definition EP_TYPE_INTERRUPT :: uint8 where "EP_TYPE_INTERRUPT = 3"
definition CONTROL_ENDPOINT_SIZE :: uint16 where "CONTROL_ENDPOINT_SIZE = 8"

text \<open>Bits of the endpoint registers.\<close>

definition TXINI :: uint8 where "TXINI = 0x01"
definition RXOUTI :: uint8 where "RXOUTI = 0x04"
definition RXSTPI :: uint8 where "RXSTPI = 0x08"
definition FIFOCON :: uint8 where "FIFOCON = 0x80"
definition RXSTPE :: uint8 where "RXSTPE = 0x08"
definition EPEN :: uint8 where "EPEN = 0x01"
definition RSTDT :: uint8 where "RSTDT = 0x08"
definition STALLRQC :: uint8 where "STALLRQC = 0x10"
definition STALLRQ :: uint8 where "STALLRQ = 0x20"
definition EPDIR :: uint8 where "EPDIR = 0x01"
definition ALLOC :: uint8 where "ALLOC = 0x02"
definition CFGOK :: uint8 where "CFGOK = 0x80"

section \<open>Endpoint functions\<close>

definition cur :: "usb \<Rightarrow> endpoint" where
  "cur u = eps u (UENUM u)"

definition set_cur :: "endpoint \<Rightarrow> usb \<Rightarrow> usb" where
  "set_cur e u = u\<lparr>eps := (eps u)(UENUM u := e)\<rparr>"

definition dir_in :: "endpoint \<Rightarrow> bool" where
  "dir_in e \<longleftrightarrow> UECFG0X e AND EPDIR \<noteq> 0"

definition is_control :: "endpoint \<Rightarrow> bool" where
  "is_control e \<longleftrightarrow> UECFG0X e AND 0xC0 = 0"

text \<open>The bank goes to the host, or is freed for the next packet.\<close>

definition send_bank :: "endpoint \<Rightarrow> endpoint" where
  "send_bank e = e\<lparr>bank := [], to_host := to_host e @ [bank e]\<rparr>"

definition free_bank :: "endpoint \<Rightarrow> endpoint" where
  "free_bank e = e\<lparr>bank := []\<rparr>"

definition Endpoint_SelectEndpoint :: "uint8 \<Rightarrow> usb \<Rightarrow> usb" where
  "Endpoint_SelectEndpoint Address u = u\<lparr>UENUM := Address AND ENDPOINT_EPNUM_MASK\<rparr>"

definition Endpoint_GetEndpointDirection :: "usb \<Rightarrow> uint8" where
  "Endpoint_GetEndpointDirection u = (if dir_in (cur u) then ENDPOINT_DIR_IN else 0)"

definition Endpoint_GetCurrentEndpoint :: "usb \<Rightarrow> uint8" where
  "Endpoint_GetCurrentEndpoint u = (UENUM u AND ENDPOINT_EPNUM_MASK) OR Endpoint_GetEndpointDirection u"

definition Endpoint_BytesInEndpoint :: "usb \<Rightarrow> uint16" where
  "Endpoint_BytesInEndpoint u = of_nat (length (bank (cur u)))"

definition Endpoint_IsINReady :: "usb \<Rightarrow> bool" where
  "Endpoint_IsINReady u = (UEINTX (cur u) AND TXINI \<noteq> 0)"

definition Endpoint_IsOUTReceived :: "usb \<Rightarrow> bool" where
  "Endpoint_IsOUTReceived u = (UEINTX (cur u) AND RXOUTI \<noteq> 0)"

definition Endpoint_IsSETUPReceived :: "usb \<Rightarrow> bool" where
  "Endpoint_IsSETUPReceived u = (UEINTX (cur u) AND RXSTPI \<noteq> 0)"

text \<open>
  Clearing \<open>RXSTPI\<close> frees the bank of the control endpoint, clearing \<open>TXINI\<close> there sends it; on the other
  endpoints clearing \<open>FIFOCON\<close> hands the bank over in the endpoint's direction (data sheet, 22.12 to 22.14).
\<close>

definition Endpoint_ClearSETUP :: "usb \<Rightarrow> usb" where
  "Endpoint_ClearSETUP u = set_cur (free_bank ((cur u)\<lparr>UEINTX := UEINTX (cur u) AND NOT RXSTPI\<rparr>)) u"

definition Endpoint_ClearIN :: "usb \<Rightarrow> usb" where
  "Endpoint_ClearIN u =
     (let e = (cur u)\<lparr>UEINTX := UEINTX (cur u) AND NOT (TXINI OR FIFOCON)\<rparr>
      in set_cur (if is_control e \<or> dir_in e then send_bank e else free_bank e) u)"

definition Endpoint_ClearOUT :: "usb \<Rightarrow> usb" where
  "Endpoint_ClearOUT u =
     (let e = (cur u)\<lparr>UEINTX := UEINTX (cur u) AND NOT (RXOUTI OR FIFOCON)\<rparr>
      in set_cur (if \<not> is_control e \<and> dir_in e then send_bank e else free_bank e) u)"

definition Endpoint_StallTransaction :: "usb \<Rightarrow> usb" where
  "Endpoint_StallTransaction u = set_cur ((cur u)\<lparr>UECONX := UECONX (cur u) OR STALLRQ\<rparr>) u"

text \<open>
  Writing a one to \<open>STALLRQC\<close> or \<open>RSTDT\<close> is a command to the hardware, which clears \<open>STALLRQ\<close> or resets the data
  toggle; both bits read as zero again.
\<close>

definition command_UECONX :: "uint8 \<Rightarrow> endpoint \<Rightarrow> endpoint" where
  "command_UECONX v e =
     (let v = (if v AND STALLRQC \<noteq> 0 then v AND NOT STALLRQ else v) in e\<lparr>UECONX := v AND NOT (STALLRQC OR RSTDT)\<rparr>)"

definition Endpoint_ClearStall :: "usb \<Rightarrow> usb" where
  "Endpoint_ClearStall u = set_cur (command_UECONX (UECONX (cur u) OR STALLRQC) (cur u)) u"

definition Endpoint_IsStalled :: "usb \<Rightarrow> bool" where
  "Endpoint_IsStalled u = (UECONX (cur u) AND STALLRQ \<noteq> 0)"

definition Endpoint_ResetDataToggle :: "usb \<Rightarrow> usb" where
  "Endpoint_ResetDataToggle u = set_cur (command_UECONX (UECONX (cur u) OR RSTDT) (cur u)) u"

definition Endpoint_ResetEndpoint :: "uint8 \<Rightarrow> usb \<Rightarrow> usb" where
  "Endpoint_ResetEndpoint Address u =
     (let n = Address AND ENDPOINT_EPNUM_MASK;
          u = u\<lparr>UERST := bv (unat n), eps := (eps u)(n := free_bank (eps u n))\<rparr>
      in u\<lparr>UERST := 0\<rparr>)"

definition Endpoint_EnableEndpoint :: "usb \<Rightarrow> usb" where
  "Endpoint_EnableEndpoint u = set_cur ((cur u)\<lparr>UECONX := UECONX (cur u) OR EPEN\<rparr>) u"

definition Endpoint_DisableEndpoint :: "usb \<Rightarrow> usb" where
  "Endpoint_DisableEndpoint u = set_cur ((cur u)\<lparr>UECONX := UECONX (cur u) AND NOT EPEN\<rparr>) u"

definition Endpoint_IsEnabled :: "usb \<Rightarrow> bool" where
  "Endpoint_IsEnabled u = (UECONX (cur u) AND EPEN \<noteq> 0)"

definition Endpoint_IsConfigured :: "usb \<Rightarrow> bool" where
  "Endpoint_IsConfigured u = (UESTA0X (cur u) AND CFGOK \<noteq> 0)"

text \<open>Reading \<open>UEDATX\<close> takes the next byte of the bank; callers check that there is one.\<close>

definition Endpoint_Read_8 :: "usb \<Rightarrow> byte \<times> usb" where
  "Endpoint_Read_8 u = (case bank (cur u) of [] \<Rightarrow> (0, u) | b # bs \<Rightarrow> (b, set_cur ((cur u)\<lparr>bank := bs\<rparr>) u))"

definition Endpoint_Write_8 :: "byte \<Rightarrow> usb \<Rightarrow> usb" where
  "Endpoint_Write_8 Data u = set_cur ((cur u)\<lparr>bank := bank (cur u) @ [Data]\<rparr>) u"

definition Endpoint_Write_16_LE :: "uint16 \<Rightarrow> usb \<Rightarrow> usb" where
  "Endpoint_Write_16_LE Data u =
     (let u = Endpoint_Write_8 (ucast (Data AND 0xFF)) u
      in Endpoint_Write_8 (ucast (drop_bit 8 Data)) u)"

text \<open>\<open>RWAL\<close>: the bank of an IN endpoint has room, the bank of an OUT endpoint has bytes.\<close>

definition bank_size :: "endpoint \<Rightarrow> nat" where
  "bank_size e = 8 * 2 ^ unat (drop_bit 4 (UECFG1X e) AND 7)"

definition Endpoint_IsReadWriteAllowed :: "usb \<Rightarrow> bool" where
  "Endpoint_IsReadWriteAllowed u =
     (if dir_in (cur u) then length (bank (cur u)) < bank_size (cur u) else bank (cur u) \<noteq> [])"

section \<open>Configuration of endpoints\<close>

text \<open>The loop over 16-bit values does not end for a size above \<open>2^15\<close>.\<close>

partial_function (option) size_mask :: "uint16 \<Rightarrow> uint8 \<Rightarrow> uint16 \<Rightarrow> uint8 option" where
  "size_mask Bytes MaskVal CheckBytes =
     (if CheckBytes < Bytes then size_mask Bytes (MaskVal + 1) (push_bit 1 CheckBytes) else Some (push_bit 4 MaskVal))"

definition Endpoint_BytesToEPSizeMask :: "uint16 \<Rightarrow> uint8 option" where
  "Endpoint_BytesToEPSizeMask Bytes = size_mask Bytes 0 8"

text \<open>
  Writing \<open>UECFG1X\<close> with \<open>ALLOC\<close> makes the hardware check the size: at most 64 bytes, 256 on endpoint 1
  (data sheet, 22.1).
\<close>

definition size_accepted :: "uint8 \<Rightarrow> uint8 \<Rightarrow> bool" where
  "size_accepted n v \<longleftrightarrow> drop_bit 4 v AND 7 \<le> (if n = 1 then 5 else 3)"

definition write_UECFG1X :: "uint8 \<Rightarrow> usb \<Rightarrow> usb" where
  "write_UECFG1X v u = set_cur ((cur u)\<lparr>UECFG1X := v, UESTA0X :=
     (if v AND ALLOC \<noteq> 0 \<and> size_accepted (UENUM u) v then UESTA0X (cur u) OR CFGOK else UESTA0X (cur u) AND NOT CFGOK)\<rparr>) u"

text \<open>The body of the loop for an endpoint whose memory is to be allocated.\<close>

definition allocate_endpoint :: "uint8 \<Rightarrow> uint8 \<Rightarrow> uint8 \<Rightarrow> usb \<Rightarrow> usb" where
  "allocate_endpoint UECFG0XTemp UECFG1XTemp UEIENXTemp u =
     (let u = Endpoint_DisableEndpoint u;
          u = write_UECFG1X (UECFG1X (cur u) AND NOT ALLOC) u;
          u = Endpoint_EnableEndpoint u;
          u = set_cur ((cur u)\<lparr>UECFG0X := UECFG0XTemp\<rparr>) u;
          u = write_UECFG1X UECFG1XTemp u
      in set_cur ((cur u)\<lparr>UEIENX := UEIENXTemp\<rparr>) u)"

fun configure_from :: "uint8 list \<Rightarrow> uint8 \<Rightarrow> uint8 \<Rightarrow> uint8 \<Rightarrow> usb \<Rightarrow> bool \<times> usb" where
  "configure_from [] Number UECFG0XData UECFG1XData u = (True, Endpoint_SelectEndpoint Number u)"
| "configure_from (EPNum # ns) Number UECFG0XData UECFG1XData u =
     (let u = Endpoint_SelectEndpoint EPNum u;
          (UECFG0XTemp, UECFG1XTemp, UEIENXTemp) =
            (if EPNum = Number then (UECFG0XData, UECFG1XData, 0) else (UECFG0X (cur u), UECFG1X (cur u), UEIENX (cur u)))
      in if UECFG1XTemp AND ALLOC = 0 then configure_from ns Number UECFG0XData UECFG1XData u
         else
           (let u = allocate_endpoint UECFG0XTemp UECFG1XTemp UEIENXTemp u
            in if \<not> Endpoint_IsConfigured u then (False, u)
               else configure_from ns Number UECFG0XData UECFG1XData u))"

definition Endpoint_ConfigureEndpoint_Prv :: "uint8 \<Rightarrow> uint8 \<Rightarrow> uint8 \<Rightarrow> usb \<Rightarrow> bool \<times> usb" where
  "Endpoint_ConfigureEndpoint_Prv Number =
     configure_from (map of_nat [unat Number..<unat ENDPOINT_TOTAL_ENDPOINTS]) Number"

definition Endpoint_ConfigureEndpoint :: "uint8 \<Rightarrow> uint8 \<Rightarrow> uint16 \<Rightarrow> uint8 \<Rightarrow> usb \<Rightarrow> (bool \<times> usb) option" where
  "Endpoint_ConfigureEndpoint Address Type Size Banks u =
     (let Number = Address AND ENDPOINT_EPNUM_MASK in
      if ENDPOINT_TOTAL_ENDPOINTS \<le> Number then Some (False, u)
      else do {
        m \<leftarrow> Endpoint_BytesToEPSizeMask Size;
        Some (Endpoint_ConfigureEndpoint_Prv Number
          (push_bit 6 Type OR (if Address AND ENDPOINT_DIR_IN \<noteq> 0 then EPDIR else 0))
          (ALLOC OR (if 1 < Banks then 4 else 0) OR m) u) })"

section \<open>Interrupts and initialisation\<close>

datatype USB_Interrupts_t = USB_INT_VBUSTI | USB_INT_WAKEUPI | USB_INT_SUSPI | USB_INT_EORSTI | USB_INT_SOFI | USB_INT_RXSTPI

fun USB_INT_Enable :: "USB_Interrupts_t \<Rightarrow> usb \<Rightarrow> usb" where
  "USB_INT_Enable USB_INT_VBUSTI u = u\<lparr>USBCON := USBCON u OR bv 0\<rparr>"
| "USB_INT_Enable USB_INT_WAKEUPI u = u\<lparr>UDIEN := UDIEN u OR bv 4\<rparr>"
| "USB_INT_Enable USB_INT_SUSPI u = u\<lparr>UDIEN := UDIEN u OR bv 0\<rparr>"
| "USB_INT_Enable USB_INT_EORSTI u = u\<lparr>UDIEN := UDIEN u OR bv 3\<rparr>"
| "USB_INT_Enable USB_INT_SOFI u = u\<lparr>UDIEN := UDIEN u OR bv 2\<rparr>"
| "USB_INT_Enable USB_INT_RXSTPI u = set_cur ((cur u)\<lparr>UEIENX := UEIENX (cur u) OR RXSTPE\<rparr>) u"

fun USB_INT_Disable :: "USB_Interrupts_t \<Rightarrow> usb \<Rightarrow> usb" where
  "USB_INT_Disable USB_INT_VBUSTI u = u\<lparr>USBCON := USBCON u AND NOT (bv 0)\<rparr>"
| "USB_INT_Disable USB_INT_WAKEUPI u = u\<lparr>UDIEN := UDIEN u AND NOT (bv 4)\<rparr>"
| "USB_INT_Disable USB_INT_SUSPI u = u\<lparr>UDIEN := UDIEN u AND NOT (bv 0)\<rparr>"
| "USB_INT_Disable USB_INT_EORSTI u = u\<lparr>UDIEN := UDIEN u AND NOT (bv 3)\<rparr>"
| "USB_INT_Disable USB_INT_SOFI u = u\<lparr>UDIEN := UDIEN u AND NOT (bv 2)\<rparr>"
| "USB_INT_Disable USB_INT_RXSTPI u = set_cur ((cur u)\<lparr>UEIENX := UEIENX (cur u) AND NOT RXSTPE\<rparr>) u"

fun USB_INT_Clear :: "USB_Interrupts_t \<Rightarrow> usb \<Rightarrow> usb" where
  "USB_INT_Clear USB_INT_VBUSTI u = u\<lparr>USBINT := USBINT u AND NOT (bv 0)\<rparr>"
| "USB_INT_Clear USB_INT_WAKEUPI u = u\<lparr>UDINT := UDINT u AND NOT (bv 4)\<rparr>"
| "USB_INT_Clear USB_INT_SUSPI u = u\<lparr>UDINT := UDINT u AND NOT (bv 0)\<rparr>"
| "USB_INT_Clear USB_INT_EORSTI u = u\<lparr>UDINT := UDINT u AND NOT (bv 3)\<rparr>"
| "USB_INT_Clear USB_INT_SOFI u = u\<lparr>UDINT := UDINT u AND NOT (bv 2)\<rparr>"
| "USB_INT_Clear USB_INT_RXSTPI u = set_cur ((cur u)\<lparr>UEINTX := UEINTX (cur u) AND NOT RXSTPI\<rparr>) u"

fun USB_INT_IsEnabled :: "USB_Interrupts_t \<Rightarrow> usb \<Rightarrow> bool" where
  "USB_INT_IsEnabled USB_INT_VBUSTI u = (USBCON u AND bv 0 \<noteq> 0)"
| "USB_INT_IsEnabled USB_INT_WAKEUPI u = (UDIEN u AND bv 4 \<noteq> 0)"
| "USB_INT_IsEnabled USB_INT_SUSPI u = (UDIEN u AND bv 0 \<noteq> 0)"
| "USB_INT_IsEnabled USB_INT_EORSTI u = (UDIEN u AND bv 3 \<noteq> 0)"
| "USB_INT_IsEnabled USB_INT_SOFI u = (UDIEN u AND bv 2 \<noteq> 0)"
| "USB_INT_IsEnabled USB_INT_RXSTPI u = (UEIENX (cur u) AND RXSTPE \<noteq> 0)"

fun USB_INT_HasOccurred :: "USB_Interrupts_t \<Rightarrow> usb \<Rightarrow> bool" where
  "USB_INT_HasOccurred USB_INT_VBUSTI u = (USBINT u AND bv 0 \<noteq> 0)"
| "USB_INT_HasOccurred USB_INT_WAKEUPI u = (UDINT u AND bv 4 \<noteq> 0)"
| "USB_INT_HasOccurred USB_INT_SUSPI u = (UDINT u AND bv 0 \<noteq> 0)"
| "USB_INT_HasOccurred USB_INT_EORSTI u = (UDINT u AND bv 3 \<noteq> 0)"
| "USB_INT_HasOccurred USB_INT_SOFI u = (UDINT u AND bv 2 \<noteq> 0)"
| "USB_INT_HasOccurred USB_INT_RXSTPI u = (UEINTX (cur u) AND RXSTPI \<noteq> 0)"

definition USB_INT_DisableAllInterrupts :: "usb \<Rightarrow> usb" where
  "USB_INT_DisableAllInterrupts u = u\<lparr>USBCON := USBCON u AND NOT (bv 0), UDIEN := 0\<rparr>"

definition USB_INT_ClearAllInterrupts :: "usb \<Rightarrow> usb" where
  "USB_INT_ClearAllInterrupts u = u\<lparr>USBINT := 0, UDINT := 0\<rparr>"

definition USB_VBUS_GetStatus :: "usb \<Rightarrow> bool" where
  "USB_VBUS_GetStatus u = (USBSTA u AND bv 0 \<noteq> 0)"

definition USB_Attach :: "usb \<Rightarrow> usb" where
  "USB_Attach u = u\<lparr>UDCON := UDCON u AND NOT (bv 0)\<rparr>"

definition USB_PLL_On :: "usb \<Rightarrow> usb" where
  "USB_PLL_On u = u\<lparr>PLLCSR := bv 4 OR bv 1\<rparr>"

definition USB_PLL_Off :: "usb \<Rightarrow> usb" where
  "USB_PLL_Off u = u\<lparr>PLLCSR := 0\<rparr>"

text \<open>The busy wait for \<open>PLOCK\<close>.\<close>

definition USB_PLL_wait :: "usb \<Rightarrow> usb option" where
  "USB_PLL_wait u = (if pll_ok u then Some (u\<lparr>PLLCSR := PLLCSR u OR bv 0\<rparr>) else None)"

definition USB_REG_On :: "usb \<Rightarrow> usb" where
  "USB_REG_On u = u\<lparr>UHWCON := UHWCON u OR bv 0\<rparr>"

definition USB_OTGPAD_On :: "usb \<Rightarrow> usb" where
  "USB_OTGPAD_On u = u\<lparr>USBCON := USBCON u OR bv 4\<rparr>"

definition USB_OTGPAD_Off :: "usb \<Rightarrow> usb" where
  "USB_OTGPAD_Off u = u\<lparr>USBCON := USBCON u AND NOT (bv 4)\<rparr>"

definition USB_CLK_Freeze :: "usb \<Rightarrow> usb" where
  "USB_CLK_Freeze u = u\<lparr>USBCON := USBCON u OR bv 5\<rparr>"

definition USB_CLK_Unfreeze :: "usb \<Rightarrow> usb" where
  "USB_CLK_Unfreeze u = u\<lparr>USBCON := USBCON u AND NOT (bv 5)\<rparr>"

definition USB_Controller_Reset :: "usb \<Rightarrow> usb" where
  "USB_Controller_Reset u = (let u = u\<lparr>USBCON := USBCON u AND NOT (bv 7)\<rparr> in u\<lparr>USBCON := USBCON u OR bv 7\<rparr>)"

definition USB_Device_SetFullSpeed :: "usb \<Rightarrow> usb" where
  "USB_Device_SetFullSpeed u = u\<lparr>UDCON := UDCON u AND NOT (bv 2)\<rparr>"

definition USB_Device_SetDeviceAddress :: "uint8 \<Rightarrow> usb \<Rightarrow> usb" where
  "USB_Device_SetDeviceAddress Address u = u\<lparr>UDADDR := (UDADDR u AND bv 7) OR (Address AND 0x7F)\<rparr>"

definition USB_Device_EnableDeviceAddress :: "uint8 \<Rightarrow> usb \<Rightarrow> usb" where
  "USB_Device_EnableDeviceAddress Address u = u\<lparr>UDADDR := UDADDR u OR bv 7\<rparr>"

definition USB_Device_IsAddressSet :: "usb \<Rightarrow> bool" where
  "USB_Device_IsAddressSet u = (UDADDR u AND bv 7 \<noteq> 0)"

text \<open>The general interrupt; the events it reports have empty handlers in this firmware.\<close>

definition USB_GEN_SOFI :: "usb \<Rightarrow> usb" where
  "USB_GEN_SOFI u =
     (if USB_INT_HasOccurred USB_INT_SOFI u \<and> USB_INT_IsEnabled USB_INT_SOFI u then USB_INT_Clear USB_INT_SOFI u else u)"

definition USB_GEN_VBUSTI :: "usb \<Rightarrow> usb option" where
  "USB_GEN_VBUSTI u =
     (if USB_INT_HasOccurred USB_INT_VBUSTI u \<and> USB_INT_IsEnabled USB_INT_VBUSTI u then
        (let u = USB_INT_Clear USB_INT_VBUSTI u in
         if USB_VBUS_GetStatus u then do {
           u \<leftarrow> USB_PLL_wait (USB_PLL_On u);
           Some (u\<lparr>USB_DeviceState := DEVICE_STATE_Powered\<rparr>) }
         else Some ((USB_PLL_Off u)\<lparr>USB_DeviceState := DEVICE_STATE_Unattached\<rparr>))
      else Some u)"

definition USB_GEN_SUSPI :: "usb \<Rightarrow> usb" where
  "USB_GEN_SUSPI u =
     (if USB_INT_HasOccurred USB_INT_SUSPI u \<and> USB_INT_IsEnabled USB_INT_SUSPI u then
        (let u = USB_INT_Disable USB_INT_SUSPI u;
             u = USB_INT_Enable USB_INT_WAKEUPI u;
             u = USB_CLK_Freeze u;
             u = USB_PLL_Off u
         in u\<lparr>USB_DeviceState := DEVICE_STATE_Suspended\<rparr>)
      else u)"

definition USB_GEN_WAKEUPI :: "usb \<Rightarrow> usb option" where
  "USB_GEN_WAKEUPI u =
     (if USB_INT_HasOccurred USB_INT_WAKEUPI u \<and> USB_INT_IsEnabled USB_INT_WAKEUPI u then do {
        u \<leftarrow> USB_PLL_wait (USB_PLL_On u);
        let u = USB_CLK_Unfreeze u;
        let u = USB_INT_Clear USB_INT_WAKEUPI u;
        let u = USB_INT_Disable USB_INT_WAKEUPI u;
        let u = USB_INT_Enable USB_INT_SUSPI u;
        Some (u\<lparr>USB_DeviceState :=
          (if USB_Device_ConfigurationNumber u \<noteq> 0 then DEVICE_STATE_Configured
           else if USB_Device_IsAddressSet u then DEVICE_STATE_Addressed else DEVICE_STATE_Powered)\<rparr>) }
      else Some u)"

definition USB_GEN_EORSTI :: "usb \<Rightarrow> usb option" where
  "USB_GEN_EORSTI u =
     (if USB_INT_HasOccurred USB_INT_EORSTI u \<and> USB_INT_IsEnabled USB_INT_EORSTI u then do {
        let u = USB_INT_Clear USB_INT_EORSTI u;
        let u = u\<lparr>USB_DeviceState := DEVICE_STATE_Default, USB_Device_ConfigurationNumber := 0\<rparr>;
        let u = USB_INT_Clear USB_INT_SUSPI u;
        let u = USB_INT_Disable USB_INT_SUSPI u;
        let u = USB_INT_Enable USB_INT_WAKEUPI u;
        (_, u) \<leftarrow> Endpoint_ConfigureEndpoint ENDPOINT_CONTROLEP EP_TYPE_CONTROL CONTROL_ENDPOINT_SIZE 1 u;
        Some (USB_INT_Enable USB_INT_RXSTPI u) }
      else Some u)"

definition USB_GEN_vect :: "usb \<Rightarrow> usb option" where
  "USB_GEN_vect u = do {
     u \<leftarrow> USB_GEN_VBUSTI (USB_GEN_SOFI u);
     u \<leftarrow> USB_GEN_WAKEUPI (USB_GEN_SUSPI u);
     USB_GEN_EORSTI u }"

definition USB_Init_Device :: "usb \<Rightarrow> usb option" where
  "USB_Init_Device u = do {
     let u = u\<lparr>USB_DeviceState := DEVICE_STATE_Unattached, USB_Device_ConfigurationNumber := 0\<rparr>;
     let u = u\<lparr>USB_Device_RemoteWakeupEnabled := False\<rparr>;
     let u = u\<lparr>USB_Device_CurrentlySelfPowered := False\<rparr>;
     let u = USB_Device_SetFullSpeed u;
     let u = USB_INT_Enable USB_INT_VBUSTI u;
     (_, u) \<leftarrow> Endpoint_ConfigureEndpoint ENDPOINT_CONTROLEP EP_TYPE_CONTROL CONTROL_ENDPOINT_SIZE 1 u;
     let u = USB_INT_Clear USB_INT_SUSPI u;
     let u = USB_INT_Enable USB_INT_SUSPI u;
     let u = USB_INT_Enable USB_INT_EORSTI u;
     Some (USB_Attach u) }"

definition USB_ResetInterface :: "usb \<Rightarrow> usb option" where
  "USB_ResetInterface u = do {
     let u = USB_INT_DisableAllInterrupts u;
     let u = USB_INT_ClearAllInterrupts u;
     let u = USB_Controller_Reset u;
     let u = USB_CLK_Unfreeze u;
     let u = USB_PLL_Off u;
     u \<leftarrow> USB_Init_Device u;
     Some (USB_OTGPAD_On u) }"

definition USB_Init :: "usb \<Rightarrow> usb option" where
  "USB_Init u = do {
     let u = USB_OTGPAD_Off u;
     let u = USB_REG_On u;
     let u = u\<lparr>PLLFRQ := bv 2\<rparr>;
     let u = u\<lparr>USB_IsInitialized := True\<rparr>;
     USB_ResetInterface u }"

end
