(* ===== verification/Usb_Stream.thy ===== *)
theory Usb_Stream
  imports Usb_Core
begin

text \<open>
  Busy waiting on the host: the control and data streams of LUFA (\<^verbatim>\<open>Endpoint_AVR8.c\<close>, \<^verbatim>\<open>EndpointStream_AVR8.c\<close> and
  its templates). What happens on the bus while a loop polls is a list of events, one for each
  iteration; a loop that has not ended when the list is used up yields \<^const>\<open>None\<close>. Every function returns
  the events it has not used.
\<close>

section \<open>Events\<close>

datatype bus_event = Idle | IN_token uint8 | OUT_packet uint8 "byte list" | SETUP_packet "byte list" | Frame
  | Bus_interrupt uint8 | VBUS_change bool

definition set_ep :: "uint8 \<Rightarrow> endpoint \<Rightarrow> usb \<Rightarrow> usb" where
  "set_ep n e u = u\<lparr>eps := (eps u)(n := e)\<rparr>"

text \<open>
  The host takes a packet and the bank is free again; it sends a packet, which an occupied bank refuses;
  it sends a setup packet, which is always accepted and ends a stall; a frame begins; the general
  interrupt reports a reset, suspension or resumption (the bits of \<open>UDINT\<close>) or a change of the supply.
\<close>

fun bus_step :: "bus_event \<Rightarrow> usb \<Rightarrow> usb option" where
  "bus_step Idle u = Some u"
| "bus_step (IN_token n) u = Some (set_ep n ((eps u n)\<lparr>UEINTX := UEINTX (eps u n) OR TXINI\<rparr>) u)"
| "bus_step (OUT_packet n d) u =
     Some (if UEINTX (eps u n) AND RXOUTI = 0
           then set_ep n ((eps u n)\<lparr>UEINTX := UEINTX (eps u n) OR RXOUTI, bank := d\<rparr>) u else u)"
| "bus_step (SETUP_packet d) u =
     Some (set_ep 0 ((eps u 0)\<lparr>UEINTX := UEINTX (eps u 0) OR RXSTPI, UECONX := UECONX (eps u 0) AND NOT STALLRQ, bank := d\<rparr>) u)"
| "bus_step Frame u = Some (u\<lparr>UDFNUM := UDFNUM u + 1\<rparr>)"
| "bus_step (Bus_interrupt f) u = USB_GEN_vect (u\<lparr>UDINT := UDINT u OR f\<rparr>)"
| "bus_step (VBUS_change b) u =
     USB_GEN_vect (u\<lparr>USBSTA := (if b then USBSTA u OR bv 0 else USBSTA u AND NOT (bv 0)), USBINT := USBINT u OR bv 0\<rparr>)"

fun wait_until :: "(usb \<Rightarrow> bool) \<Rightarrow> bus_event list \<Rightarrow> usb \<Rightarrow> (usb \<times> bus_event list) option" where
  "wait_until P [] u = (if P u then Some (u, []) else None)"
| "wait_until P (ev # evs) u = (if P u then Some (u, ev # evs) else do { u \<leftarrow> bus_step ev u; wait_until P evs u })"

section \<open>Status stage\<close>

definition Endpoint_ClearStatusStage :: "bus_event list \<Rightarrow> usb \<Rightarrow> (usb \<times> bus_event list) option" where
  "Endpoint_ClearStatusStage evs u =
     (if bmRequestType (USB_ControlRequest u) AND 0x80 \<noteq> 0 then do {
        (u, evs) \<leftarrow> wait_until (\<lambda>u. Endpoint_IsOUTReceived u \<or> USB_DeviceState u = DEVICE_STATE_Unattached) evs u;
        Some (if Endpoint_IsOUTReceived u then Endpoint_ClearOUT u else u, evs) }
      else do {
        (u, evs) \<leftarrow> wait_until (\<lambda>u. Endpoint_IsINReady u \<or> USB_DeviceState u = DEVICE_STATE_Unattached) evs u;
        Some (if Endpoint_IsINReady u then Endpoint_ClearIN u else u, evs) })"

section \<open>Control streams\<close>

datatype Endpoint_ControlStream_RW_ErrorCodes_t = ENDPOINT_RWCSTREAM_NoError | ENDPOINT_RWCSTREAM_HostAborted
  | ENDPOINT_RWCSTREAM_DeviceDisconnected | ENDPOINT_RWCSTREAM_BusSuspended

definition control_error :: "usb \<Rightarrow> Endpoint_ControlStream_RW_ErrorCodes_t option" where
  "control_error u =
     (if USB_DeviceState u = DEVICE_STATE_Unattached then Some ENDPOINT_RWCSTREAM_DeviceDisconnected
      else if USB_DeviceState u = DEVICE_STATE_Suspended then Some ENDPOINT_RWCSTREAM_BusSuspended
      else if Endpoint_IsSETUPReceived u then Some ENDPOINT_RWCSTREAM_HostAborted
      else None)"

text \<open>The inner loop that fills the bank; what is left of the data, and the bytes in the bank.\<close>

fun fill_bank :: "byte list \<Rightarrow> uint16 \<Rightarrow> usb \<Rightarrow> byte list \<times> uint16 \<times> usb" where
  "fill_bank [] BytesInEndpoint u = ([], BytesInEndpoint, u)"
| "fill_bank (b # bs) BytesInEndpoint u =
     (if BytesInEndpoint < CONTROL_ENDPOINT_SIZE then fill_bank bs (BytesInEndpoint + 1) (Endpoint_Write_8 b u)
      else (b # bs, BytesInEndpoint, u))"

text \<open>The outer loop; \<^const>\<open>None\<close> as the code: it ended without error.\<close>

fun control_write :: "byte list \<Rightarrow> bool \<Rightarrow> bus_event list \<Rightarrow> usb
    \<Rightarrow> (Endpoint_ControlStream_RW_ErrorCodes_t option \<times> usb \<times> bus_event list) option" where
  "control_write DataStream LastPacketFull [] u =
     (if DataStream = [] \<and> \<not> LastPacketFull then Some (None, u, []) else None)"
| "control_write DataStream LastPacketFull (ev # evs) u =
     (if DataStream = [] \<and> \<not> LastPacketFull then Some (None, u, ev # evs)
      else do {
        u \<leftarrow> bus_step ev u;
        case control_error u of
          Some e \<Rightarrow> Some (Some e, u, evs)
        | None \<Rightarrow>
            if Endpoint_IsOUTReceived u then Some (None, u, evs)
            else if Endpoint_IsINReady u then
              (let (DataStream, BytesInEndpoint, u) = fill_bank DataStream (Endpoint_BytesInEndpoint u) u;
                   LastPacketFull = (BytesInEndpoint = CONTROL_ENDPOINT_SIZE);
                   u = Endpoint_ClearIN u
               in control_write DataStream LastPacketFull evs u)
            else control_write DataStream LastPacketFull evs u })"

text \<open>The loop that waits for the host's status packet.\<close>

fun control_status :: "bus_event list \<Rightarrow> usb \<Rightarrow> (Endpoint_ControlStream_RW_ErrorCodes_t \<times> usb \<times> bus_event list) option" where
  "control_status [] u =
     (if Endpoint_IsOUTReceived u then Some (ENDPOINT_RWCSTREAM_NoError, u, [])
      else case control_error u of Some e \<Rightarrow> Some (e, u, []) | None \<Rightarrow> None)"
| "control_status (ev # evs) u =
     (if Endpoint_IsOUTReceived u then Some (ENDPOINT_RWCSTREAM_NoError, u, ev # evs)
      else case control_error u of Some e \<Rightarrow> Some (e, u, ev # evs)
           | None \<Rightarrow> do { u \<leftarrow> bus_step ev u; control_status evs u })"

text \<open>The variant for descriptors in flash memory differs only in how it loads a byte.\<close>

definition Endpoint_Write_Control_Stream_LE :: "byte list \<Rightarrow> bus_event list \<Rightarrow> usb
    \<Rightarrow> (Endpoint_ControlStream_RW_ErrorCodes_t \<times> usb \<times> bus_event list) option" where
  "Endpoint_Write_Control_Stream_LE Buffer evs u =
     (let (DataStream, u) =
            (if unat (wLength (USB_ControlRequest u)) < length Buffer
             then (take (unat (wLength (USB_ControlRequest u))) Buffer, u)
             else if Buffer = [] then ([], Endpoint_ClearIN u) else (Buffer, u))
      in do {
        (e, u, evs) \<leftarrow> control_write DataStream False evs u;
        case e of Some e \<Rightarrow> Some (e, u, evs) | None \<Rightarrow> control_status evs u })"

definition Endpoint_Write_Control_PStream_LE :: "byte list \<Rightarrow> bus_event list \<Rightarrow> usb
    \<Rightarrow> (Endpoint_ControlStream_RW_ErrorCodes_t \<times> usb \<times> bus_event list) option" where
  "Endpoint_Write_Control_PStream_LE = Endpoint_Write_Control_Stream_LE"

fun drain_bank :: "nat \<Rightarrow> usb \<Rightarrow> byte list \<times> nat \<times> usb" where
  "drain_bank 0 u = ([], 0, u)"
| "drain_bank (Suc n) u =
     (if Endpoint_BytesInEndpoint u \<noteq> 0 then
        (let (b, u) = Endpoint_Read_8 u; (bs, k, u) = drain_bank n u in (b # bs, k, u))
      else ([], Suc n, u))"

text \<open>The bytes read so far are in the first component.\<close>

fun control_read :: "nat \<Rightarrow> bus_event list \<Rightarrow> usb
    \<Rightarrow> (byte list \<times> Endpoint_ControlStream_RW_ErrorCodes_t option \<times> usb \<times> bus_event list) option" where
  "control_read Length [] u = (if Length = 0 then Some ([], None, u, []) else None)"
| "control_read Length (ev # evs) u =
     (if Length = 0 then Some ([], None, u, ev # evs)
      else do {
        u \<leftarrow> bus_step ev u;
        case control_error u of
          Some e \<Rightarrow> Some ([], Some e, u, evs)
        | None \<Rightarrow>
            if Endpoint_IsOUTReceived u then do {
              let (bs, Length, u) = drain_bank Length u;
              (cs, e, u, evs) \<leftarrow> control_read Length evs (Endpoint_ClearOUT u);
              Some (bs @ cs, e, u, evs) }
            else control_read Length evs u })"

text \<open>Waiting for the bank to send the status packet; a new setup packet does not end this loop.\<close>

definition control_in_error :: "usb \<Rightarrow> Endpoint_ControlStream_RW_ErrorCodes_t option" where
  "control_in_error u =
     (if USB_DeviceState u = DEVICE_STATE_Unattached then Some ENDPOINT_RWCSTREAM_DeviceDisconnected
      else if USB_DeviceState u = DEVICE_STATE_Suspended then Some ENDPOINT_RWCSTREAM_BusSuspended
      else None)"

definition Endpoint_Read_Control_Stream_LE :: "nat \<Rightarrow> bus_event list \<Rightarrow> usb
    \<Rightarrow> (byte list \<times> Endpoint_ControlStream_RW_ErrorCodes_t \<times> usb \<times> bus_event list) option" where
  "Endpoint_Read_Control_Stream_LE Length evs u = do {
     let u = (if Length = 0 then Endpoint_ClearOUT u else u);
     (d, e, u, evs) \<leftarrow> control_read Length evs u;
     case e of
       Some e \<Rightarrow> Some (d, e, u, evs)
     | None \<Rightarrow> do {
         (u, evs) \<leftarrow> wait_until (\<lambda>u. Endpoint_IsINReady u \<or> control_in_error u \<noteq> None) evs u;
         Some (d, if Endpoint_IsINReady u then ENDPOINT_RWCSTREAM_NoError
                  else the (control_in_error u), u, evs) } }"

section \<open>Data streams\<close>

datatype Endpoint_WaitUntilReady_ErrorCodes_t = ENDPOINT_READYWAIT_NoError | ENDPOINT_READYWAIT_EndpointStalled
  | ENDPOINT_READYWAIT_DeviceDisconnected | ENDPOINT_READYWAIT_BusSuspended | ENDPOINT_READYWAIT_Timeout

definition USB_STREAM_TIMEOUT_MS :: uint8 where "USB_STREAM_TIMEOUT_MS = 100"

definition ready_now :: "usb \<Rightarrow> bool" where
  "ready_now u =
     (if Endpoint_GetEndpointDirection u = ENDPOINT_DIR_IN then Endpoint_IsINReady u else Endpoint_IsOUTReceived u)"

text \<open>One iteration of the loop: its result, or the frame number and the time left.\<close>

definition ready_poll :: "uint8 \<Rightarrow> uint16 \<Rightarrow> usb \<Rightarrow> Endpoint_WaitUntilReady_ErrorCodes_t + uint8 \<times> uint16" where
  "ready_poll TimeoutMSRem PreviousFrameNumber u =
     (if ready_now u then Inl ENDPOINT_READYWAIT_NoError
      else if USB_DeviceState u = DEVICE_STATE_Unattached then Inl ENDPOINT_READYWAIT_DeviceDisconnected
      else if USB_DeviceState u = DEVICE_STATE_Suspended then Inl ENDPOINT_READYWAIT_BusSuspended
      else if Endpoint_IsStalled u then Inl ENDPOINT_READYWAIT_EndpointStalled
      else if UDFNUM u \<noteq> PreviousFrameNumber then
        (if TimeoutMSRem = 0 then Inl ENDPOINT_READYWAIT_Timeout else Inr (TimeoutMSRem - 1, UDFNUM u))
      else Inr (TimeoutMSRem, PreviousFrameNumber))"

fun wait_ready :: "uint8 \<Rightarrow> uint16 \<Rightarrow> bus_event list \<Rightarrow> usb
    \<Rightarrow> (Endpoint_WaitUntilReady_ErrorCodes_t \<times> usb \<times> bus_event list) option" where
  "wait_ready t f [] u = (case ready_poll t f u of Inl e \<Rightarrow> Some (e, u, []) | Inr _ \<Rightarrow> None)"
| "wait_ready t f (ev # evs) u =
     (case ready_poll t f u of
        Inl e \<Rightarrow> Some (e, u, ev # evs)
      | Inr (t, f) \<Rightarrow> do { u \<leftarrow> bus_step ev u; wait_ready t f evs u })"

definition Endpoint_WaitUntilReady :: "bus_event list \<Rightarrow> usb
    \<Rightarrow> (Endpoint_WaitUntilReady_ErrorCodes_t \<times> usb \<times> bus_event list) option" where
  "Endpoint_WaitUntilReady evs u = wait_ready USB_STREAM_TIMEOUT_MS (UDFNUM u) evs u"

datatype Endpoint_Stream_RW_ErrorCodes_t = ENDPOINT_RWSTREAM_NoError | ENDPOINT_RWSTREAM_EndpointStalled
  | ENDPOINT_RWSTREAM_DeviceDisconnected | ENDPOINT_RWSTREAM_BusSuspended | ENDPOINT_RWSTREAM_Timeout
  | ENDPOINT_RWSTREAM_IncompleteTransfer

text \<open>The codes of \<^const>\<open>Endpoint_WaitUntilReady\<close> are returned as they are; the two enumerations number them alike.\<close>

fun stream_code :: "Endpoint_WaitUntilReady_ErrorCodes_t \<Rightarrow> Endpoint_Stream_RW_ErrorCodes_t" where
  "stream_code ENDPOINT_READYWAIT_NoError = ENDPOINT_RWSTREAM_NoError"
| "stream_code ENDPOINT_READYWAIT_EndpointStalled = ENDPOINT_RWSTREAM_EndpointStalled"
| "stream_code ENDPOINT_READYWAIT_DeviceDisconnected = ENDPOINT_RWSTREAM_DeviceDisconnected"
| "stream_code ENDPOINT_READYWAIT_BusSuspended = ENDPOINT_RWSTREAM_BusSuspended"
| "stream_code ENDPOINT_READYWAIT_Timeout = ENDPOINT_RWSTREAM_Timeout"

text \<open>
  The loop of the template. \<open>clear\<close> and \<open>transfer\<close> are its macros: handing over the bank, and moving one byte with the
  buffer pointer, which is part of \<open>s\<close>. The counter is \<^const>\<open>None\<close> for a null pointer.
\<close>

partial_function (option) stream_loop :: "(usb \<Rightarrow> usb) \<Rightarrow> ('s \<Rightarrow> usb \<Rightarrow> 's \<times> usb) \<Rightarrow> uint16 \<Rightarrow> uint16 option \<Rightarrow> uint16 \<Rightarrow> 's
    \<Rightarrow> bus_event list \<Rightarrow> usb \<Rightarrow> (Endpoint_Stream_RW_ErrorCodes_t \<times> uint16 option \<times> 's \<times> usb \<times> bus_event list) option" where
  "stream_loop clear transfer Length BytesProcessed BytesInTransfer s evs u =
     (if Length = 0 then Some (ENDPOINT_RWSTREAM_NoError, BytesProcessed, s, u, evs)
      else if \<not> Endpoint_IsReadWriteAllowed u then
        (case BytesProcessed of
           Some n \<Rightarrow> Some (ENDPOINT_RWSTREAM_IncompleteTransfer, Some (n + BytesInTransfer), s, clear u, evs)
         | None \<Rightarrow> do {
             (e, u, evs) \<leftarrow> Endpoint_WaitUntilReady evs (clear u);
             if e \<noteq> ENDPOINT_READYWAIT_NoError then Some (stream_code e, BytesProcessed, s, u, evs)
             else stream_loop clear transfer Length BytesProcessed BytesInTransfer s evs u })
      else (let (s, u) = transfer s u in stream_loop clear transfer (Length - 1) BytesProcessed (BytesInTransfer + 1) s evs u))"

text \<open>Before the loop; \<open>move\<close> skips what earlier calls have done.\<close>

definition stream_template :: "(usb \<Rightarrow> usb) \<Rightarrow> ('s \<Rightarrow> usb \<Rightarrow> 's \<times> usb) \<Rightarrow> (nat \<Rightarrow> 's \<Rightarrow> 's) \<Rightarrow> 's \<Rightarrow> uint16 \<Rightarrow> uint16 option
    \<Rightarrow> bus_event list \<Rightarrow> usb \<Rightarrow> (Endpoint_Stream_RW_ErrorCodes_t \<times> uint16 option \<times> 's \<times> usb \<times> bus_event list) option" where
  "stream_template clear transfer move s Length BytesProcessed evs u = do {
     (e, u, evs) \<leftarrow> Endpoint_WaitUntilReady evs u;
     if e \<noteq> ENDPOINT_READYWAIT_NoError then Some (stream_code e, BytesProcessed, s, u, evs)
     else (case BytesProcessed of
         None \<Rightarrow> stream_loop clear transfer Length BytesProcessed 0 s evs u
       | Some n \<Rightarrow> stream_loop clear transfer (Length - n) BytesProcessed 0 (move (unat n) s) evs u) }"

text \<open>
  The instances. The buffer is a list and the pointer an index into it, as an integer because the big-endian variants
  move it down and leave it before the start.
\<close>

definition write_from :: "byte list \<Rightarrow> int \<Rightarrow> int \<Rightarrow> usb \<Rightarrow> int \<times> usb" where
  "write_from Buffer d p u = (p + d, Endpoint_Write_8 (Buffer ! nat p) u)"

definition read_to :: "int \<Rightarrow> byte list \<times> int \<Rightarrow> usb \<Rightarrow> (byte list \<times> int) \<times> usb" where
  "read_to d s u = (let (b, u) = Endpoint_Read_8 u in (((fst s)[nat (snd s) := b], snd s + d), u))"

definition Endpoint_Write_Stream_LE :: "byte list \<Rightarrow> uint16 \<Rightarrow> uint16 option \<Rightarrow> bus_event list \<Rightarrow> usb
    \<Rightarrow> (Endpoint_Stream_RW_ErrorCodes_t \<times> uint16 option \<times> int \<times> usb \<times> bus_event list) option" where
  "Endpoint_Write_Stream_LE Buffer = stream_template Endpoint_ClearIN (write_from Buffer 1) (\<lambda>n p. p + int n) 0"

definition Endpoint_Write_Stream_BE :: "byte list \<Rightarrow> uint16 \<Rightarrow> uint16 option \<Rightarrow> bus_event list \<Rightarrow> usb
    \<Rightarrow> (Endpoint_Stream_RW_ErrorCodes_t \<times> uint16 option \<times> int \<times> usb \<times> bus_event list) option" where
  "Endpoint_Write_Stream_BE Buffer Length =
     stream_template Endpoint_ClearIN (write_from Buffer (- 1)) (\<lambda>n p. p - int n) (int (unat Length) - 1) Length"

definition Endpoint_Read_Stream_LE :: "byte list \<Rightarrow> uint16 \<Rightarrow> uint16 option \<Rightarrow> bus_event list \<Rightarrow> usb
    \<Rightarrow> (Endpoint_Stream_RW_ErrorCodes_t \<times> uint16 option \<times> (byte list \<times> int) \<times> usb \<times> bus_event list) option" where
  "Endpoint_Read_Stream_LE Buffer =
     stream_template Endpoint_ClearOUT (read_to 1) (\<lambda>n. apsnd (\<lambda>p. p + int n)) (Buffer, 0)"

definition Endpoint_Read_Stream_BE :: "byte list \<Rightarrow> uint16 \<Rightarrow> uint16 option \<Rightarrow> bus_event list \<Rightarrow> usb
    \<Rightarrow> (Endpoint_Stream_RW_ErrorCodes_t \<times> uint16 option \<times> (byte list \<times> int) \<times> usb \<times> bus_event list) option" where
  "Endpoint_Read_Stream_BE Buffer Length =
     stream_template Endpoint_ClearOUT (read_to (- 1)) (\<lambda>n. apsnd (\<lambda>p. p - int n)) (Buffer, int (unat Length) - 1) Length"

end
