(* ===== verification/Usb_Device.thy ===== *)
theory Usb_Device
  imports Usb_Stream
begin

text \<open>
  The USB device: the descriptors of \<^verbatim>\<open>Driver/USB_Config/Descriptors.c\<close>, the event handlers of
  \<^verbatim>\<open>Driver/SerialIO.c\<close>, and the requests of LUFA's \<^verbatim>\<open>DeviceStandardReq.c\<close> that call them. A packed structure is the
  list of its bytes; a pointer to a descriptor is the name of the object it points to.
\<close>

section \<open>Descriptors\<close>

definition DTYPE_Device :: uint8 where "DTYPE_Device = 1"
definition DTYPE_Configuration :: uint8 where "DTYPE_Configuration = 2"
definition DTYPE_String :: uint8 where "DTYPE_String = 3"
definition DTYPE_Interface :: uint8 where "DTYPE_Interface = 4"
definition DTYPE_Endpoint :: uint8 where "DTYPE_Endpoint = 5"
definition CDC_DTYPE_CSInterface :: uint8 where "CDC_DTYPE_CSInterface = 0x24"
definition NO_DESCRIPTOR :: uint8 where "NO_DESCRIPTOR = 0"
definition USE_INTERNAL_SERIAL :: uint8 where "USE_INTERNAL_SERIAL = 0xDC"

definition CDC_TX_EPADDR :: uint8 where "CDC_TX_EPADDR = ENDPOINT_DIR_IN OR 1"
definition CDC_RX_EPADDR :: uint8 where "CDC_RX_EPADDR = 2"
definition CDC_NOTIFICATION_EPADDR :: uint8 where "CDC_NOTIFICATION_EPADDR = ENDPOINT_DIR_IN OR 3"
definition CDC_TXRX_EPSIZE :: uint16 where "CDC_TXRX_EPSIZE = 16"
definition CDC_NOTIFICATION_EPSIZE :: uint16 where "CDC_NOTIFICATION_EPSIZE = 8"

definition VERSION_BCD :: "uint16 \<Rightarrow> uint16 \<Rightarrow> uint16 \<Rightarrow> uint16" where
  "VERSION_BCD Major Minor Revision = push_bit 8 (Major AND 0xFF) OR push_bit 4 (Minor AND 0x0F) OR (Revision AND 0x0F)"

text \<open>The layouts: the fields of each structure in order, after its size: \<open>sizeof\<close> of a packed structure is the number of its bytes.\<close>

definition packed :: "byte list \<Rightarrow> byte list" where
  "packed bs = of_nat (Suc (length bs)) # bs"

definition interface_desc :: "uint8 \<Rightarrow> uint8 \<Rightarrow> uint8 \<Rightarrow> uint8 \<Rightarrow> uint8 \<Rightarrow> uint8 \<Rightarrow> uint8 \<Rightarrow> byte list" where
  "interface_desc InterfaceNumber AlternateSetting TotalEndpoints Class SubClass Protocol InterfaceStrIndex =
     packed [DTYPE_Interface, InterfaceNumber, AlternateSetting, TotalEndpoints, Class, SubClass, Protocol, InterfaceStrIndex]"

definition endpoint_desc :: "uint8 \<Rightarrow> uint8 \<Rightarrow> uint16 \<Rightarrow> uint8 \<Rightarrow> byte list" where
  "endpoint_desc EndpointAddress Attributes EndpointSize PollingIntervalMS =
     packed ([DTYPE_Endpoint, EndpointAddress, Attributes] @ le16 EndpointSize @ [PollingIntervalMS])"

definition string_desc :: "uint16 list \<Rightarrow> byte list" where
  "string_desc s = packed (DTYPE_String # concat (map le16 s))"

definition wide :: "string \<Rightarrow> uint16 list" where
  "wide s = map (\<lambda>c. ucast (chr c)) s"

definition DeviceDescriptor :: "byte list" where
  "DeviceDescriptor = packed ([DTYPE_Device] @ le16 (VERSION_BCD 1 1 0) @ [2, 0, 0, 8] @ le16 0x1FFB @ le16 0x2300 @
     le16 (VERSION_BCD 0 0 1) @ [1, 2, USE_INTERNAL_SERIAL, 1])"

text \<open>The interfaces and endpoints of the configuration, and before them the header with the size of the whole.\<close>

definition ConfigurationDescriptor_interfaces :: "byte list list" where
  "ConfigurationDescriptor_interfaces =
     [interface_desc 0 0 1 2 2 1 NO_DESCRIPTOR,
      packed ([CDC_DTYPE_CSInterface, 0x00] @ le16 (VERSION_BCD 1 1 0)),
      packed [CDC_DTYPE_CSInterface, 0x02, 0x06],
      packed [CDC_DTYPE_CSInterface, 0x06, 0, 1],
      endpoint_desc CDC_NOTIFICATION_EPADDR EP_TYPE_INTERRUPT CDC_NOTIFICATION_EPSIZE 0xFF,
      interface_desc 1 0 2 0x0A 0 0 NO_DESCRIPTOR,
      endpoint_desc CDC_RX_EPADDR EP_TYPE_BULK CDC_TXRX_EPSIZE 0x05,
      endpoint_desc CDC_TX_EPADDR EP_TYPE_BULK CDC_TXRX_EPSIZE 0x05]"

definition ConfigurationDescriptor_header :: "uint16 \<Rightarrow> byte list" where
  "ConfigurationDescriptor_header TotalConfigurationSize =
     packed ([DTYPE_Configuration] @ le16 TotalConfigurationSize @ [2, 1, NO_DESCRIPTOR, 0x80, 50])"

definition ConfigurationDescriptor_parts :: "byte list list" where
  "ConfigurationDescriptor_parts =
     ConfigurationDescriptor_header (of_nat (length (ConfigurationDescriptor_header 0) + length (concat ConfigurationDescriptor_interfaces))) #
     ConfigurationDescriptor_interfaces"

definition ConfigurationDescriptor :: "byte list" where
  "ConfigurationDescriptor = concat ConfigurationDescriptor_parts"

definition LanguageString :: "byte list" where
  "LanguageString = string_desc [0x0409]"

definition ManufacturerString :: "byte list" where
  "ManufacturerString = string_desc (wide ''Colorado School of Mines'')"

definition ProductString :: "byte list" where
  "ProductString = string_desc (wide ''MEGN540 Lab Pololu Zumo Car'')"

datatype descriptor_address = NULL | Device_at | Configuration_at | Language_at | Manufacturer_at | Product_at

fun flash :: "descriptor_address \<Rightarrow> byte list" where
  "flash NULL = []"
| "flash Device_at = DeviceDescriptor"
| "flash Configuration_at = ConfigurationDescriptor"
| "flash Language_at = LanguageString"
| "flash Manufacturer_at = ManufacturerString"
| "flash Product_at = ProductString"

text \<open>The size of a structure is that of its type, the size of a string is its first byte.\<close>

definition CALLBACK_USB_GetDescriptor :: "uint16 \<Rightarrow> uint16 \<Rightarrow> descriptor_address \<times> uint16" where
  "CALLBACK_USB_GetDescriptor wVal wInd =
     (let DescriptorType = (ucast (drop_bit 8 wVal) :: uint8);
          DescriptorNumber = (ucast (wVal AND 0xFF) :: uint8)
      in if DescriptorType = DTYPE_Device then (Device_at, of_nat (length DeviceDescriptor))
         else if DescriptorType = DTYPE_Configuration then (Configuration_at, of_nat (length ConfigurationDescriptor))
         else if DescriptorType = DTYPE_String then
           (if DescriptorNumber = 0 then (Language_at, ucast (LanguageString ! 0))
            else if DescriptorNumber = 1 then (Manufacturer_at, ucast (ManufacturerString ! 0))
            else if DescriptorNumber = 2 then (Product_at, ucast (ProductString ! 0))
            else (NULL, ucast NO_DESCRIPTOR))
         else (NULL, ucast NO_DESCRIPTOR))"

lemmas descriptor_defs = DeviceDescriptor_def ConfigurationDescriptor_def ConfigurationDescriptor_parts_def ConfigurationDescriptor_header_def
  ConfigurationDescriptor_interfaces_def interface_desc_def endpoint_desc_def packed_def

section \<open>Event handlers of the firmware\<close>

definition EVENT_USB_Device_ConfigurationChanged :: "usb \<Rightarrow> usb option" where
  "EVENT_USB_Device_ConfigurationChanged u = do {
     (_, u) \<leftarrow> Endpoint_ConfigureEndpoint CDC_TX_EPADDR EP_TYPE_BULK CDC_TXRX_EPSIZE 1 u;
     (_, u) \<leftarrow> Endpoint_ConfigureEndpoint CDC_RX_EPADDR EP_TYPE_BULK CDC_TXRX_EPSIZE 1 u;
     (_, u) \<leftarrow> Endpoint_ConfigureEndpoint CDC_NOTIFICATION_EPADDR EP_TYPE_INTERRUPT CDC_NOTIFICATION_EPSIZE 1 u;
     Some (u\<lparr>LineEncoding1 := (LineEncoding1 u)\<lparr>BaudRateBPS := 0\<rparr>\<rparr>) }"

text \<open>The seven bytes of the packed line encoding structure.\<close>

definition line_bytes :: "CDC_LineEncoding_t \<Rightarrow> byte list" where
  "line_bytes e = le32 (BaudRateBPS e) @ [CharFormat e, ParityType e, DataBits e]"

definition line_of_bytes :: "byte list \<Rightarrow> CDC_LineEncoding_t" where
  "line_of_bytes d = \<lparr>BaudRateBPS = of_le32 d, CharFormat = d ! 4, ParityType = d ! 5, DataBits = d ! 6\<rparr>"

text \<open>A stream that ends early leaves the other bytes of the structure as they were.\<close>

definition EVENT_USB_Device_ControlRequest :: "bus_event list \<Rightarrow> usb \<Rightarrow> (usb \<times> bus_event list) option" where
  "EVENT_USB_Device_ControlRequest evs u =
     (let req = USB_ControlRequest u in
      if bRequest req = 0x21 then
        (if bmRequestType req = 0xA1 then do {
           (_, u, evs) \<leftarrow> Endpoint_Write_Control_Stream_LE (line_bytes (LineEncoding1 u)) evs (Endpoint_ClearSETUP u);
           Some (Endpoint_ClearOUT u, evs) }
         else Some (u, evs))
      else if bRequest req = 0x20 then
        (if bmRequestType req = 0x21 then do {
           (d, _, u, evs) \<leftarrow> Endpoint_Read_Control_Stream_LE 7 evs (Endpoint_ClearSETUP u);
           Some (Endpoint_ClearIN (u\<lparr>LineEncoding1 := line_of_bytes (d @ drop (length d) (line_bytes (LineEncoding1 u)))\<rparr>), evs) }
         else Some (u, evs))
      else if bRequest req = 0x22 then
        (if bmRequestType req = 0x21 then Endpoint_ClearStatusStage evs (Endpoint_ClearSETUP u) else Some (u, evs))
      else Some (u, evs))"

section \<open>Standard requests\<close>

definition REQ_GetStatus :: uint8 where "REQ_GetStatus = 0"
definition REQ_ClearFeature :: uint8 where "REQ_ClearFeature = 1"
definition REQ_SetFeature :: uint8 where "REQ_SetFeature = 3"
definition REQ_SetAddress :: uint8 where "REQ_SetAddress = 5"
definition REQ_GetDescriptor :: uint8 where "REQ_GetDescriptor = 6"
definition REQ_GetConfiguration :: uint8 where "REQ_GetConfiguration = 8"
definition REQ_SetConfiguration :: uint8 where "REQ_SetConfiguration = 9"

definition USB_Device_SetAddress :: "bus_event list \<Rightarrow> usb \<Rightarrow> (usb \<times> bus_event list) option" where
  "USB_Device_SetAddress evs u = do {
     let DeviceAddress = (ucast (wValue (USB_ControlRequest u) AND 0x7F) :: uint8);
     let u = USB_Device_SetDeviceAddress DeviceAddress u;
     let u = Endpoint_ClearSETUP u;
     (u, evs) \<leftarrow> Endpoint_ClearStatusStage evs u;
     (u, evs) \<leftarrow> wait_until Endpoint_IsINReady evs u;
     let u = USB_Device_EnableDeviceAddress DeviceAddress u;
     Some (u\<lparr>USB_DeviceState := (if DeviceAddress \<noteq> 0 then DEVICE_STATE_Addressed else DEVICE_STATE_Default)\<rparr>, evs) }"

definition USB_Device_SetConfiguration :: "bus_event list \<Rightarrow> usb \<Rightarrow> (usb \<times> bus_event list) option" where
  "USB_Device_SetConfiguration evs u =
     (if (1 :: uint8) < ucast (wValue (USB_ControlRequest u)) then Some (u, evs)
      else do {
        let u = Endpoint_ClearSETUP u;
        let u = u\<lparr>USB_Device_ConfigurationNumber := ucast (wValue (USB_ControlRequest u))\<rparr>;
        (u, evs) \<leftarrow> Endpoint_ClearStatusStage evs u;
        let u = u\<lparr>USB_DeviceState :=
          (if USB_Device_ConfigurationNumber u \<noteq> 0 then DEVICE_STATE_Configured
           else if USB_Device_IsAddressSet u then DEVICE_STATE_Configured else DEVICE_STATE_Powered)\<rparr>;
        u \<leftarrow> EVENT_USB_Device_ConfigurationChanged u;
        Some (u, evs) })"

definition USB_Device_GetConfiguration :: "bus_event list \<Rightarrow> usb \<Rightarrow> (usb \<times> bus_event list) option" where
  "USB_Device_GetConfiguration evs u =
     (let u = Endpoint_ClearSETUP u;
          u = Endpoint_Write_8 (USB_Device_ConfigurationNumber u) u;
          u = Endpoint_ClearIN u
      in Endpoint_ClearStatusStage evs u)"

text \<open>Two hexadecimal digits for each of the ten bytes of the chip's signature row, low digit first.\<close>

definition serial_digit :: "usb \<Rightarrow> nat \<Rightarrow> uint8 \<times> uint16 list \<Rightarrow> uint8 \<times> uint16 list" where
  "serial_digit u SerialCharNum s =
     (let (SigReadAddress, UnicodeString) = s;
          SerialByte = signature u SigReadAddress;
          (SerialByte, SigReadAddress) =
            (if odd SerialCharNum then (drop_bit 4 SerialByte, SigReadAddress + 1) else (SerialByte, SigReadAddress));
          SerialByte = SerialByte AND 0x0F
      in (SigReadAddress, UnicodeString @ [ucast (if 10 \<le> SerialByte then 55 + SerialByte else 48 + SerialByte)]))"

definition USB_Device_GetSerialString :: "usb \<Rightarrow> uint16 list" where
  "USB_Device_GetSerialString u = snd (fold (serial_digit u) [0..<20] (0x0E, []))"

definition USB_Device_GetInternalSerialDescriptor :: "bus_event list \<Rightarrow> usb \<Rightarrow> (usb \<times> bus_event list) option" where
  "USB_Device_GetInternalSerialDescriptor evs u = do {
     let SignatureDescriptor = [42, DTYPE_String] @ concat (map le16 (USB_Device_GetSerialString u));
     let u = Endpoint_ClearSETUP u;
     (_, u, evs) \<leftarrow> Endpoint_Write_Control_Stream_LE SignatureDescriptor evs u;
     Some (Endpoint_ClearOUT u, evs) }"

definition USB_Device_GetDescriptor :: "bus_event list \<Rightarrow> usb \<Rightarrow> (usb \<times> bus_event list) option" where
  "USB_Device_GetDescriptor evs u =
     (if wValue (USB_ControlRequest u) = push_bit 8 (ucast DTYPE_String) OR ucast USE_INTERNAL_SERIAL
      then USB_Device_GetInternalSerialDescriptor evs u
      else
        (let (DescriptorPointer, DescriptorSize) =
               CALLBACK_USB_GetDescriptor (wValue (USB_ControlRequest u)) (wIndex (USB_ControlRequest u))
         in if DescriptorSize = ucast NO_DESCRIPTOR then Some (u, evs)
            else do {
              let u = Endpoint_ClearSETUP u;
              (_, u, evs) \<leftarrow> Endpoint_Write_Control_PStream_LE (take (unat DescriptorSize) (flash DescriptorPointer)) evs u;
              Some (Endpoint_ClearOUT u, evs) }))"

text \<open>The status byte, or \<^const>\<open>None\<close> where the function returns early.\<close>

definition current_status :: "usb \<Rightarrow> (uint8 \<times> usb) option" where
  "current_status u =
     (let req = USB_ControlRequest u in
      if bmRequestType req = 0x80 then
        Some ((if USB_Device_CurrentlySelfPowered u then 1 else 0) OR (if USB_Device_RemoteWakeupEnabled u then 2 else 0), u)
      else if bmRequestType req = 0x82 then
        (let EndpointIndex = ucast (wIndex req) AND ENDPOINT_EPNUM_MASK in
         if ENDPOINT_TOTAL_ENDPOINTS \<le> EndpointIndex then None
         else
           (let u = Endpoint_SelectEndpoint EndpointIndex u;
                CurrentStatus = (if Endpoint_IsStalled u then 1 else 0)
            in Some (CurrentStatus, Endpoint_SelectEndpoint ENDPOINT_CONTROLEP u)))
      else None)"

definition USB_Device_GetStatus :: "bus_event list \<Rightarrow> usb \<Rightarrow> (usb \<times> bus_event list) option" where
  "USB_Device_GetStatus evs u =
     (case current_status u of
        None \<Rightarrow> Some (u, evs)
      | Some (CurrentStatus, u) \<Rightarrow>
          (let u = Endpoint_ClearSETUP u;
               u = Endpoint_Write_16_LE (ucast CurrentStatus) u;
               u = Endpoint_ClearIN u
           in Endpoint_ClearStatusStage evs u))"

text \<open>The feature is changed, or \<^const>\<open>None\<close> where the function returns early.\<close>

definition change_feature :: "usb \<Rightarrow> usb option" where
  "change_feature u =
     (let req = USB_ControlRequest u; recipient = bmRequestType req AND 0x1F in
      if recipient = 0 then
        (if (ucast (wValue req) :: uint8) = 1
         then Some (u\<lparr>USB_Device_RemoteWakeupEnabled := (bRequest req = REQ_SetFeature)\<rparr>) else None)
      else if recipient = 2 then
        (if (ucast (wValue req) :: uint8) = 0 then
           (let EndpointIndex = ucast (wIndex req) AND ENDPOINT_EPNUM_MASK in
            if EndpointIndex = ENDPOINT_CONTROLEP \<or> ENDPOINT_TOTAL_ENDPOINTS \<le> EndpointIndex then None
            else
              (let u = Endpoint_SelectEndpoint EndpointIndex u in
               if Endpoint_IsEnabled u then
                 (if bRequest req = REQ_SetFeature then Some (Endpoint_StallTransaction u)
                  else Some (Endpoint_ResetDataToggle (Endpoint_ResetEndpoint EndpointIndex (Endpoint_ClearStall u))))
               else Some u))
         else Some u)
      else None)"

definition USB_Device_ClearSetFeature :: "bus_event list \<Rightarrow> usb \<Rightarrow> (usb \<times> bus_event list) option" where
  "USB_Device_ClearSetFeature evs u =
     (case change_feature u of
        None \<Rightarrow> Some (u, evs)
      | Some u \<Rightarrow>
          (let u = Endpoint_SelectEndpoint ENDPOINT_CONTROLEP u;
               u = Endpoint_ClearSETUP u
           in Endpoint_ClearStatusStage evs u))"

text \<open>The switch on the request code.\<close>

definition standard_request :: "bus_event list \<Rightarrow> usb \<Rightarrow> (usb \<times> bus_event list) option" where
  "standard_request evs u =
     (let t = bmRequestType (USB_ControlRequest u); r = bRequest (USB_ControlRequest u) in
      if r = REQ_GetStatus then (if t = 0x80 \<or> t = 0x82 then USB_Device_GetStatus evs u else Some (u, evs))
      else if r = REQ_ClearFeature \<or> r = REQ_SetFeature then
        (if t = 0x00 \<or> t = 0x02 then USB_Device_ClearSetFeature evs u else Some (u, evs))
      else if r = REQ_SetAddress then (if t = 0x00 then USB_Device_SetAddress evs u else Some (u, evs))
      else if r = REQ_GetDescriptor then (if t = 0x80 \<or> t = 0x81 then USB_Device_GetDescriptor evs u else Some (u, evs))
      else if r = REQ_GetConfiguration then (if t = 0x80 then USB_Device_GetConfiguration evs u else Some (u, evs))
      else if r = REQ_SetConfiguration then (if t = 0x00 then USB_Device_SetConfiguration evs u else Some (u, evs))
      else Some (u, evs))"

definition request_of_bytes :: "byte list \<Rightarrow> USB_Request_Header_t" where
  "request_of_bytes d =
     \<lparr>bmRequestType = d ! 0, bRequest = d ! 1, wValue = of_le16 (drop 2 d), wIndex = of_le16 (drop 4 d), wLength = of_le16 (drop 6 d)\<rparr>"

definition read_byte :: "byte list \<times> usb \<Rightarrow> byte list \<times> usb" where
  "read_byte s = (let (b, u) = Endpoint_Read_8 (snd s) in (fst s @ [b], u))"

definition USB_Device_ProcessControlRequest :: "bus_event list \<Rightarrow> usb \<Rightarrow> (usb \<times> bus_event list) option" where
  "USB_Device_ProcessControlRequest evs u = do {
     let (d, u) = (read_byte ^^ 8) ([], u);
     let u = u\<lparr>USB_ControlRequest := request_of_bytes d\<rparr>;
     (u, evs) \<leftarrow> EVENT_USB_Device_ControlRequest evs u;
     (u, evs) \<leftarrow> (if Endpoint_IsSETUPReceived u then standard_request evs u else Some (u, evs));
     Some (if Endpoint_IsSETUPReceived u then Endpoint_StallTransaction (Endpoint_ClearSETUP u) else u, evs) }"

section \<open>Where requests are processed\<close>

definition USB_USBTask :: "bus_event list \<Rightarrow> usb \<Rightarrow> usb option" where
  "USB_USBTask evs u =
     (if USB_DeviceState u = DEVICE_STATE_Unattached then Some u
      else do {
        let PrevEndpoint = Endpoint_GetCurrentEndpoint u;
        let u = Endpoint_SelectEndpoint ENDPOINT_CONTROLEP u;
        (u, _) \<leftarrow> (if Endpoint_IsSETUPReceived u then USB_Device_ProcessControlRequest evs u else Some (u, evs));
        Some (Endpoint_SelectEndpoint PrevEndpoint u) })"

text \<open>The interrupt service routine of the control endpoint.\<close>

definition USB_COM_vect :: "bus_event list \<Rightarrow> usb \<Rightarrow> usb option" where
  "USB_COM_vect evs u = do {
     let PrevSelectedEndpoint = Endpoint_GetCurrentEndpoint u;
     let u = Endpoint_SelectEndpoint ENDPOINT_CONTROLEP u;
     let u = USB_INT_Disable USB_INT_RXSTPI u;
     (u, _) \<leftarrow> USB_Device_ProcessControlRequest evs u;
     let u = Endpoint_SelectEndpoint ENDPOINT_CONTROLEP u;
     let u = USB_INT_Enable USB_INT_RXSTPI u;
     Some (Endpoint_SelectEndpoint PrevSelectedEndpoint u) }"

end
