(* ===== verification/Usb_Frame.thy ===== *)
theory Usb_Frame
  imports Usb_Device
begin

text \<open>
  The library keeps to its own state: no function of LUFA, whatever happens on the bus, touches the ring
  buffers and flags of \<^verbatim>\<open>SerialIO.c\<close>. The facts are collected in \<open>usb_frame\<close> (unconditional ones) and
  \<open>usb_frame_dest\<close> (for functions that may not return).
\<close>

named_theorems usb_frame
named_theorems usb_frame_dest

definition driver :: "usb \<Rightarrow> Ring_Buffer_C \<times> Ring_Buffer_C \<times> bool \<times> bool \<times> bool" where
  "driver u = (usb_receive_buffer u, usb_send_buffer u, clear_buffer u, reading u, sending u)"

lemma driver_updates [usb_frame]:
  "driver (u\<lparr>LineEncoding1 := x1\<rparr>) = driver u" "driver (u\<lparr>USB_DeviceState := x2\<rparr>) = driver u"
  "driver (u\<lparr>USB_ControlRequest := x3\<rparr>) = driver u" "driver (u\<lparr>USB_Device_ConfigurationNumber := x4\<rparr>) = driver u"
  "driver (u\<lparr>USB_Device_RemoteWakeupEnabled := x5\<rparr>) = driver u" "driver (u\<lparr>USB_Device_CurrentlySelfPowered := x6\<rparr>) = driver u"
  "driver (u\<lparr>USB_IsInitialized := x7\<rparr>) = driver u" "driver (u\<lparr>UENUM := x8\<rparr>) = driver u" "driver (u\<lparr>eps := x9\<rparr>) = driver u"
  "driver (u\<lparr>UERST := x10\<rparr>) = driver u" "driver (u\<lparr>UDADDR := x11\<rparr>) = driver u" "driver (u\<lparr>UDFNUM := x12\<rparr>) = driver u"
  "driver (u\<lparr>UDCON := x13\<rparr>) = driver u" "driver (u\<lparr>UDIEN := x14\<rparr>) = driver u" "driver (u\<lparr>UDINT := x15\<rparr>) = driver u"
  "driver (u\<lparr>USBCON := x16\<rparr>) = driver u" "driver (u\<lparr>USBINT := x17\<rparr>) = driver u" "driver (u\<lparr>USBSTA := x18\<rparr>) = driver u"
  "driver (u\<lparr>UHWCON := x19\<rparr>) = driver u" "driver (u\<lparr>PLLCSR := x20\<rparr>) = driver u" "driver (u\<lparr>PLLFRQ := x21\<rparr>) = driver u"
  "driver (u\<lparr>MCUSR := x22\<rparr>) = driver u" "driver (u\<lparr>WDTCSR := x23\<rparr>) = driver u" "driver (u\<lparr>CLKPR := x24\<rparr>) = driver u"
  by (simp_all add: driver_def)

section \<open>Endpoints\<close>

lemma driver_endpoint [usb_frame]:
  "driver (set_cur e u) = driver u" "driver (set_ep n e u) = driver u"
  "driver (Endpoint_SelectEndpoint n u) = driver u" "driver (Endpoint_ClearSETUP u) = driver u"
  "driver (Endpoint_ClearIN u) = driver u" "driver (Endpoint_ClearOUT u) = driver u"
  "driver (Endpoint_StallTransaction u) = driver u" "driver (Endpoint_ClearStall u) = driver u"
  "driver (Endpoint_ResetDataToggle u) = driver u" "driver (Endpoint_ResetEndpoint n u) = driver u"
  "driver (Endpoint_EnableEndpoint u) = driver u" "driver (Endpoint_DisableEndpoint u) = driver u"
  "driver (Endpoint_Write_8 b u) = driver u" "driver (Endpoint_Write_16_LE w u) = driver u"
  "driver (snd (Endpoint_Read_8 u)) = driver u" "driver (write_UECFG1X b u) = driver u"
  by (simp_all add: set_cur_def set_ep_def Endpoint_SelectEndpoint_def Endpoint_ClearSETUP_def Endpoint_ClearIN_def
      Endpoint_ClearOUT_def Endpoint_StallTransaction_def Endpoint_ClearStall_def Endpoint_ResetDataToggle_def command_UECONX_def
      Endpoint_ResetEndpoint_def Endpoint_EnableEndpoint_def Endpoint_DisableEndpoint_def Endpoint_Write_8_def
      Endpoint_Write_16_LE_def Endpoint_Read_8_def write_UECFG1X_def Let_def driver_updates split: list.split)

lemma driver_allocate [usb_frame]: "driver (allocate_endpoint a b c u) = driver u"
  by (simp add: allocate_endpoint_def Let_def usb_frame)

lemma driver_configure_from [usb_frame]: "driver (snd (configure_from ns Number c0 c1 u)) = driver u"
  by (induction ns arbitrary: u) (simp_all add: usb_frame Let_def split: prod.split)

lemma driver_ConfigureEndpoint [usb_frame_dest]:
  "Endpoint_ConfigureEndpoint Address Type Size Banks u = Some r \<Longrightarrow> driver (snd r) = driver u"
  by (auto simp: Endpoint_ConfigureEndpoint_def Endpoint_ConfigureEndpoint_Prv_def Let_def bind_eq_Some_iff usb_frame
      split: if_splits)

section \<open>Interrupts\<close>

lemma driver_INT [usb_frame]:
  "driver (USB_INT_Enable i u) = driver u" "driver (USB_INT_Disable i u) = driver u" "driver (USB_INT_Clear i u) = driver u"
  by (cases i; simp add: usb_frame)+

lemma driver_controller [usb_frame]:
  "driver (USB_INT_DisableAllInterrupts u) = driver u" "driver (USB_INT_ClearAllInterrupts u) = driver u"
  "driver (USB_Attach u) = driver u" "driver (USB_PLL_On u) = driver u" "driver (USB_PLL_Off u) = driver u"
  "driver (USB_REG_On u) = driver u" "driver (USB_OTGPAD_On u) = driver u" "driver (USB_OTGPAD_Off u) = driver u"
  "driver (USB_CLK_Freeze u) = driver u" "driver (USB_CLK_Unfreeze u) = driver u" "driver (USB_Controller_Reset u) = driver u"
  "driver (USB_Device_SetFullSpeed u) = driver u" "driver (USB_Device_SetDeviceAddress a u) = driver u"
  "driver (USB_Device_EnableDeviceAddress a u) = driver u" "driver (USB_GEN_SOFI u) = driver u" "driver (USB_GEN_SUSPI u) = driver u"
  by (simp_all add: USB_INT_DisableAllInterrupts_def USB_INT_ClearAllInterrupts_def USB_Attach_def USB_PLL_On_def USB_PLL_Off_def
      USB_REG_On_def USB_OTGPAD_On_def USB_OTGPAD_Off_def USB_CLK_Freeze_def USB_CLK_Unfreeze_def USB_Controller_Reset_def
      USB_Device_SetFullSpeed_def USB_Device_SetDeviceAddress_def USB_Device_EnableDeviceAddress_def USB_GEN_SOFI_def
      USB_GEN_SUSPI_def Let_def usb_frame del: USB_INT_Enable.simps USB_INT_Disable.simps USB_INT_Clear.simps)

lemmas INT_simps = USB_INT_Enable.simps USB_INT_Disable.simps USB_INT_Clear.simps

lemma driver_PLL_wait [usb_frame_dest]: "USB_PLL_wait u = Some v \<Longrightarrow> driver v = driver u"
  by (auto simp: USB_PLL_wait_def usb_frame split: if_splits)

lemma driver_GEN [usb_frame_dest]:
  "USB_GEN_VBUSTI u = Some v \<Longrightarrow> driver v = driver u" "USB_GEN_WAKEUPI u = Some v \<Longrightarrow> driver v = driver u"
  "USB_GEN_EORSTI u = Some v \<Longrightarrow> driver v = driver u"
  by (auto simp: USB_GEN_VBUSTI_def USB_GEN_WAKEUPI_def USB_GEN_EORSTI_def Let_def bind_eq_Some_iff usb_frame
      split: if_splits dest!: usb_frame_dest simp del: INT_simps)

lemma driver_GEN_vect [usb_frame_dest]: "USB_GEN_vect u = Some v \<Longrightarrow> driver v = driver u"
  by (auto simp: USB_GEN_vect_def bind_eq_Some_iff usb_frame dest!: driver_GEN)

lemma driver_Init [usb_frame_dest]: "USB_Init u = Some v \<Longrightarrow> driver v = driver u"
  by (auto simp: USB_Init_def USB_ResetInterface_def USB_Init_Device_def Let_def bind_eq_Some_iff usb_frame
      dest!: driver_ConfigureEndpoint simp del: INT_simps)

section \<open>Waiting and streams\<close>

lemma driver_bus_step [usb_frame_dest]: "bus_step ev u = Some v \<Longrightarrow> driver v = driver u"
  by (cases ev) (auto simp: usb_frame split: if_splits dest!: driver_GEN_vect)

lemma driver_wait_until [usb_frame_dest]: "wait_until P evs u = Some (v, evs') \<Longrightarrow> driver v = driver u"
  by (induction evs arbitrary: u) (fastforce simp: bind_eq_Some_iff split: if_splits dest: driver_bus_step)+

lemma driver_ClearStatusStage [usb_frame_dest]: "Endpoint_ClearStatusStage evs u = Some (v, evs') \<Longrightarrow> driver v = driver u"
  by (auto simp: Endpoint_ClearStatusStage_def bind_eq_Some_iff usb_frame split: if_splits dest!: driver_wait_until)

lemma driver_fill_bank: "fill_bank d n u = (d', n', v) \<Longrightarrow> driver v = driver u"
  by (induction d n u rule: fill_bank.induct) (auto simp: usb_frame split: if_splits)

lemma driver_control_write: "control_write d full evs u = Some (e, v, evs') \<Longrightarrow> driver v = driver u"
proof (induction evs arbitrary: d full u)
  case (Cons ev evs)
  show ?case
  proof (cases "d = [] \<and> \<not> full")
    case False
    then obtain w where w: "bus_step ev u = Some w" using Cons.prems by (auto simp: bind_eq_Some_iff)
    obtain d' n x where x: "fill_bank d (Endpoint_BytesInEndpoint w) w = (d', n, x)" using prod_cases3 by blast
    have "driver v = driver w \<or> driver v = driver (Endpoint_ClearIN x)"
      using Cons.prems Cons.IH False by (auto simp: w x Let_def split: option.splits if_splits)
    then show ?thesis using driver_bus_step [OF w] driver_fill_bank [OF x] by (simp add: usb_frame)
  qed (use Cons.prems in auto)
qed (auto split: if_splits)

lemma driver_control_status: "control_status evs u = Some (e, v, evs') \<Longrightarrow> driver v = driver u"
  by (induction evs arbitrary: u)
    (fastforce simp: bind_eq_Some_iff split: if_splits option.splits dest: driver_bus_step)+

lemma driver_Write_Control [usb_frame_dest]:
  assumes "Endpoint_Write_Control_Stream_LE d evs u = Some (e, v, evs')"
  shows "driver v = driver u"
proof -
  obtain d' u' e' w evs1 where w: "control_write d' False evs u' = Some (e', w, evs1)" "u' = u \<or> u' = Endpoint_ClearIN u"
    "v = w \<or> control_status evs1 w = Some (e, v, evs')"
    using assms unfolding Endpoint_Write_Control_Stream_LE_def Let_def
    by (simp split: if_split_asm add: bind_eq_Some_iff) (force split: option.splits)+
  then show ?thesis using driver_control_write [OF w(1)] driver_control_status by (auto simp: usb_frame)
qed

lemma driver_drain_bank: "drain_bank n u = (bs, k, v) \<Longrightarrow> driver v = driver u"
proof (induction n u arbitrary: bs rule: drain_bank.induct)
  case (2 n u)
  have "driver (snd (Endpoint_Read_8 u)) = driver u" by (rule driver_endpoint)
  then show ?case using 2 by (auto simp: Let_def split: if_splits prod.splits)
qed simp

lemma driver_control_read: "control_read n evs u = Some (d, e, v, evs') \<Longrightarrow> driver v = driver u"
proof (induction evs arbitrary: n d u)
  case (Cons ev evs)
  show ?case
  proof (cases "n = 0")
    case False
    then obtain w where w: "bus_step ev u = Some w" using Cons.prems by (auto simp: bind_eq_Some_iff)
    obtain bs k x where x: "drain_bank n w = (bs, k, x)" using prod_cases3 by blast
    have "driver v = driver w \<or> driver v = driver (Endpoint_ClearOUT x)"
      using Cons.prems Cons.IH False by (auto simp: w x Let_def bind_eq_Some_iff split: option.splits if_splits)
    then show ?thesis using driver_bus_step [OF w] driver_drain_bank [OF x] by (simp add: usb_frame)
  qed (use Cons.prems in auto)
qed (auto split: if_splits)

lemma driver_Read_Control [usb_frame_dest]:
  assumes "Endpoint_Read_Control_Stream_LE n evs u = Some (d, e, v, evs')"
  shows "driver v = driver u"
proof -
  obtain u' d' e' w evs1 where w: "control_read n evs u' = Some (d', e', w, evs1)" "u' = u \<or> u' = Endpoint_ClearOUT u"
    and v: "v = w \<or> (\<exists>P. wait_until P evs1 w = Some (v, evs'))"
    using assms unfolding Endpoint_Read_Control_Stream_LE_def Let_def
    by (simp split: if_split_asm add: bind_eq_Some_iff) (force split: option.splits simp: bind_eq_Some_iff)+
  then show ?thesis using driver_control_read [OF w(1)] driver_wait_until by (auto simp: usb_frame)
qed

section \<open>Requests\<close>

lemma driver_events [usb_frame_dest]:
  "EVENT_USB_Device_ConfigurationChanged u = Some v \<Longrightarrow> driver v = driver u"
  "EVENT_USB_Device_ControlRequest evs u = Some (v, evs') \<Longrightarrow> driver v = driver u"
  by (auto simp: EVENT_USB_Device_ConfigurationChanged_def EVENT_USB_Device_ControlRequest_def Let_def bind_eq_Some_iff usb_frame
      split: if_splits dest!: usb_frame_dest)

lemma driver_requests [usb_frame_dest]:
  "USB_Device_SetAddress evs u = Some (v, evs') \<Longrightarrow> driver v = driver u"
  "USB_Device_SetConfiguration evs u = Some (v, evs') \<Longrightarrow> driver v = driver u"
  "USB_Device_GetConfiguration evs u = Some (v, evs') \<Longrightarrow> driver v = driver u"
  "USB_Device_GetDescriptor evs u = Some (v, evs') \<Longrightarrow> driver v = driver u"
  by (auto simp: USB_Device_SetAddress_def USB_Device_SetConfiguration_def USB_Device_GetConfiguration_def
      USB_Device_GetDescriptor_def USB_Device_GetInternalSerialDescriptor_def Endpoint_Write_Control_PStream_LE_def
      Let_def bind_eq_Some_iff usb_frame split: if_splits prod.splits dest!: usb_frame_dest)

lemma driver_features [usb_frame_dest]:
  "current_status u = Some (s, v) \<Longrightarrow> driver v = driver u" "change_feature u = Some v \<Longrightarrow> driver v = driver u"
  by (auto simp: current_status_def change_feature_def Let_def usb_frame split: if_splits)

lemma driver_status [usb_frame_dest]:
  "USB_Device_GetStatus evs u = Some (v, evs') \<Longrightarrow> driver v = driver u"
  "USB_Device_ClearSetFeature evs u = Some (v, evs') \<Longrightarrow> driver v = driver u"
  by (auto simp: USB_Device_GetStatus_def USB_Device_ClearSetFeature_def Let_def usb_frame
      split: option.splits dest!: driver_features driver_ClearStatusStage)

lemma driver_standard [usb_frame_dest]: "standard_request evs u = Some (v, evs') \<Longrightarrow> driver v = driver u"
  by (auto simp: standard_request_def Let_def split: if_splits dest!: driver_requests driver_status)

lemma driver_read_byte: "driver (snd (read_byte s)) = driver (snd s)"
  using driver_endpoint(15) [of "snd s"] by (auto simp: read_byte_def split: prod.split)

lemma driver_read_bytes: "(read_byte ^^ n) s = (d, v) \<Longrightarrow> driver v = driver (snd s)"
proof (induction n arbitrary: d v)
  case (Suc n)
  obtain d' w where w: "(read_byte ^^ n) s = (d', w)" by fastforce
  have "v = snd (read_byte (d', w))" using Suc.prems w by simp
  then show ?case using Suc.IH [OF w] driver_read_byte by simp
qed simp

lemma driver_Process [usb_frame_dest]: "USB_Device_ProcessControlRequest evs u = Some (v, evs') \<Longrightarrow> driver v = driver u"
  by (auto simp: USB_Device_ProcessControlRequest_def Let_def bind_eq_Some_iff usb_frame
      split: prod.splits if_splits dest!: driver_read_bytes driver_events(2) driver_standard)

lemma driver_tasks [usb_frame_dest]:
  "USB_USBTask evs u = Some v \<Longrightarrow> driver v = driver u" "USB_COM_vect evs u = Some v \<Longrightarrow> driver v = driver u"
  by (auto simp: USB_USBTask_def USB_COM_vect_def Let_def bind_eq_Some_iff usb_frame
      split: if_splits dest!: driver_Process simp del: INT_simps)

end
