(* ===== verification/Usb_Config.thy ===== *)
theory Usb_Config
  imports Usb_Frame
begin

text \<open>
  Configuration of endpoints: the size mask is the smallest bank that holds the packets, and each endpoint of
  the serial link is set up as its descriptor announces it.
\<close>

section \<open>The size mask\<close>

lemma push_bit_1: "push_bit 1 w = 2 * (w :: 'a :: len word)"
  by (simp add: push_bit_eq_mult)

lemma check_bytes:
  assumes "k \<le> 12"
  shows "(2 :: uint16) ^ (k + 3) < Bytes \<longleftrightarrow> 2 ^ (k + 3) < unat Bytes"
proof -
  have "(2 :: nat) ^ (k + 3) \<le> 2 ^ 15" using assms by (intro power_increasing) auto
  then have "unat (of_nat (2 ^ (k + 3)) :: uint16) = 2 ^ (k + 3)" by (simp only: unat_of_nat take_bit_eq_mod) simp
  then show ?thesis by (simp add: word_less_nat_alt)
qed

lemma size_mask_step:
  assumes "k \<le> 12" "2 ^ (k + 3) < unat Bytes"
  shows "size_mask Bytes (of_nat k) (2 ^ (k + 3)) = size_mask Bytes (of_nat (Suc k)) (2 ^ (Suc k + 3))"
proof -
  have "push_bit 1 ((2 :: uint16) ^ (k + 3)) = 2 ^ (Suc k + 3)" by (simp only: push_bit_1 add_Suc power_Suc)
  then show ?thesis using assms check_bytes [OF assms(1), of Bytes]
    by (subst size_mask.simps) (simp add: add.commute)
qed

lemma size_mask_end:
  assumes "k \<le> 12" "unat Bytes \<le> 2 ^ (k + 3)"
  shows "size_mask Bytes (of_nat k) (2 ^ (k + 3)) = Some (push_bit 4 (of_nat k))"
  using assms check_bytes [OF assms(1), of Bytes] by (subst size_mask.simps) simp

lemma size_mask_upto:
  assumes "k \<le> 12" "\<And>j. j < k \<Longrightarrow> 2 ^ (j + 3) < unat Bytes"
  shows "Endpoint_BytesToEPSizeMask Bytes = size_mask Bytes (of_nat k) (2 ^ (k + 3))"
  using assms
proof (induction k)
  case 0
  then show ?case by (simp add: Endpoint_BytesToEPSizeMask_def)
next
  case (Suc k)
  then show ?case using size_mask_step [of k Bytes] by simp
qed

text \<open>With a counter that has wrapped to zero the loop never ends.\<close>

lemma size_mask_zero:
  assumes "size_mask Bytes m c = Some r" "c = 0"
  shows "Bytes = 0"
proof -
  have "c = 0 \<longrightarrow> Bytes = 0"
    by (rule size_mask.raw_induct [OF _ assms(1)]) (auto split: if_splits simp: word_neq_0_conv [symmetric])
  then show ?thesis using assms(2) by simp
qed

section \<open>Endpoints\<close>

lemma size_masks: "Endpoint_BytesToEPSizeMask 8 = Some 0" "Endpoint_BytesToEPSizeMask 16 = Some 0x10"
  by (simp_all add: Endpoint_BytesToEPSizeMask_def size_mask.simps [of _ 0] size_mask.simps [of _ 1])

lemma ConfigureEndpoint_returns:
  assumes "Size \<in> {CONTROL_ENDPOINT_SIZE, CDC_TXRX_EPSIZE, CDC_NOTIFICATION_EPSIZE}"
  shows "\<exists>r. Endpoint_ConfigureEndpoint Address Type Size Banks u = Some r"
  using assms by (auto simp: Endpoint_ConfigureEndpoint_def Let_def CONTROL_ENDPOINT_SIZE_def CDC_TXRX_EPSIZE_def
      CDC_NOTIFICATION_EPSIZE_def size_masks)

lemma USB_Init_returns: "\<exists>v. USB_Init u = Some v"
proof -
  have "\<exists>v. USB_Init_Device w = Some v" for w
    using ConfigureEndpoint_returns [of CONTROL_ENDPOINT_SIZE]
    by (force simp: USB_Init_Device_def Let_def bind_eq_Some_iff simp del: INT_simps)
  then show ?thesis by (simp add: USB_Init_def USB_ResetInterface_def Let_def bind_eq_Some_iff del: INT_simps)
qed

section \<open>The effect of configuring an endpoint\<close>

text \<open>Endpoint \<open>N\<close> gets the configuration \<open>c0\<close>, \<open>c1\<close>; the data and flags of all endpoints stay.\<close>

definition configured :: "uint8 \<Rightarrow> uint8 \<Rightarrow> uint8 \<Rightarrow> usb \<Rightarrow> usb \<Rightarrow> bool" where
  "configured N c0 c1 u v \<longleftrightarrow> v\<lparr>UENUM := UENUM u, eps := eps u\<rparr> = u \<and> UESTA0X (eps v N) AND CFGOK \<noteq> 0 \<and> UECONX (eps v N) AND EPEN \<noteq> 0 \<and>
     (\<forall>m. UECFG0X (eps v m) = (if m = N then c0 else UECFG0X (eps u m)) \<and>
          UECFG1X (eps v m) = (if m = N then c1 else UECFG1X (eps u m)) \<and> UEINTX (eps v m) = UEINTX (eps u m) \<and>
          bank (eps v m) = bank (eps u m) \<and> to_host (eps v m) = to_host (eps u m)) \<and>
     (N \<noteq> 0 \<longrightarrow> eps v 0 = eps u 0)"

text \<open>Every endpoint that has memory has a size the hardware accepts.\<close>

definition sizes_ok :: "usb \<Rightarrow> bool" where
  "sizes_ok u \<longleftrightarrow> (\<forall>n. UECFG1X (eps u n) AND ALLOC = 0 \<or> size_accepted n (UECFG1X (eps u n)))"

lemma or_mask_nonzero: "m \<noteq> 0 \<Longrightarrow> (w OR m) AND m \<noteq> (0 :: 'a :: len word)"
  by simp

lemma cur_set_cur: "cur (set_cur e u) = e" "set_cur e (set_cur e' u) = set_cur e u" "UENUM (set_cur e u) = UENUM u"
  "eps (set_cur e u) = (eps u)(UENUM u := e)"
  by (simp_all add: cur_def set_cur_def)

lemma allocate_endpoint_ok:
  assumes "b AND ALLOC \<noteq> 0" "size_accepted (UENUM u) b"
  shows "\<exists>x y. allocate_endpoint a b c u =
      set_cur ((cur u)\<lparr>UEIENX := c, UECONX := x, UECFG0X := a, UECFG1X := b, UESTA0X := y\<rparr>) u \<and> x AND EPEN \<noteq> 0 \<and> y AND CFGOK \<noteq> 0"
proof -
  let ?x = "UECONX (cur u) AND NOT EPEN OR EPEN" and ?y = "UESTA0X (cur u) AND NOT CFGOK OR CFGOK"
  have n: "(w AND NOT ALLOC) AND ALLOC = 0" for w :: uint8 by (simp add: and.assoc)
  have "allocate_endpoint a b c u = set_cur ((cur u)\<lparr>UEIENX := c, UECONX := ?x, UECFG0X := a, UECFG1X := b, UESTA0X := ?y\<rparr>) u"
    using assms by (cases "cur u") (simp add: allocate_endpoint_def Let_def Endpoint_DisableEndpoint_def Endpoint_EnableEndpoint_def
        write_UECFG1X_def cur_set_cur n)
  moreover have "?x AND EPEN \<noteq> 0" "?y AND CFGOK \<noteq> 0" by (rule or_mask_nonzero, simp add: EPEN_def CFGOK_def)+
  ultimately show ?thesis by blast
qed

lemma configured_rest: "configured N c0 c1 u v \<Longrightarrow> v\<lparr>UENUM := UENUM u, eps := eps u\<rparr> = u"
  unfolding configured_def by blast

lemma configured_new:
  assumes "x AND EPEN \<noteq> 0" "y AND CFGOK \<noteq> 0"
    "v = u\<lparr>UENUM := k, eps := (eps u)(N := (eps u N)\<lparr>UEIENX := c, UECONX := x, UECFG0X := c0, UECFG1X := c1, UESTA0X := y\<rparr>)\<rparr>"
  shows "configured N c0 c1 u v"
  unfolding configured_def using assms by auto

lemma configured_keep:
  assumes "configured N c0 c1 w u" "n \<noteq> N" "n \<noteq> 0"
    "v = u\<lparr>UENUM := k, eps := (eps u)(n := (eps u n)\<lparr>UEIENX := c, UECONX := x, UECFG0X := UECFG0X (eps u n),
       UECFG1X := UECFG1X (eps u n), UESTA0X := y\<rparr>)\<rparr>"
  shows "configured N c0 c1 w v"
  using assms(1-3) unfolding configured_def assms(4) by simp

lemma sizes_ok_update:
  assumes "sizes_ok u" "eps v = (eps u)(n := e)" "UECFG1X e AND ALLOC = 0 \<or> size_accepted n (UECFG1X e)"
  shows "sizes_ok v"
  using assms by (auto simp: sizes_ok_def)

lemma sizes_ok_cong: "sizes_ok u \<Longrightarrow> (\<And>n. UECFG1X (eps v n) = UECFG1X (eps u n)) \<Longrightarrow> sizes_ok v"
  by (simp add: sizes_ok_def)

lemma configure_rest:
  assumes "\<forall>n \<in> set ns. n AND ENDPOINT_EPNUM_MASK = n \<and> n \<noteq> N \<and> n \<noteq> 0" "sizes_ok u" "configured N c0 c1 w u"
    "N AND ENDPOINT_EPNUM_MASK = N"
  shows "\<exists>v. configure_from ns N c0 c1 u = (True, v) \<and> configured N c0 c1 w v \<and> sizes_ok v \<and> UENUM v = N"
  using assms(1-3)
proof (induction ns arbitrary: u)
  case Nil
  have "configured N c0 c1 w (u\<lparr>UENUM := N\<rparr>)" using Nil(3) by (simp add: configured_def)
  then show ?case using Nil(2) assms(4) by (simp add: Endpoint_SelectEndpoint_def sizes_ok_def)
next
  case (Cons n ns)
  let ?u = "u\<lparr>UENUM := n\<rparr>"
  have s: "Endpoint_SelectEndpoint n u = ?u" "n \<noteq> N" "n \<noteq> 0" "cur ?u = eps u n" using Cons.prems(1) by (simp_all add: Endpoint_SelectEndpoint_def cur_def)
  have u: "configured N c0 c1 w ?u" "sizes_ok ?u" using Cons.prems(2,3) by (simp_all add: configured_def sizes_ok_def)
  show ?case
  proof (cases "UECFG1X (eps u n) AND ALLOC = 0")
    case True
    then show ?thesis using Cons.IH [of ?u] Cons.prems(1) u s by (simp add: Let_def)
  next
    case False
    then have a: "size_accepted (UENUM ?u) (UECFG1X (eps u n))" using Cons.prems(2) by (auto simp: sizes_ok_def)
    obtain x y where v: "allocate_endpoint (UECFG0X (eps u n)) (UECFG1X (eps u n)) (UEIENX (eps u n)) ?u =
        set_cur ((cur ?u)\<lparr>UEIENX := UEIENX (eps u n), UECONX := x, UECFG0X := UECFG0X (eps u n), UECFG1X := UECFG1X (eps u n), UESTA0X := y\<rparr>) ?u"
      "y AND CFGOK \<noteq> 0" using allocate_endpoint_ok [OF False a] by blast
    let ?v = "set_cur ((cur ?u)\<lparr>UEIENX := UEIENX (eps u n), UECONX := x, UECFG0X := UECFG0X (eps u n), UECFG1X := UECFG1X (eps u n), UESTA0X := y\<rparr>) ?u"
    have "configured N c0 c1 w ?v" by (rule configured_keep [where k = n and c = "UEIENX (eps u n)" and x = x and y = y, OF u(1) s(2,3)]) (simp add: set_cur_def s(4))
    moreover have "sizes_ok ?v" using a by (intro sizes_ok_update [OF u(2) cur_set_cur(4)]) simp
    moreover have "Endpoint_IsConfigured ?v" using v(2) by (simp add: Endpoint_IsConfigured_def cur_set_cur)
    ultimately show ?thesis using Cons.IH [of ?v] Cons.prems(1) s False v(1) by (simp add: Let_def)
  qed
qed

lemma ConfigureEndpoint_Prv_ok:
  assumes "N \<in> {0, 1, 2, 3}" "sizes_ok u" "c1 AND ALLOC \<noteq> 0" "size_accepted N c1"
  shows "\<exists>v. Endpoint_ConfigureEndpoint_Prv N c0 c1 u = (True, v) \<and> configured N c0 c1 u v \<and> sizes_ok v \<and> UENUM v = N"
proof -
  let ?ns = "map of_nat [Suc (unat N)..<7] :: uint8 list" and ?u = "u\<lparr>UENUM := N\<rparr>"
  have N: "N AND ENDPOINT_EPNUM_MASK = N" using assms(1) by (auto simp: ENDPOINT_EPNUM_MASK_def)
  have ns: "map of_nat [unat N..<unat ENDPOINT_TOTAL_ENDPOINTS] = N # ?ns"
    using assms(1) by (auto simp: ENDPOINT_TOTAL_ENDPOINTS_def upt_rec [of "unat N"])
  have rest: "\<forall>n \<in> set ?ns. n AND ENDPOINT_EPNUM_MASK = n \<and> n \<noteq> N \<and> n \<noteq> 0"
    using assms(1) by (auto simp: ENDPOINT_EPNUM_MASK_def upt_rec)
  have s: "Endpoint_SelectEndpoint N u = ?u" using N by (simp add: Endpoint_SelectEndpoint_def)
  have a: "size_accepted (UENUM ?u) c1" using assms(4) by simp
  obtain x y where v: "allocate_endpoint c0 c1 0 ?u =
      set_cur ((cur ?u)\<lparr>UEIENX := 0, UECONX := x, UECFG0X := c0, UECFG1X := c1, UESTA0X := y\<rparr>) ?u" "x AND EPEN \<noteq> 0" "y AND CFGOK \<noteq> 0"
    using allocate_endpoint_ok [OF assms(3) a] by blast
  let ?v = "set_cur ((cur ?u)\<lparr>UEIENX := 0, UECONX := x, UECFG0X := c0, UECFG1X := c1, UESTA0X := y\<rparr>) ?u"
  have "configured N c0 c1 u ?v" by (rule configured_new [where k = N and c = 0, OF v(2,3)]) (simp add: set_cur_def cur_def)
  moreover have "sizes_ok ?v" using assms(2,4) by (intro sizes_ok_update [OF _ cur_set_cur(4)]) (simp_all add: sizes_ok_def)
  ultimately obtain r where "configure_from ?ns N c0 c1 ?v = (True, r) \<and> configured N c0 c1 u r \<and> sizes_ok r \<and> UENUM r = N"
    using configure_rest [OF rest, of ?v c0 c1 u] N by blast
  moreover have "Endpoint_IsConfigured ?v" using v(3) by (simp add: Endpoint_IsConfigured_def cur_set_cur)
  ultimately show ?thesis using v(1) assms(3) by (simp add: Endpoint_ConfigureEndpoint_Prv_def ns s Let_def)
qed

text \<open>The four calls of the firmware: type and direction in \<open>UECFG0X\<close>, size and memory in \<open>UECFG1X\<close>.\<close>

lemma ConfigureEndpoint_ok:
  assumes "sizes_ok u"
  shows "\<exists>v. Endpoint_ConfigureEndpoint CDC_TX_EPADDR EP_TYPE_BULK CDC_TXRX_EPSIZE 1 u = Some (True, v) \<and>
      configured 1 0x81 0x12 u v \<and> sizes_ok v \<and> UENUM v = 1"
    "\<exists>v. Endpoint_ConfigureEndpoint CDC_RX_EPADDR EP_TYPE_BULK CDC_TXRX_EPSIZE 1 u = Some (True, v) \<and>
      configured 2 0x80 0x12 u v \<and> sizes_ok v \<and> UENUM v = 2"
    "\<exists>v. Endpoint_ConfigureEndpoint CDC_NOTIFICATION_EPADDR EP_TYPE_INTERRUPT CDC_NOTIFICATION_EPSIZE 1 u = Some (True, v) \<and>
      configured 3 0xC1 0x02 u v \<and> sizes_ok v \<and> UENUM v = 3"
    "\<exists>v. Endpoint_ConfigureEndpoint ENDPOINT_CONTROLEP EP_TYPE_CONTROL CONTROL_ENDPOINT_SIZE 1 u = Some (True, v) \<and>
      configured 0 0x00 0x02 u v \<and> sizes_ok v \<and> UENUM v = 0"
proof -
  have a: "size_accepted 1 0x12" "size_accepted 2 0x12" "size_accepted 3 0x02" "size_accepted 0 0x02"
    "(0x12 :: uint8) AND ALLOC \<noteq> 0" "(0x02 :: uint8) AND ALLOC \<noteq> 0"
    "\<not> (7 :: uint8) \<le> 1" "\<not> (7 :: uint8) \<le> 0"
    by (simp_all add: size_accepted_def ALLOC_def word_le_nat_alt)
  note defs = Endpoint_ConfigureEndpoint_def Let_def ENDPOINT_EPNUM_MASK_def ENDPOINT_DIR_IN_def ENDPOINT_TOTAL_ENDPOINTS_def
    CDC_TX_EPADDR_def CDC_RX_EPADDR_def CDC_NOTIFICATION_EPADDR_def EP_TYPE_BULK_def EP_TYPE_INTERRUPT_def EP_TYPE_CONTROL_def
    CDC_TXRX_EPSIZE_def CDC_NOTIFICATION_EPSIZE_def CONTROL_ENDPOINT_SIZE_def ENDPOINT_CONTROLEP_def size_masks EPDIR_def ALLOC_def
  show "\<exists>v. Endpoint_ConfigureEndpoint CDC_TX_EPADDR EP_TYPE_BULK CDC_TXRX_EPSIZE 1 u = Some (True, v) \<and>
      configured 1 0x81 0x12 u v \<and> sizes_ok v \<and> UENUM v = 1"
    using ConfigureEndpoint_Prv_ok [of 1 u "0x12" "0x81"] assms a by (simp add: defs)
  show "\<exists>v. Endpoint_ConfigureEndpoint CDC_RX_EPADDR EP_TYPE_BULK CDC_TXRX_EPSIZE 1 u = Some (True, v) \<and>
      configured 2 0x80 0x12 u v \<and> sizes_ok v \<and> UENUM v = 2"
    using ConfigureEndpoint_Prv_ok [of 2 u "0x12" "0x80"] assms a by (simp add: defs)
  show "\<exists>v. Endpoint_ConfigureEndpoint CDC_NOTIFICATION_EPADDR EP_TYPE_INTERRUPT CDC_NOTIFICATION_EPSIZE 1 u = Some (True, v) \<and>
      configured 3 0xC1 0x02 u v \<and> sizes_ok v \<and> UENUM v = 3"
    using ConfigureEndpoint_Prv_ok [of 3 u "0x02" "0xC1"] assms a by (simp add: defs)
  show "\<exists>v. Endpoint_ConfigureEndpoint ENDPOINT_CONTROLEP EP_TYPE_CONTROL CONTROL_ENDPOINT_SIZE 1 u = Some (True, v) \<and>
      configured 0 0x00 0x02 u v \<and> sizes_ok v \<and> UENUM v = 0"
    using ConfigureEndpoint_Prv_ok [of 0 u "0x02" "0"] assms a by (simp add: defs)
qed

lemma same_rest:
  assumes "v\<lparr>UENUM := UENUM u, eps := eps u\<rparr> = u" "u\<lparr>UENUM := UENUM w, eps := eps w\<rparr> = w"
  shows "v\<lparr>UENUM := UENUM w, eps := eps w\<rparr> = (w :: usb)"
proof -
  have "(v\<lparr>UENUM := UENUM u, eps := eps u\<rparr>)\<lparr>UENUM := UENUM w, eps := eps w\<rparr> = w" using assms by simp
  then show ?thesis by simp
qed

text \<open>The endpoints of the serial link.\<close>

definition link_endpoints :: "usb \<Rightarrow> bool" where
  "link_endpoints u \<longleftrightarrow> UECFG0X (eps u 1) = 0x81 \<and> UECFG1X (eps u 1) = 0x12 \<and> UECFG0X (eps u 2) = 0x80 \<and> UECFG1X (eps u 2) = 0x12 \<and>
     UECFG0X (eps u 3) = 0xC1 \<and> UECFG1X (eps u 3) = 0x02"

lemma ConfigurationChanged_ok:
  assumes "sizes_ok u"
  shows "\<exists>v. EVENT_USB_Device_ConfigurationChanged u = Some v \<and> link_endpoints v \<and> sizes_ok v \<and> eps v 0 = eps u 0 \<and> UENUM v = 3 \<and>
    v\<lparr>UENUM := UENUM u, eps := eps u, LineEncoding1 := LineEncoding1 u\<rparr> = u \<and> BaudRateBPS (LineEncoding1 v) = 0 \<and>
    (\<forall>m. UEINTX (eps v m) = UEINTX (eps u m) \<and> bank (eps v m) = bank (eps u m) \<and> to_host (eps v m) = to_host (eps u m))"
proof -
  obtain a where a: "Endpoint_ConfigureEndpoint CDC_TX_EPADDR EP_TYPE_BULK CDC_TXRX_EPSIZE 1 u = Some (True, a)"
    "configured 1 0x81 0x12 u a" "sizes_ok a" using ConfigureEndpoint_ok(1) [OF assms] by blast
  obtain b where b: "Endpoint_ConfigureEndpoint CDC_RX_EPADDR EP_TYPE_BULK CDC_TXRX_EPSIZE 1 a = Some (True, b)"
    "configured 2 0x80 0x12 a b" "sizes_ok b" using ConfigureEndpoint_ok(2) [OF a(3)] by blast
  obtain c where c: "Endpoint_ConfigureEndpoint CDC_NOTIFICATION_EPADDR EP_TYPE_INTERRUPT CDC_NOTIFICATION_EPSIZE 1 b = Some (True, c)"
    "configured 3 0xC1 0x02 b c" "sizes_ok c" "UENUM c = 3" using ConfigureEndpoint_ok(3) [OF b(3)] by blast
  let ?v = "c\<lparr>LineEncoding1 := (LineEncoding1 c)\<lparr>BaudRateBPS := 0\<rparr>\<rparr>"
  have "EVENT_USB_Device_ConfigurationChanged u = Some ?v"
    by (simp add: EVENT_USB_Device_ConfigurationChanged_def a(1) b(1) c(1))
  moreover have "link_endpoints ?v" using a(2) b(2) c(2) by (simp add: link_endpoints_def configured_def)
  moreover have "sizes_ok ?v" using c(3) by (simp add: sizes_ok_def)
  moreover have "eps ?v 0 = eps u 0" using a(2) b(2) c(2) by (simp add: configured_def)
  moreover have "?v\<lparr>UENUM := UENUM u, eps := eps u, LineEncoding1 := LineEncoding1 u\<rparr> = u"
  proof -
    have "c\<lparr>UENUM := UENUM u, eps := eps u\<rparr> = u"
      by (rule same_rest [OF same_rest [OF configured_rest [OF c(2)] configured_rest [OF b(2)]] configured_rest [OF a(2)]])
    then have "c\<lparr>UENUM := UENUM u, eps := eps u, LineEncoding1 := LineEncoding1 u\<rparr> = u\<lparr>LineEncoding1 := LineEncoding1 u\<rparr>" by simp
    then show ?thesis by (cases c, cases u) simp
  qed
  moreover have "\<forall>m. UEINTX (eps ?v m) = UEINTX (eps u m) \<and> bank (eps ?v m) = bank (eps u m) \<and> to_host (eps ?v m) = to_host (eps u m)"
    using a(2) b(2) c(2) by (simp add: configured_def)
  ultimately show ?thesis using c(4) by (intro exI [of _ ?v]) simp
qed

end
