(* ===== verification/Serial_IO.thy ===== *)
theory Serial_IO
  imports Usb_Config
begin

text \<open>
  \<^verbatim>\<open>Driver/SerialIO.c\<close>: the USB serial link. Bytes move one per pass of the main loop between the
  endpoint banks of the USB controller (theory \<open>Usb_Core\<close>) and two ring buffers; messages to the host
  are framed by \<open>usb_send_msg\<close>.
\<close>

section \<open>Moving bytes\<close>

definition usb_read_next_byte :: "usb \<Rightarrow> usb" where
  "usb_read_next_byte u =
     (let u = Endpoint_SelectEndpoint CDC_RX_EPADDR u in
      if Endpoint_IsOUTReceived u then
        (if Endpoint_BytesInEndpoint u \<noteq> 0 then
           (let u = u\<lparr>reading := True\<rparr>;
                (data, u) = Endpoint_Read_8 u
            in if \<not> clear_buffer u then u\<lparr>usb_receive_buffer := rb_push_back_C (usb_receive_buffer u) data\<rparr> else u)
         else if reading u then (Endpoint_ClearOUT u)\<lparr>clear_buffer := False, reading := True\<rparr>
         else u)
      else u)"

definition usb_write_next_byte :: "usb \<Rightarrow> usb" where
  "usb_write_next_byte u =
     (if rb_length_C (usb_send_buffer u) \<noteq> 0 then
        (let u = u\<lparr>sending := True\<rparr>;
             u = Endpoint_SelectEndpoint CDC_TX_EPADDR u
         in if Endpoint_IsINReady u then
              (let (data, b) = rb_pop_front_C (usb_send_buffer u);
                   u = u\<lparr>usb_send_buffer := b\<rparr>;
                   u = Endpoint_Write_8 data u
               in Endpoint_ClearIN u)
            else u)
      else if sending u then
        (if Endpoint_IsINReady u then (Endpoint_ClearIN u)\<lparr>sending := False\<rparr> else u)
      else u)"

definition USB_Upkeep_Task :: "bus_event list \<Rightarrow> usb \<Rightarrow> usb option" where
  "USB_Upkeep_Task evs u =
     (if USB_DeviceState u \<noteq> DEVICE_STATE_Configured then Some u
      else do {
        u \<leftarrow> USB_USBTask evs u;
        let u = usb_read_next_byte u;
        Some (usb_write_next_byte u) })"

section \<open>Sending\<close>

definition usb_send_byte :: "byte \<Rightarrow> usb \<Rightarrow> usb" where
  "usb_send_byte b u = u\<lparr>usb_send_buffer := rb_push_back_C (usb_send_buffer u) b\<rparr>"

definition usb_send_data :: "byte list \<Rightarrow> uint8 \<Rightarrow> usb \<Rightarrow> usb" where
  "usb_send_data p_data data_len u =
     fold (\<lambda>i u. u\<lparr>usb_send_buffer := rb_push_back_C (usb_send_buffer u) (p_data ! i)\<rparr>) [0..<unat data_len] u"

text \<open>A C string is the bytes up to the first null byte.\<close>

definition strlen :: "byte list \<Rightarrow> nat" where
  "strlen s = length (takeWhile (\<lambda>b. b \<noteq> 0) s)"

definition usb_send_str :: "byte list \<Rightarrow> usb \<Rightarrow> usb" where
  "usb_send_str p_str u =
     (let u = fold (\<lambda>i u. u\<lparr>usb_send_buffer := rb_push_back_C (usb_send_buffer u) (p_str ! i)\<rparr>) [0..<strlen p_str] u
      in u\<lparr>usb_send_buffer := rb_push_back_C (usb_send_buffer u) 0\<rparr>)"

definition usb_send_msg :: "byte list \<Rightarrow> byte \<Rightarrow> byte list \<Rightarrow> uint8 \<Rightarrow> usb \<Rightarrow> usb" where
  "usb_send_msg format cmd p_data data_len u =
     (let len = 2 + of_nat (strlen format) + data_len;
          u = usb_send_byte len u;
          u = usb_send_str format u;
          u = usb_send_byte cmd u
      in usb_send_data p_data data_len u)"

section \<open>Receiving\<close>

definition usb_msg_length :: "usb \<Rightarrow> uint8" where
  "usb_msg_length u = rb_length_C (usb_receive_buffer u)"

definition usb_out_msg_length :: "usb \<Rightarrow> uint8" where
  "usb_out_msg_length u = rb_length_C (usb_send_buffer u)"

definition usb_msg_peek :: "usb \<Rightarrow> byte" where
  "usb_msg_peek u = (if rb_length_C (usb_receive_buffer u) \<noteq> 0 then rb_get_C (usb_receive_buffer u) 0 else 0)"

definition usb_msg_get :: "usb \<Rightarrow> byte \<times> usb" where
  "usb_msg_get u =
     (if rb_length_C (usb_receive_buffer u) \<noteq> 0
      then (let (b, q) = rb_pop_front_C (usb_receive_buffer u) in (b, u\<lparr>usb_receive_buffer := q\<rparr>))
      else (0, u))"

text \<open>The object is its bytes; the flag is the return value.\<close>

definition read_into_pass :: "nat \<Rightarrow> byte list \<times> usb \<Rightarrow> byte list \<times> usb" where
  "read_into_pass i s =
     (let (data, q) = rb_pop_front_C (usb_receive_buffer (snd s))
      in ((fst s)[i := data], (snd s)\<lparr>usb_receive_buffer := q\<rparr>))"

definition usb_msg_read_into :: "byte list \<Rightarrow> uint8 \<Rightarrow> usb \<Rightarrow> bool \<times> byte list \<times> usb" where
  "usb_msg_read_into p_obj data_len u =
     (if rb_length_C (usb_receive_buffer u) < data_len then (False, p_obj, u)
      else (True, fold read_into_pass [0..<unat data_len] (p_obj, u)))"

definition usb_flush_input_buffer :: "usb \<Rightarrow> usb" where
  "usb_flush_input_buffer u = u\<lparr>usb_receive_buffer := rb_initialize_C (usb_receive_buffer u), clear_buffer := True\<rparr>"

definition usb_init_buffers :: "usb \<Rightarrow> usb" where
  "usb_init_buffers u =
     u\<lparr>usb_receive_buffer := rb_initialize_C (usb_receive_buffer u),
       usb_send_buffer := rb_initialize_C (usb_send_buffer u)\<rparr>"

section \<open>Setup and echo\<close>

definition USB_SetupHardware :: "usb \<Rightarrow> usb option" where
  "USB_SetupHardware u = do {
     let u = u\<lparr>MCUSR := MCUSR u AND NOT 0x08\<rparr>;
     let u = u\<lparr>WDTCSR := 0\<rparr>;
     let u = u\<lparr>CLKPR := 0\<rparr>;
     u \<leftarrow> USB_Init u;
     let u = usb_init_buffers u;
     Some (u\<lparr>clear_buffer := False\<rparr>) }"

text \<open>The local array is uninitialised: the task has no defined result if the stream ends early.\<close>

definition USB_Echo_Task :: "bus_event list \<Rightarrow> usb \<Rightarrow> usb option" where
  "USB_Echo_Task evs u =
     (if USB_DeviceState u \<noteq> DEVICE_STATE_Configured then Some u
      else let u = Endpoint_SelectEndpoint CDC_RX_EPADDR u in
        if Endpoint_IsOUTReceived u then do {
          let DataLength = Endpoint_BytesInEndpoint u;
          (e, _, (Buffer, _), u, evs) \<leftarrow> Endpoint_Read_Stream_LE (replicate (unat DataLength) 0) DataLength None evs u;
          let u = Endpoint_ClearOUT u;
          let u = Endpoint_SelectEndpoint CDC_TX_EPADDR u;
          (_, _, _, u, evs) \<leftarrow>
            (if e = ENDPOINT_RWSTREAM_NoError then Endpoint_Write_Stream_LE Buffer DataLength None evs u else None);
          let u = Endpoint_ClearIN u;
          (_, u, _) \<leftarrow> Endpoint_WaitUntilReady evs u;
          Some (Endpoint_ClearIN u) }
        else Some u)"

section \<open>The two byte queues\<close>

definition usb_wf :: "usb \<Rightarrow> bool" where
  "usb_wf u \<longleftrightarrow> rb_wf 64 (usb_receive_buffer u) \<and> rb_wf 64 (usb_send_buffer u)"

definition in_bytes :: "usb \<Rightarrow> byte list" where
  "in_bytes u = rb_list 64 (usb_receive_buffer u)"

definition out_bytes :: "usb \<Rightarrow> byte list" where
  "out_bytes u = rb_list 64 (usb_send_buffer u)"

text \<open>The library leaves both queues alone.\<close>

lemma driver_queues:
  assumes "driver v = driver u"
  shows "usb_wf v = usb_wf u" "in_bytes v = in_bytes u" "out_bytes v = out_bytes u" "clear_buffer v = clear_buffer u"
    "reading v = reading u" "sending v = sending u"
  using assms by (simp_all add: driver_def usb_wf_def in_bytes_def out_bytes_def)

text \<open>The newest \<open>n\<close> elements of a queue: what a full ring buffer keeps.\<close>

definition newest :: "nat \<Rightarrow> 'a list \<Rightarrow> 'a list" where
  "newest n xs = drop (length xs - n) xs"

lemma newest_short [simp]: "length xs \<le> n \<Longrightarrow> newest n xs = xs"
  by (simp add: newest_def)

lemma newest_append: "newest n (newest n xs @ ys) = newest n (xs @ ys)"
proof (cases "length xs \<le> n")
  case False
  have "length (drop (length xs - n) xs @ ys) - n = length ys" using False by simp
  then have "newest n (newest n xs @ ys) = drop (length ys) (drop (length xs - n) xs @ ys)"
    by (simp only: newest_def)
  also have "\<dots> = drop (length ys + (length xs - n)) (xs @ ys)" using False by simp
  finally show ?thesis using False by (simp add: newest_def add.commute)
qed simp

lemma length_newest: "length (newest n xs) \<le> n"
  by (simp add: newest_def)

text \<open>A message of the protocol: the number of bytes that follow, the format string, the command, the data.\<close>

definition msg_frame :: "byte list \<Rightarrow> byte \<Rightarrow> byte list \<Rightarrow> byte list" where
  "msg_frame format cmd d = of_nat (2 + length format + length d) # format @ [0, cmd] @ d"

lemma length_msg_frame [simp, bytes]: "length (msg_frame f c d) = 3 + length f + length d"
  by (simp add: msg_frame_def)

definition push_all :: "byte list \<Rightarrow> usb \<Rightarrow> usb" where
  "push_all xs u = u\<lparr>usb_send_buffer := fold (\<lambda>v b. rb_push_back_C b v) xs (usb_send_buffer u)\<rparr>"

lemma push_all_append: "push_all ys (push_all xs u) = push_all (xs @ ys) u"
  by (simp add: push_all_def)

lemma fold_push_nth:
  "n \<le> length d \<Longrightarrow> fold (\<lambda>i u. u\<lparr>usb_send_buffer := rb_push_back_C (usb_send_buffer u) (d ! i)\<rparr>) [0..<n] u
     = push_all (take n d) u"
proof (induction n)
  case (Suc n)
  then show ?case by (simp add: take_Suc_conv_app_nth push_all_def)
qed (simp add: push_all_def)

lemma usb_send_byte_push: "usb_send_byte b u = push_all [b] u"
  by (simp add: usb_send_byte_def push_all_def)

lemma usb_send_data_push: "length d = unat n \<Longrightarrow> usb_send_data d n u = push_all d u"
  by (simp add: usb_send_data_def fold_push_nth)

lemma takeWhile_take: "take (length (takeWhile P xs)) xs = takeWhile P xs"
  by (metis append_eq_conv_conj takeWhile_dropWhile_id)

lemma usb_send_str_push: "usb_send_str s u = push_all (takeWhile (\<lambda>b. b \<noteq> 0) s @ [0]) u"
proof -
  have "usb_send_str s u = push_all [0] (push_all (takeWhile (\<lambda>b. b \<noteq> 0) s) u)"
    by (simp add: usb_send_str_def Let_def strlen_def fold_push_nth length_takeWhile_le takeWhile_take)
      (simp add: push_all_def)
  then show ?thesis by (simp only: push_all_append)
qed

lemma strlen_no_null:
  assumes "0 \<notin> set s"
  shows "takeWhile (\<lambda>b. b \<noteq> 0) s = s" "strlen s = length s"
proof -
  show "takeWhile (\<lambda>b. b \<noteq> 0) s = s" using assms by (auto simp: takeWhile_eq_all_conv)
  then show "strlen s = length s" by (simp only: strlen_def)
qed

text \<open>The message is framed whatever the state of the buffer is.\<close>

lemma usb_send_msg_push:
  assumes "0 \<notin> set f" "length d = unat n"
  shows "usb_send_msg f cmd d n u = push_all (msg_frame f cmd d) u"
proof -
  have "(of_nat (length d) :: byte) = n" using assms(2) by simp
  then have "(of_nat (2 + length f + length d) :: byte) = 2 + of_nat (length f) + n" by simp
  then show ?thesis using assms
    by (simp add: usb_send_msg_def Let_def usb_send_byte_push usb_send_str_push usb_send_data_push
        strlen_no_null push_all_append msg_frame_def add.assoc)
qed

lemma out_bytes_push_all: "usb_wf u \<Longrightarrow> out_bytes (push_all xs u) = newest 63 (out_bytes u @ xs)"
  by (simp add: out_bytes_def push_all_def rbC.deque.abs_fold_push_back usb_wf_def newest_def)

lemma push_all_frame [simp]:
  "in_bytes (push_all xs u) = in_bytes u" "usb_wf u \<Longrightarrow> usb_wf (push_all xs u)"
  "usb_receive_buffer (push_all xs u) = usb_receive_buffer u" "eps (push_all xs u) = eps u"
  "clear_buffer (push_all xs u) = clear_buffer u" "USB_DeviceState (push_all xs u) = USB_DeviceState u"
  "UENUM (push_all xs u) = UENUM u" "sending (push_all xs u) = sending u"
  by (simp_all add: in_bytes_def push_all_def usb_wf_def rbC.deque.inv_fold_push_back)

lemma usb_msg_length_ok: "usb_wf u \<Longrightarrow> unat (usb_msg_length u) = length (in_bytes u)"
  by (simp add: usb_msg_length_def usb_wf_def in_bytes_def rbC.deque.len)

lemma usb_msg_length_0: "usb_wf u \<Longrightarrow> usb_msg_length u = 0 \<longleftrightarrow> in_bytes u = []"
  by (simp add: usb_msg_length_def usb_wf_def in_bytes_def rbC.deque.len_eq_0)

lemma usb_out_msg_length_0: "usb_wf u \<Longrightarrow> usb_out_msg_length u = 0 \<longleftrightarrow> out_bytes u = []"
  by (simp add: usb_out_msg_length_def usb_wf_def out_bytes_def rbC.deque.len_eq_0)

lemma usb_msg_peek_ok: "usb_wf u \<Longrightarrow> usb_msg_peek u = (if in_bytes u = [] then 0 else hd (in_bytes u))"
  by (auto simp: usb_msg_peek_def usb_wf_def in_bytes_def rbC.deque.len_eq_0 rbC.deque.get hd_conv_nth)

lemma usb_msg_get_ok:
  assumes "usb_wf u"
  shows "fst (usb_msg_get u) = (if in_bytes u = [] then 0 else hd (in_bytes u))"
    "in_bytes (snd (usb_msg_get u)) = tl (in_bytes u)" "usb_wf (snd (usb_msg_get u))"
    "out_bytes (snd (usb_msg_get u)) = out_bytes u"
proof -
  have wf: "rb_wf 64 (usb_receive_buffer u)" using assms by (simp add: usb_wf_def)
  note d = rbC.deque.pop_front [OF wf] rbC.deque.abs_pop_front [OF wf] rbC.deque.inv_pop_front [OF wf]
    rbC.deque.len_eq_0 [OF wf]
  show "fst (usb_msg_get u) = (if in_bytes u = [] then 0 else hd (in_bytes u))"
    "in_bytes (snd (usb_msg_get u)) = tl (in_bytes u)" "usb_wf (snd (usb_msg_get u))"
    "out_bytes (snd (usb_msg_get u)) = out_bytes u"
    using d assms by (auto simp: usb_msg_get_def in_bytes_def out_bytes_def usb_wf_def split: prod.split)
qed

lemma fold_read_into:
  assumes "usb_wf u" "n \<le> length (in_bytes u)" "n \<le> length obj"
  shows "\<exists>q. fold read_into_pass [0..<n] (obj, u) = (take n (in_bytes u) @ drop n obj, u\<lparr>usb_receive_buffer := q\<rparr>) \<and>
    rb_wf 64 q \<and> rb_list 64 q = drop n (in_bytes u)"
  using assms(2,3)
proof (induction n)
  case 0
  then show ?case using assms(1) by (auto simp: usb_wf_def in_bytes_def intro: exI [of _ "usb_receive_buffer u"])
next
  case (Suc n)
  then obtain q where q: "fold read_into_pass [0..<n] (obj, u) = (take n (in_bytes u) @ drop n obj, u\<lparr>usb_receive_buffer := q\<rparr>)"
    "rb_wf 64 q" "rb_list 64 q = drop n (in_bytes u)" by auto
  have ne: "drop n (in_bytes u) \<noteq> []" using Suc.prems by simp
  obtain b p where bp: "rb_pop_front_C q = (b, p)" by fastforce
  have b: "b = in_bytes u ! n" "rb_list 64 p = drop (Suc n) (in_bytes u)" "rb_wf 64 p"
    using rbC.deque.pop_front [OF q(2)] rbC.deque.abs_pop_front [OF q(2)] rbC.deque.inv_pop_front [OF q(2)] q(3) ne Suc.prems
    by (simp_all add: bp hd_drop_conv_nth drop_Suc tl_drop)
  have upd: "(take n (in_bytes u) @ drop n obj)[n := b] = take (Suc n) (in_bytes u) @ drop (Suc n) obj"
    using Suc.prems b(1) by (simp add: list_update_append take_Suc_conv_app_nth Cons_nth_drop_Suc [symmetric])
  have "fold read_into_pass [0..<Suc n] (obj, u) = read_into_pass n (fold read_into_pass [0..<n] (obj, u))" by simp
  also have "\<dots> = (take (Suc n) (in_bytes u) @ drop (Suc n) obj, u\<lparr>usb_receive_buffer := p\<rparr>)"
    unfolding q(1) by (simp add: read_into_pass_def bp upd)
  finally show ?case using b(2,3) by blast
qed

lemma usb_msg_read_into_ok:
  assumes "usb_wf u" "unat n \<le> length (in_bytes u)" "length obj = unat n"
  shows "\<exists>q. usb_msg_read_into obj n u = (True, take (unat n) (in_bytes u), u\<lparr>usb_receive_buffer := q\<rparr>) \<and>
    rb_wf 64 q \<and> rb_list 64 q = drop (unat n) (in_bytes u)"
proof -
  have "\<not> rb_length_C (usb_receive_buffer u) < n"
    using assms(1,2) by (simp add: word_less_nat_alt usb_wf_def rbC.deque.len in_bytes_def)
  then show ?thesis using fold_read_into [OF assms(1,2), of obj] assms(3) by (auto simp: usb_msg_read_into_def)
qed

lemma usb_msg_read_into_short:
  assumes "usb_wf u" "length (in_bytes u) < unat n"
  shows "usb_msg_read_into obj n u = (False, obj, u)"
  using assms by (simp add: usb_msg_read_into_def word_less_nat_alt usb_wf_def rbC.deque.len in_bytes_def)

lemma usb_flush_ok:
  "usb_wf u \<Longrightarrow> usb_wf (usb_flush_input_buffer u)" "usb_wf u \<Longrightarrow> in_bytes (usb_flush_input_buffer u) = []"
  "out_bytes (usb_flush_input_buffer u) = out_bytes u" "clear_buffer (usb_flush_input_buffer u)"
  by (simp_all add: usb_flush_input_buffer_def usb_wf_def in_bytes_def out_bytes_def
      rbC.deque.inv_init rbC.deque.abs_init)

section \<open>The interface of the message handler\<close>

text \<open>
  What a client of the serial link relies on: bytes are taken from the front of an input queue, and
  a message is appended to an output queue that keeps the newest bytes.
\<close>

locale byte_link =
  fixes inv :: "'u \<Rightarrow> bool" and inp outp :: "'u \<Rightarrow> byte list" and cap :: nat
    and len :: "'u \<Rightarrow> uint8" and peek :: "'u \<Rightarrow> byte" and get :: "'u \<Rightarrow> byte \<times> 'u"
    and read_into :: "byte list \<Rightarrow> uint8 \<Rightarrow> 'u \<Rightarrow> bool \<times> byte list \<times> 'u"
    and send :: "byte list \<Rightarrow> byte \<Rightarrow> byte list \<Rightarrow> uint8 \<Rightarrow> 'u \<Rightarrow> 'u"
  assumes len: "inv u \<Longrightarrow> unat (len u) = length (inp u)"
    and peek: "inv u \<Longrightarrow> inp u = b # bs \<Longrightarrow> peek u = b"
    and get: "inv u \<Longrightarrow> inp u = b # bs \<Longrightarrow> \<exists>v. get u = (b, v) \<and> inv v \<and> inp v = bs \<and> outp v = outp u"
    and read_into: "inv u \<Longrightarrow> inp u = d @ bs \<Longrightarrow> length d = unat n \<Longrightarrow> length obj = unat n
      \<Longrightarrow> \<exists>v. read_into obj n u = (True, d, v) \<and> inv v \<and> inp v = bs \<and> outp v = outp u"
    and send: "inv u \<Longrightarrow> 0 \<notin> set f \<Longrightarrow> length d = unat n \<Longrightarrow>
      inv (send f c d n u) \<and> inp (send f c d n u) = inp u \<and> outp (send f c d n u) = newest cap (outp u @ msg_frame f c d)"
begin

text \<open>Taking a command byte and its argument structure, as every handler of a command does.\<close>

lemma take_command:
  assumes "inv u" "inp u = c # d @ bs" "length d = unat n" "length obj = unat n"
  shows "\<exists>v. read_into obj n (snd (get u)) = (True, d, v) \<and> inv v \<and> inp v = bs \<and> outp v = outp u"
proof -
  obtain w where "get u = (c, w)" "inv w" "inp w = d @ bs" "outp w = outp u" using get assms(1,2) by blast
  then show ?thesis using read_into [of w d bs n obj] assms(3,4) by simp
qed

text \<open>Two messages in a row are the concatenation of their frames.\<close>

lemma send_send:
  assumes "inv u" "0 \<notin> set f" "0 \<notin> set g" "length d = unat m" "length e = unat n"
  shows "outp (send g b e n (send f c d m u)) = newest cap (outp u @ msg_frame f c d @ msg_frame g b e)"
  using send [of "send f c d m u" g e n b] send [of u f d m c] assms by (simp add: newest_append)

lemma send_fits:
  assumes "inv u" "0 \<notin> set f" "length d = unat n" "length (outp u) + 3 + length f + length d \<le> cap"
  shows "outp (send f c d n u) = outp u @ msg_frame f c d"
  using send [of u f d n c] assms by simp

end

interpretation link: byte_link usb_wf in_bytes out_bytes 63 usb_msg_length usb_msg_peek usb_msg_get
  usb_msg_read_into usb_send_msg
proof
  fix u :: usb and b :: byte and bs assume u: "usb_wf u" "in_bytes u = b # bs"
  show "usb_msg_peek u = b" using u by (simp add: usb_msg_peek_ok)
  show "\<exists>v. usb_msg_get u = (b, v) \<and> usb_wf v \<and> in_bytes v = bs \<and> out_bytes v = out_bytes u"
    using usb_msg_get_ok [OF u(1)] u(2) by (intro exI [of _ "snd (usb_msg_get u)"]) (simp add: prod_eq_iff)
next
  fix u :: usb and d bs obj :: "byte list" and n :: uint8
  assume "usb_wf u" "in_bytes u = d @ bs" "length d = unat n" "length obj = unat n"
  then show "\<exists>v. usb_msg_read_into obj n u = (True, d, v) \<and> usb_wf v \<and> in_bytes v = bs \<and> out_bytes v = out_bytes u"
    using usb_msg_read_into_ok [of u n obj] by (auto simp: usb_wf_def in_bytes_def out_bytes_def)
next
  fix u :: usb and f d :: "byte list" and c :: byte and n :: uint8
  assume "usb_wf u" "0 \<notin> set f" "length d = unat n"
  then show "usb_wf (usb_send_msg f c d n u) \<and> in_bytes (usb_send_msg f c d n u) = in_bytes u \<and>
      out_bytes (usb_send_msg f c d n u) = newest 63 (out_bytes u @ msg_frame f c d)"
    by (simp add: usb_send_msg_push out_bytes_push_all)
qed (simp add: usb_msg_length_ok)

section \<open>The host's view of a message\<close>

fun read_frame :: "byte list \<Rightarrow> ((byte list \<times> byte \<times> byte list) \<times> byte list) option" where
  "read_frame [] = None"
| "read_frame (n # bs) =
     (if length bs < unat n then None
      else let m = take (unat n) bs; f = takeWhile (\<lambda>b. b \<noteq> 0) m; r = drop (length f) m
           in case r of z # c # d \<Rightarrow> Some ((f, c, d), drop (unat n) bs) | _ \<Rightarrow> None)"

lemma read_frame_msg_frame:
  assumes "0 \<notin> set f" "length f + length d < 254"
  shows "read_frame (msg_frame f c d @ rest) = Some ((f, c, d), rest)"
proof -
  define n where "n = (of_nat (2 + length f + length d) :: byte)"
  have n: "unat n = 2 + length f + length d" unfolding n_def using assms(2) by (intro unat_of_nat8) simp
  have f: "takeWhile (\<lambda>b. b \<noteq> 0) (f @ 0 # c # d) = f" using assms(1) by (auto simp: takeWhile_append)
  have "msg_frame f c d @ rest = n # f @ 0 # c # d @ rest" by (simp add: msg_frame_def n_def)
  then show ?thesis by (simp add: n f Let_def)
qed

section \<open>The endpoints\<close>

text \<open>
  The endpoint configuration the drivers rely on: endpoint 1 sends, endpoint 2 receives packets of
  at most 16 bytes; \<open>TXINI\<close> of an OUT endpoint is never set (ATmega32U4 data sheet, 22.18.2).
\<close>

definition link_ok :: "usb \<Rightarrow> bool" where
  "link_ok u \<longleftrightarrow> usb_wf u \<and> UECFG0X (eps u 1) = 0x81 \<and> UECFG0X (eps u 2) = 0x80 \<and> bank (eps u 1) = [] \<and>
     UEINTX (eps u 2) AND TXINI = 0 \<and> length (bank (eps u 2)) \<le> 16"

text \<open>The bytes the host has taken and will take, and those it has sent and the handler will see.\<close>

definition sent_bytes :: "usb \<Rightarrow> byte list" where
  "sent_bytes u = concat (to_host (eps u 1))"

lemmas endpoint_defs = Endpoint_SelectEndpoint_def CDC_RX_EPADDR_def CDC_TX_EPADDR_def ENDPOINT_EPNUM_MASK_def
  ENDPOINT_DIR_IN_def cur_def set_cur_def Endpoint_ClearIN_def Endpoint_ClearOUT_def is_control_def dir_in_def EPDIR_def send_bank_def free_bank_def
  Endpoint_Write_8_def Endpoint_Read_8_def Endpoint_IsINReady_def Endpoint_IsOUTReceived_def

lemma endpoint_numbers [simp]: "CDC_TX_EPADDR AND ENDPOINT_EPNUM_MASK = 1" "CDC_RX_EPADDR AND ENDPOINT_EPNUM_MASK = 2"
  by (simp_all add: CDC_TX_EPADDR_def CDC_RX_EPADDR_def ENDPOINT_EPNUM_MASK_def ENDPOINT_DIR_IN_def)

lemma usb_read_next_byte_cases:
  assumes "link_ok u"
  shows "usb_read_next_byte u =
    (let v = u\<lparr>UENUM := 2\<rparr> in
     if UEINTX (eps u 2) AND RXOUTI = 0 then v
     else case bank (eps u 2) of
       b # bs \<Rightarrow> (let w = v\<lparr>reading := True, eps := (eps u)(2 := (eps u 2)\<lparr>bank := bs\<rparr>)\<rparr>
                  in if clear_buffer u then w else w\<lparr>usb_receive_buffer := rb_push_back_C (usb_receive_buffer u) b\<rparr>)
     | [] \<Rightarrow> if reading u
             then v\<lparr>eps := (eps u)(2 := (eps u 2)\<lparr>UEINTX := UEINTX (eps u 2) AND NOT (RXOUTI OR FIFOCON), bank := []\<rparr>),
                    clear_buffer := False, reading := True\<rparr>
             else v)"
proof (cases "bank (eps u 2)")
  case Nil
  then show ?thesis using assms
    by (simp add: usb_read_next_byte_def Let_def endpoint_defs Endpoint_BytesInEndpoint_def link_ok_def)
next
  case (Cons b bs)
  have "(of_nat (Suc (length bs)) :: uint16) \<noteq> 0"
  proof
    assume "(of_nat (Suc (length bs)) :: uint16) = 0"
    then have "unat (of_nat (Suc (length bs)) :: uint16) = 0" by simp
    then show False using assms Cons by (simp del: of_nat_Suc add: unat_of_nat take_bit_eq_mod link_ok_def)
  qed
  then show ?thesis using Cons
    by (simp add: usb_read_next_byte_def Let_def endpoint_defs Endpoint_BytesInEndpoint_def)
qed

lemma usb_read_next_byte_byte:
  assumes "link_ok u" "UEINTX (eps u 2) AND RXOUTI \<noteq> 0" "bank (eps u 2) = b # bs"
  shows "link_ok (usb_read_next_byte u)" "bank (eps (usb_read_next_byte u) 2) = bs" "reading (usb_read_next_byte u)"
    "UEINTX (eps (usb_read_next_byte u) 2) = UEINTX (eps u 2)" "clear_buffer (usb_read_next_byte u) = clear_buffer u"
    "in_bytes (usb_read_next_byte u) = (if clear_buffer u then in_bytes u else newest 63 (in_bytes u @ [b]))"
proof -
  note r = usb_read_next_byte_cases [OF assms(1)]
  have wf: "rb_wf 64 (usb_receive_buffer u)" using assms(1) by (simp add: link_ok_def usb_wf_def)
  have b: "rb_list 64 (rb_push_back_C (usb_receive_buffer u) b) = newest 63 (in_bytes u @ [b])"
    using rbC.deque.abs_fold_push_back [OF wf, of "[b]"] by (simp add: newest_def in_bytes_def)
  show "link_ok (usb_read_next_byte u)" using assms
    by (auto simp: r Let_def link_ok_def usb_wf_def rbC.deque.inv_push_back)
  show "bank (eps (usb_read_next_byte u) 2) = bs" "reading (usb_read_next_byte u)"
    "UEINTX (eps (usb_read_next_byte u) 2) = UEINTX (eps u 2)" "clear_buffer (usb_read_next_byte u) = clear_buffer u"
    "in_bytes (usb_read_next_byte u) = (if clear_buffer u then in_bytes u else newest 63 (in_bytes u @ [b]))"
    using assms b by (simp_all add: r Let_def in_bytes_def)
qed

lemma mask_cleared: "(w AND NOT (RXOUTI OR FIFOCON)) AND RXOUTI = (0 :: uint8)"
  by (simp add: RXOUTI_def FIFOCON_def eq8 bit_simps)

lemma mask_kept: "w AND TXINI = 0 \<Longrightarrow> (w AND NOT (RXOUTI OR FIFOCON)) AND TXINI = (0 :: uint8)"
  by (simp add: RXOUTI_def FIFOCON_def TXINI_def eq8 bit_simps)

lemma usb_read_next_byte_end:
  assumes "link_ok u" "UEINTX (eps u 2) AND RXOUTI \<noteq> 0" "bank (eps u 2) = []" "reading u"
  shows "link_ok (usb_read_next_byte u)" "UEINTX (eps (usb_read_next_byte u) 2) AND RXOUTI = 0"
    "\<not> clear_buffer (usb_read_next_byte u)" "in_bytes (usb_read_next_byte u) = in_bytes u"
proof -
  note r = usb_read_next_byte_cases [OF assms(1)]
  show "link_ok (usb_read_next_byte u)" "UEINTX (eps (usb_read_next_byte u) 2) AND RXOUTI = 0"
    "\<not> clear_buffer (usb_read_next_byte u)" "in_bytes (usb_read_next_byte u) = in_bytes u"
    using assms mask_cleared [of "UEINTX (eps u 2)"] mask_kept [of "UEINTX (eps u 2)"]
    by (simp_all add: r Let_def link_ok_def usb_wf_def in_bytes_def)
qed

text \<open>All bytes of a packet, then the acknowledgement.\<close>

lemma read_packet:
  assumes "link_ok u" "UEINTX (eps u 2) AND RXOUTI \<noteq> 0" "p \<noteq> [] \<or> reading u" "bank (eps u 2) = p"
  shows "link_ok ((usb_read_next_byte ^^ (length p + 1)) u) \<and>
    in_bytes ((usb_read_next_byte ^^ (length p + 1)) u) = (if clear_buffer u then in_bytes u else newest 63 (in_bytes u @ p)) \<and>
    UEINTX (eps ((usb_read_next_byte ^^ (length p + 1)) u) 2) AND RXOUTI = 0 \<and>
    \<not> clear_buffer ((usb_read_next_byte ^^ (length p + 1)) u)"
  using assms
proof (induction p arbitrary: u)
  case Nil
  have "length (in_bytes u) \<le> 63"
    using Nil(1) rbC.deque.length_abs by (fastforce simp: link_ok_def usb_wf_def in_bytes_def)
  then show ?case using usb_read_next_byte_end [of u] Nil by simp
next
  case (Cons b p)
  note r = usb_read_next_byte_byte [OF Cons.prems(1,2,4)]
  have "(usb_read_next_byte ^^ (length (b # p) + 1)) u = (usb_read_next_byte ^^ (length p + 1)) (usb_read_next_byte u)"
    by (simp add: funpow_swap1)
  then show ?case using Cons.IH [of "usb_read_next_byte u"] r Cons.prems(2) by (simp add: newest_append)
qed

lemma usb_write_next_byte_byte:
  assumes "link_ok u" "UEINTX (eps u 1) AND TXINI \<noteq> 0" "out_bytes u = b # bs"
  shows "link_ok (usb_write_next_byte u)" "out_bytes (usb_write_next_byte u) = bs"
    "to_host (eps (usb_write_next_byte u) 1) = to_host (eps u 1) @ [[b]]" "in_bytes (usb_write_next_byte u) = in_bytes u"
    "eps (usb_write_next_byte u) 2 = eps u 2"
proof -
  have wf: "rb_wf 64 (usb_send_buffer u)" using assms(1) by (simp add: link_ok_def usb_wf_def)
  obtain c q where q: "rb_pop_front_C (usb_send_buffer u) = (c, q)" by fastforce
  have c: "c = b" "rb_list 64 q = bs" "rb_wf 64 q" "rb_length_C (usb_send_buffer u) \<noteq> 0"
    using rbC.deque.pop_front [OF wf] rbC.deque.abs_pop_front [OF wf] rbC.deque.inv_pop_front [OF wf]
      rbC.deque.len_eq_0 [OF wf] assms(3) by (simp_all add: q out_bytes_def)
  show "link_ok (usb_write_next_byte u)" "out_bytes (usb_write_next_byte u) = bs"
    "to_host (eps (usb_write_next_byte u) 1) = to_host (eps u 1) @ [[b]]" "in_bytes (usb_write_next_byte u) = in_bytes u"
    "eps (usb_write_next_byte u) 2 = eps u 2"
    using assms c by (simp_all add: usb_write_next_byte_def Let_def endpoint_defs q link_ok_def usb_wf_def
        out_bytes_def in_bytes_def)
qed

lemma usb_write_next_byte_wait:
  assumes "link_ok u" "UEINTX (eps u 1) AND TXINI = 0" "out_bytes u \<noteq> []"
  shows "usb_write_next_byte u = u\<lparr>sending := True, UENUM := 1\<rparr>"
proof -
  have wf: "rb_wf 64 (usb_send_buffer u)" using assms(1) by (simp add: link_ok_def usb_wf_def)
  have "rb_length_C (usb_send_buffer u) \<noteq> 0" using rbC.deque.len_eq_0 [OF wf] assms(3) by (simp add: out_bytes_def)
  then show ?thesis using assms(2) by (simp add: usb_write_next_byte_def Let_def endpoint_defs)
qed

text \<open>
  When there is nothing to send the routine tests the endpoint that happens to be selected. After
  \<open>usb_read_next_byte\<close> that is the receiving one, so the final zero length packet is never sent.
\<close>

lemma usb_write_next_byte_idle:
  assumes "link_ok u" "out_bytes u = []" "UENUM u = 2"
  shows "usb_write_next_byte u = u"
proof -
  have wf: "rb_wf 64 (usb_send_buffer u)" using assms(1) by (simp add: link_ok_def usb_wf_def)
  have "rb_length_C (usb_send_buffer u) = 0" using rbC.deque.len_eq_0 [OF wf] assms(2) by (simp add: out_bytes_def)
  then show ?thesis using assms(1,3) by (simp add: usb_write_next_byte_def endpoint_defs link_ok_def)
qed

lemma usb_read_next_byte_frame:
  assumes "link_ok u"
  shows "UENUM (usb_read_next_byte u) = 2" "eps (usb_read_next_byte u) 1 = eps u 1"
    "usb_send_buffer (usb_read_next_byte u) = usb_send_buffer u" "link_ok (usb_read_next_byte u)"
proof -
  note r = usb_read_next_byte_cases [OF assms]
  show "UENUM (usb_read_next_byte u) = 2" "eps (usb_read_next_byte u) 1 = eps u 1"
    "usb_send_buffer (usb_read_next_byte u) = usb_send_buffer u"
    by (simp_all add: r Let_def split: list.split)
  show "link_ok (usb_read_next_byte u)"
  proof (cases "UEINTX (eps u 2) AND RXOUTI = 0")
    case True
    then show ?thesis using assms by (simp add: r Let_def link_ok_def usb_wf_def)
  next
    case False
    then show ?thesis
    proof (cases "bank (eps u 2)")
      case Nil
      then show ?thesis using assms False usb_read_next_byte_end(1) [OF assms False]
        by (cases "reading u") (simp_all add: r Let_def link_ok_def usb_wf_def)
    qed (use usb_read_next_byte_byte(1) [OF assms False] in simp)
  qed
qed

text \<open>Without a pending control request \<open>USB_USBTask\<close> leaves the link alone.\<close>

lemma USB_USBTask_idle:
  assumes "UEINTX (eps u 0) AND RXSTPI = 0"
  shows "\<exists>n. USB_USBTask evs u = Some (u\<lparr>UENUM := n\<rparr>)"
  using assms by (auto simp: USB_USBTask_def Let_def Endpoint_IsSETUPReceived_def Endpoint_SelectEndpoint_def
      ENDPOINT_CONTROLEP_def cur_def intro: exI [of _ "UENUM u"])

lemma link_ok_select [simp]: "link_ok (u\<lparr>UENUM := n\<rparr>) = link_ok u" "out_bytes (u\<lparr>UENUM := n\<rparr>) = out_bytes u"
  "in_bytes (u\<lparr>UENUM := n\<rparr>) = in_bytes u" "sent_bytes (u\<lparr>UENUM := n\<rparr>) = sent_bytes u"
  by (simp_all add: link_ok_def usb_wf_def out_bytes_def in_bytes_def sent_bytes_def)

lemma usb_write_next_byte_stream:
  assumes "link_ok u" "UENUM u = 2"
  shows "link_ok (usb_write_next_byte u)" "sent_bytes (usb_write_next_byte u) @ out_bytes (usb_write_next_byte u) = sent_bytes u @ out_bytes u"
    "length (out_bytes (usb_write_next_byte u)) = length (out_bytes u) - of_bool (UEINTX (eps u 1) AND TXINI \<noteq> 0)"
    "in_bytes (usb_write_next_byte u) = in_bytes u"
proof -
  consider "out_bytes u = []" | "out_bytes u \<noteq> []" "UEINTX (eps u 1) AND TXINI = 0"
    | b bs where "out_bytes u = b # bs" "UEINTX (eps u 1) AND TXINI \<noteq> 0"
    by (cases "out_bytes u") auto
  then have "link_ok (usb_write_next_byte u) \<and>
    sent_bytes (usb_write_next_byte u) @ out_bytes (usb_write_next_byte u) = sent_bytes u @ out_bytes u \<and>
    length (out_bytes (usb_write_next_byte u)) = length (out_bytes u) - of_bool (UEINTX (eps u 1) AND TXINI \<noteq> 0) \<and>
    in_bytes (usb_write_next_byte u) = in_bytes u"
  proof cases
    case 1
    then show ?thesis using usb_write_next_byte_idle [OF assms(1) 1 assms(2)] assms(1) by simp
  next
    case 2
    then show ?thesis using usb_write_next_byte_wait [OF assms(1) 2(2,1)] assms(1)
      by (simp add: link_ok_def usb_wf_def out_bytes_def in_bytes_def sent_bytes_def)
  next
    case 3
    then show ?thesis using usb_write_next_byte_byte [OF assms(1) 3(2,1)] by (simp add: sent_bytes_def)
  qed
  then show "link_ok (usb_write_next_byte u)" "sent_bytes (usb_write_next_byte u) @ out_bytes (usb_write_next_byte u) = sent_bytes u @ out_bytes u"
    "length (out_bytes (usb_write_next_byte u)) = length (out_bytes u) - of_bool (UEINTX (eps u 1) AND TXINI \<noteq> 0)"
    "in_bytes (usb_write_next_byte u) = in_bytes u" by blast+
qed

lemma USB_Upkeep_stream:
  assumes "link_ok u" "UEINTX (eps u 0) AND RXSTPI = 0"
  shows "\<exists>v. USB_Upkeep_Task evs u = Some v \<and> link_ok v \<and> sent_bytes v @ out_bytes v = sent_bytes u @ out_bytes u \<and>
    length (out_bytes v) = length (out_bytes u) -
       of_bool (USB_DeviceState u = DEVICE_STATE_Configured \<and> UEINTX (eps u 1) AND TXINI \<noteq> 0)"
proof -
  obtain n where n: "USB_USBTask evs u = Some (u\<lparr>UENUM := n\<rparr>)" using USB_USBTask_idle [OF assms(2)] by blast
  have ok: "link_ok (u\<lparr>UENUM := n\<rparr>)" using assms(1) by simp
  let ?v = "usb_read_next_byte (u\<lparr>UENUM := n\<rparr>)"
  note v = usb_read_next_byte_frame [OF ok]
  have s: "sent_bytes ?v = sent_bytes u" "out_bytes ?v = out_bytes u"
    using v(2,3) by (simp_all add: sent_bytes_def out_bytes_def)
  note w = usb_write_next_byte_stream [OF v(4) v(1)]
  show ?thesis using w s v(2) assms(1) by (simp add: USB_Upkeep_Task_def n Let_def)
qed

end
