(* ===== verification/Driver_Properties.thy ===== *)
theory Driver_Properties
  imports Timing Encoder Led_Servo Battery Proximity Motor_Duty Controller Serial_IO
begin

text \<open>
  The properties of the drivers, each stated over the definitions of one or two components, with a
  witness at a concrete input where the property has hypotheses.
\<close>

section \<open>Ring buffers\<close>

text \<open>C7 (refinement). The byte ring buffer is a queue of at most 63 bytes: appending keeps the newest
  63, taking removes the oldest, and the length operation counts the bytes.\<close>

theorem rb_C_refines_queue:
  assumes "rb_wf 64 p"
  shows "rb_wf 64 (rb_push_back_C p v) \<and> rb_list 64 (rb_push_back_C p v) = newest 63 (rb_list 64 p @ [v]) \<and>
    rb_wf 64 (snd (rb_pop_front_C p)) \<and> rb_list 64 (snd (rb_pop_front_C p)) = tl (rb_list 64 p) \<and>
    fst (rb_pop_front_C p) = (if rb_list 64 p = [] then 0 else hd (rb_list 64 p)) \<and>
    unat (rb_length_C p) = length (rb_list 64 p)"
proof -
  have "rb_list 64 (rb_push_back_C p v) = newest 63 (rb_list 64 p @ [v])"
    using rbC.deque.abs_fold_push_back [OF assms, of "[v]"] by (simp add: newest_def)
  then show ?thesis using assms
    by (simp add: rbC.deque.inv_push_back rbC.deque.inv_pop_front rbC.deque.abs_pop_front rbC.deque.pop_front rbC.deque.len)
qed

theorem rb_C_refines_queue_witness:
  "rb_list 64 (rb_push_back_C rb_zero_C 7) = [7] \<and> fst (rb_pop_front_C (rb_push_back_C rb_zero_C 7)) = 7"
  using rb_C_refines_queue [of rb_zero_C 7] rb_C_refines_queue [of "rb_push_back_C rb_zero_C 7" 0] by simp

text \<open>C29 (refinement). The float ring buffer is a deque of at most 7 values: pushing at one end of a full
  buffer drops the value at the other end, popping an empty buffer gives zero and changes nothing.\<close>

theorem rb_F_refines_deque:
  assumes "rb_wf 8 p"
  shows "rb_list 8 (rb_push_back_F p v) = (if length (rb_list 8 p) < 7 then rb_list 8 p @ [v] else tl (rb_list 8 p) @ [v]) \<and>
    rb_list 8 (rb_push_front_F p v) = (if length (rb_list 8 p) < 7 then v # rb_list 8 p else v # butlast (rb_list 8 p)) \<and>
    rb_list 8 (snd (rb_pop_back_F p)) = butlast (rb_list 8 p) \<and> rb_list 8 (snd (rb_pop_front_F p)) = tl (rb_list 8 p) \<and>
    fst (rb_pop_back_F p) = (if rb_list 8 p = [] then 0 else last (rb_list 8 p)) \<and>
    fst (rb_pop_front_F p) = (if rb_list 8 p = [] then 0 else hd (rb_list 8 p)) \<and>
    rb_wf 8 (rb_push_back_F p v) \<and> rb_wf 8 (rb_push_front_F p v)"
  using assms
  by (simp add: rbF.deque.abs_push_back rbF.deque.abs_push_front rbF.deque.abs_pop_back rbF.deque.abs_pop_front
      rbF.deque.pop_back rbF.deque.pop_front rbF.deque.inv_push_back rbF.deque.inv_push_front)

theorem rb_F_refines_deque_witness: "rb_list 8 (rb_push_front_F rb_zero_F 5) = [5]"
  using rb_F_refines_deque [of rb_zero_F 5] by simp

text \<open>C31 (termination). Setting an element returns for every index but 7: inside the active range it replaces the
  element, below 7 it pads the buffer with the value up to the index, from 8 on it changes nothing. Index 7 passes the
  guard of the code, but the buffer never holds more than seven values, so the padding loop does not end.\<close>

theorem rb_set_F_behaviour:
  assumes "rb_wf 8 p"
  shows "if i = 7 then rb_set_F p i v = None
    else \<exists>q. rb_set_F p i v = Some q \<and> rb_wf 8 q \<and>
      rb_list 8 q = (if unat i < length (rb_list 8 p) then (rb_list 8 p)[unat i := v]
        else if unat i < 7 then rb_list 8 p @ replicate (Suc (unat i) - length (rb_list 8 p)) v
        else rb_list 8 p)"
proof -
  note len = rbF.deque.len [OF assms] and cap = rbF.deque.len_le_cap [OF assms]
  have "i = 7 \<longleftrightarrow> unat i = 7" by (simp add: word_unat_eq_iff)
  then consider "unat i < length (rb_list 8 p)" | "length (rb_list 8 p) \<le> unat i" "unat i < 7" | "i = 7" | "8 \<le> unat i"
    by linarith
  then show ?thesis
  proof cases
    case 1
    moreover have "i \<noteq> 7" using 1 cap len by auto
    ultimately show ?thesis using rb_set_F_inside [OF assms] by simp
  next
    case 2
    then have "rb_set_F p i v = rb_fill_F p i v" using len by (simp add: rb_set_F_def RB_LENGTH_F_def word_le_nat_alt)
    moreover have "i \<noteq> 7" using 2 by auto
    ultimately show ?thesis using rb_fill_F_pads [OF assms, of "Suc (unat i) - length (rb_list 8 p)" i] 2 by auto
  next
    case 3
    then have "rb_set_F p i v = rb_fill_F p 7 v" using cap by (simp add: rb_set_F_def RB_LENGTH_F_def word_le_nat_alt)
    then show ?thesis using rb_fill_F_diverges [of p 7 v] assms 3 by (cases "rb_fill_F p 7 v") auto
  next
    case 4
    then have "rb_set_F p i v = Some p" using cap by (simp add: rb_set_F_def RB_LENGTH_F_def word_le_nat_alt)
    moreover have "i \<noteq> 7" using 4 by auto
    ultimately show ?thesis using 4 cap len assms by auto
  qed
qed

theorem rb_set_F_behaviour_witness:
  "(\<exists>q. rb_set_F rb_zero_F 2 9 = Some q \<and> rb_list 8 q = [9, 9, 9]) \<and> rb_set_F rb_zero_F 7 1 = None"
  using rb_set_F_behaviour [of rb_zero_F 2 9] rb_set_F_behaviour [of rb_zero_F 7 1] by (auto simp: numeral_3_eq_3)

section \<open>Filter and controller\<close>

text \<open>C30 (equivalence). One call of \<open>Filter_Value\<close> is one step of the difference equation on the stored
  coefficients and the past inputs and outputs, which it shifts by one.\<close>

theorem Filter_Value_difference_equation:
  assumes "filter_wf n p"
  shows "fst (Filter_Value p v) = diff_eq (rb_list 8 (numerator p)) (rb_list 8 (denominator p))
      (v # butlast (rb_list 8 (in_list p))) (butlast (rb_list 8 (out_list p))) \<and>
    filter_wf n (snd (Filter_Value p v)) \<and>
    rb_list 8 (in_list (snd (Filter_Value p v))) = v # butlast (rb_list 8 (in_list p)) \<and>
    rb_list 8 (out_list (snd (Filter_Value p v))) = fst (Filter_Value p v) # butlast (rb_list 8 (out_list p))"
  using Filter_Value_ok [OF assms, of v] by simp

definition unit_filter :: Filter_Data_t where
  "unit_filter = (let b = rb_push_back_F rb_zero_F 0x3F800000
     in \<lparr>numerator = b, denominator = b, out_list = b, in_list = b\<rparr>)"

lemma unit_filter_lists:
  "filter_wf 1 unit_filter" "rb_list 8 (numerator unit_filter) = [0x3F800000]" "rb_list 8 (denominator unit_filter) = [0x3F800000]"
  by (simp_all add: unit_filter_def Let_def filter_wf_def rbF.deque.inv_push_back rbF.deque.abs_push_back)

theorem Filter_Value_difference_equation_witness:
  "fst (Filter_Value unit_filter 0x40000000) = diff_eq [0x3F800000] [0x3F800000]
     (0x40000000 # butlast (rb_list 8 (in_list unit_filter))) (butlast (rb_list 8 (out_list unit_filter)))"
  using Filter_Value_difference_equation [OF unit_filter_lists(1), of "0x40000000"] by (simp add: unit_filter_lists)

text \<open>Initialisation with coefficients of order at most six returns a filter of that order
  at rest; setting it to a value fills both histories with the value.\<close>

lemma Filter_Init_SetTo:
  assumes "rb_wf 8 (numerator p)" "rb_wf 8 (denominator p)" "rb_wf 8 (in_list p)" "rb_wf 8 (out_list p)"
    and "length num = Suc (unat order)" "length den = Suc (unat order)" "unat order \<le> 6"
  shows "\<exists>q r. Filter_Init p num den order = Some q \<and> Filter_SetTo q v = Some r \<and> filter_wf (Suc (unat order)) r \<and>
    rb_list 8 (numerator r) = num \<and> rb_list 8 (denominator r) = den \<and> Filter_Last_Output r = v \<and>
    rb_list 8 (in_list r) = replicate (Suc (unat order)) v \<and> rb_list 8 (out_list r) = replicate (Suc (unat order)) v"
proof -
  obtain q where q: "Filter_Init p num den order = Some q" "filter_wf (Suc (unat order)) q"
    "rb_list 8 (numerator q) = num" "rb_list 8 (denominator q) = den"
    using Filter_Init_ok [OF assms(1-4), of order num den] assms(5-7) by auto
  obtain r where r: "Filter_SetTo q v = Some r" "filter_wf (Suc (unat order)) r" "numerator r = numerator q"
    "denominator r = denominator q" "rb_list 8 (out_list r) = replicate (Suc (unat order)) v"
    "rb_list 8 (in_list r) = replicate (Suc (unat order)) v"
    using Filter_SetTo_ok [OF q(2), of v] by auto
  have "Filter_Last_Output r = v" using Filter_Last_Output_ok [OF r(2)] r(5) by simp
  then show ?thesis using q r by simp
qed

text \<open>Saturation returns a value between the negative and the positive limit.\<close>

lemma Saturate_between:
  assumes "\<not> f_nan v" "\<not> f_nan m" "0 \<le> f_val m"
  shows "f_le (f_neg m) (Saturate v m) \<and> f_le (Saturate v m) m"
  using Saturate_bounds [OF assms] by simp

section \<open>Encoders\<close>

text \<open>C33 (invariant). Along any path of quarter periods the interrupt routine of the left track returns and keeps
  its counter at two counts for every four quarter periods, although four edges occur: the helper for
  channel A computes a disjunction of the two pins.\<close>

theorem left_counts_half:
  assumes "left_pins 0 i" "quarter_path 0 qs" "list_all2 left_pins qs is" "list_all (\<lambda>q. \<bar>q\<bar> < 2147483648) qs"
  shows "\<exists>e'. run_left is (Encoders_Init i e) = Some e' \<and> sint (left_counts e') = half_count (last (0 # qs)) \<and>
    \<bar>2 * sint (left_counts e') - last (0 # qs)\<bar> \<le> 2"
proof -
  obtain e' where "run_left is (Encoders_Init i e) = Some e'" "left_at (last (0 # qs)) e'"
    using left_run [OF Encoders_Init_at(1) [OF assms(1)] assms(2-4)] by blast
  then show ?thesis using half_count_bound [of "last (0 # qs)"] by (intro exI [of _ e']) (simp only: left_at_def simp_thms)
qed

definition pins_at :: "uint8 \<Rightarrow> uint8 \<Rightarrow> pins" where
  "pins_at b e = \<lparr>PINB = b, PINE = e, PINF = 0\<rparr>"

theorem left_counts_half_witness:
  "\<exists>e'. run_left [pins_at 0x10 0, pins_at 0 4, pins_at 0x10 4, pins_at 0 0] (Encoders_Init (pins_at 0 0) encoder_reset) = Some e' \<and>
    sint (left_counts e') = 2"
proof -
  have "left_pins 0 (pins_at 0 0)" "list_all2 left_pins [1, 2, 3, 4] [pins_at 0x10 0, pins_at 0 4, pins_at 0x10 4, pins_at 0 0]"
    by (simp_all add: left_pins_def pins_at_def chan_A_def chan_B_def bit_simps)
  then show ?thesis
    using left_counts_half [of "pins_at 0 0" "[1, 2, 3, 4]" "[pins_at 0x10 0, pins_at 0 4, pins_at 0x10 4, pins_at 0 0]" encoder_reset]
    by (auto simp: half_count_def simp del: run_left.simps)
qed

section \<open>Motors\<close>

text \<open>C32 (bounds). For every duty cycle but \<open>INT16_MIN\<close> and every top value below \<open>2^15\<close> setting the left motor is
  defined, the compare value does not exceed the top value, the direction pin shows the sign, and
  nothing else of the timer changes.\<close>

theorem Motor_PWM_Left_bounds:
  assumes "uint (ICR1 m) \<le> 32767" "sint pwm \<noteq> - 32768"
  shows "\<exists>m' r'. Motor_PWM_Left pwm m r = Some (m', r') \<and> OCR1B m' \<le> ICR1 m' \<and> m' = m\<lparr>OCR1B := OCR1B m'\<rparr> \<and>
    bit (PORTB r') 2 = (sint pwm < 0)"
  using Motor_PWM_Left_ok [OF assms, of r] by blast

theorem Motor_PWM_Left_bounds_witness:
  "\<exists>m' r'. Motor_PWM_Left 50 (motor_reset\<lparr>ICR1 := 400\<rparr>) io_reset = Some (m', r') \<and> OCR1B m' \<le> ICR1 m' \<and> \<not> bit (PORTB r') 2"
  using Motor_PWM_Left_bounds [of "motor_reset\<lparr>ICR1 := 400\<rparr>" 50 io_reset] by auto

text \<open>A duty cycle of \<open>INT16_MIN\<close> overflows the negation on both sides.\<close>

theorem Motor_PWM_overflow:
  "Motor_PWM_Left 0x8000 m r = None \<and> Motor_PWM_Right 0x8000 m r = None"
  by (simp add: Motor_PWM_Left_unfold Motor_PWM_Right_unfold)

text \<open>At the top value 400 the compare value of a duty cycle is \<open>400 - 4 * |pwm|\<close>, one less at 47
  and 93 percent where the float product falls below the whole number; magnitudes above 100 count as 100.\<close>

theorem Motor_PWM_Right_400:
  assumes "ICR1 m = 400" "sint pwm \<noteq> - 32768"
  shows "\<exists>m' r'. Motor_PWM_Right pwm m r = Some (m', r') \<and>
    uint (OCR1A m') = 400 - 4 * min 100 \<bar>sint pwm\<bar> - of_bool (\<bar>sint pwm\<bar> = 47 \<or> \<bar>sint pwm\<bar> = 93)"
proof -
  obtain m' r' where m: "Motor_PWM_Right pwm m r = Some (m', r')" "duty_compare (duty_mag pwm) (ICR1 m) = Some (OCR1A m')"
    using Motor_PWM_Right_ok [of m pwm r] assms by auto
  have "OCR1A m' = word_of_int (400 - 4 * duty_mag pwm - of_bool (duty_mag pwm = 47 \<or> duty_mag pwm = 93))"
    using duty_compare_400 [OF duty_mag_bounds, of pwm] m(2) assms(1) by simp
  then have "uint (OCR1A m') = 400 - 4 * duty_mag pwm - of_bool (duty_mag pwm = 47 \<or> duty_mag pwm = 93)"
    using duty_mag_bounds [of pwm] by (simp only: uint_word_of_int take_bit_eq_mod) auto
  moreover have "(duty_mag pwm = 47 \<or> duty_mag pwm = 93) = (\<bar>sint pwm\<bar> = 47 \<or> \<bar>sint pwm\<bar> = 93)"
    by (auto simp: duty_mag_def)
  ultimately show ?thesis using m(1) by (auto simp: duty_mag_def)
qed

theorem Motor_PWM_Right_400_witness:
  "\<exists>m' r'. Motor_PWM_Right 75 (motor_reset\<lparr>ICR1 := 400\<rparr>) io_reset = Some (m', r') \<and> uint (OCR1A m') = 100"
  using Motor_PWM_Right_400 [of "motor_reset\<lparr>ICR1 := 400\<rparr>" 75 io_reset] by auto

section \<open>Clock\<close>

lemma sixteenth: "f_val 0x3D800000 = 2 ^ 145" "\<not> f_sgn 0x3D800000" "\<not> f_nan 0x3D800000" "\<not> f_inf 0x3D800000"
  by (simp_all add: f_val_def f_sgn_def f_nan_def f_inf_def f_mag_def mag_val_def F_INF_def)

text \<open>The microsecond part of a time stamp is exactly four times the timer count: the
  float computation and its conversion to an integer lose nothing for any of the 256 counts.\<close>

theorem GetTime_microseconds: "uint (microsec (GetTime t)) = 4 * uint (TCNT0 t)"
proof -
  let ?n = "uint (TCNT0 t)" and ?x = "f_of_int (uint (TCNT0 t) * 64)"
  have n: "0 \<le> ?n" "?n < 256" using unsigned_less [of "TCNT0 t"] by simp_all
  have x: "f_val ?x = ?n * 64 * F_ONE" "f_fin ?x" "\<not> f_sgn ?x"
    using f_of_int_exact [of "?n * 64"] n by (auto simp: f_of_int_def mult_less_0_iff)
  have m: "f_mul ?x 0x3D800000 = f_round False (?n * 64 * F_ONE * 2 ^ 145) F_ONE"
    using sixteenth x n by (simp add: f_mul_def Let_def f_fin_def f_nan_def f_inf_def abs_mult)
  have e: "?n * 64 * F_ONE * 2 ^ 145 = F_ONE * (4 * ?n * F_ONE)" by (simp add: F_ONE_def)
  obtain b where b: "0 \<le> b" "b < F_INF" "mag_val b = 4 * ?n * F_ONE"
    using representable [of "4 * ?n" 149] n by (auto simp: F_ONE_def)
  have r: "round_mag (F_ONE * (4 * ?n * F_ONE)) F_ONE = b" using round_mag_exact [of F_ONE b] b by simp
  have "f_mul ?x 0x3D800000 = f_make False b"
    unfolding m e f_round_def using r by (simp only:)
  then have "f_val (f_mul ?x 0x3D800000) = 4 * ?n * F_ONE" using b by (simp add: f_val_def)
  then have "f_int (f_mul ?x 0x3D800000) = 4 * ?n"
    using n by (intro f_int_whole) simp_all
  then have "microsec (GetTime t) = word_of_int (4 * ?n)"
    by (simp only: GetTime_def f_lit_sixteenth Time_t.select_convs)
  then show ?thesis using n by (simp only: uint_word_of_int take_bit_eq_mod) simp
qed

section \<open>Sensors and gripper\<close>

text \<open>Each battery task returns the step of the difference equation on the new measurement and the stored
  histories, which \<open>Battery_Voltage\<close> then reports.\<close>

theorem Battery_monitor:
  assumes "battery_wf b"
  shows "\<exists>b'. Battery_Voltage_Task (Some v) b = Some (Battery_Voltage b', b') \<and> battery_wf b' \<and>
    Battery_Voltage b' = diff_eq (rb_list 8 (numerator (battery_filter b))) (rb_list 8 (denominator (battery_filter b)))
      (volts v # butlast (rb_list 8 (in_list (battery_filter b)))) (butlast (rb_list 8 (out_list (battery_filter b))))"
  by (rule Battery_Voltage_Task_ok [OF assms])

definition three :: Ring_Buffer_F where
  "three = rb_push_back_F (rb_push_back_F (rb_push_back_F rb_zero_F 1) 2) 3"

lemma three_ok: "rb_wf 8 three" "rb_list 8 three = [1, 2, 3]"
  by (simp_all add: three_def rbF.deque.inv_push_back rbF.deque.abs_push_back)

definition battery_example :: battery where
  "battery_example = \<lparr>battery_filter = \<lparr>numerator = three, denominator = three, out_list = three, in_list = three\<rparr>, ADMUX = 0, ADCSRA = 0\<rparr>"

lemma battery_example_wf: "battery_wf battery_example"
  by (simp add: battery_wf_def battery_example_def filter_wf_def three_ok)

theorem Battery_monitor_witness:
  "\<exists>b'. Battery_Voltage_Task (Some 5) battery_example = Some (Battery_Voltage b', b')"
  using Battery_monitor [OF battery_example_wf, of 5] by blast

text \<open>C34 (functional). A read of one side counts the brightness levels at which the sensor answers, leaves the other
  side's count alone, switches the strobe off and restores the interrupt flag.\<close>

theorem IRRead_counts_levels:
  "m_nLEDProxyCountLeft (fst (IRRead LEFT env x r)) = hits env \<and> m_nLEDProxyCountRight (fst (IRRead LEFT env x r)) = m_nLEDProxyCountRight x \<and>
   m_nLEDProxyCountRight (fst (IRRead RIGHT env x r)) = hits env \<and> m_nLEDProxyCountLeft (fst (IRRead RIGHT env x r)) = m_nLEDProxyCountLeft x \<and>
   TCCR3B (fst (IRRead side env x r)) = 0 \<and> OCR3A (fst (IRRead side env x r)) = 0 \<and> SREG (snd (IRRead side env x r)) = SREG r \<and> hits env \<le> 2"
  by (simp add: IRRead_counts IRRead_regs hits_le)

text \<open>Initialising the gripper sets its duty cycle and shows the state on the green and blue lights; the
  closed test holds in either state.\<close>

theorem gripper_states:
  "OCR4A (fst (Servo_PWM_Init g s r)) = (if g = OPEN then 10 else 13) \<and>
   led_on GREEN (snd (Servo_PWM_Init g s r)) = (g = OPEN) \<and> led_on BLUE (snd (Servo_PWM_Init g s r)) = (g = CLOSE) \<and>
   led_on RED (snd (Servo_PWM_Init g s r)) = led_on RED r \<and> Servo_Is_Closed (fst (Servo_PWM_Init g s r))"
  by (cases g) (simp_all add: Servo_PWM_Init_ok Set_LEDs_on Servo_Is_Closed_def DUTY_CYCLE_MIN_def)

end
