(* ===== verification/Link_Properties.thy ===== *)
theory Link_Properties
  imports Serial_IO
begin

text \<open>The properties of the USB serial link.\<close>

section \<open>Messages\<close>

text \<open>C6 (roundtrip). A message that fits the send buffer is read back by the host's parser as the same format,
  command and data, with nothing left over: its first byte is the number of bytes that follow.\<close>

theorem usb_send_msg_roundtrip:
  assumes "usb_wf u" "0 \<notin> set f" "length d = unat n" "length (out_bytes u) + 3 + length f + length d \<le> 63"
  shows "read_frame (drop (length (out_bytes u)) (out_bytes (usb_send_msg f cmd d n u))) = Some ((f, cmd, d), [])"
proof -
  have "out_bytes (usb_send_msg f cmd d n u) = out_bytes u @ msg_frame f cmd d"
    using assms by (intro link.send_fits) auto
  then show ?thesis using read_frame_msg_frame [of f d cmd "[]"] assms(2,4) by simp
qed

lemma usb_zero_ok: "usb_wf usb_zero" "in_bytes usb_zero = []" "out_bytes usb_zero = []"
  by (simp_all add: usb_zero_def usb_wf_def in_bytes_def out_bytes_def)

theorem usb_send_msg_roundtrip_witness:
  "read_frame (out_bytes (usb_send_msg [99, 99] 47 [63] 1 usb_zero)) = Some (([99, 99], 47, [63]), [])"
  using usb_send_msg_roundtrip [of usb_zero "[99, 99]" "[63]" 1 47] usb_zero_ok by simp

text \<open>Reading an object off the receive buffer is all or nothing: with too few bytes it fails and
  leaves object and buffer alone, otherwise it takes exactly the object's bytes in order.\<close>

theorem usb_msg_read_into_all_or_nothing:
  assumes "usb_wf u" "length obj = unat n"
  shows "if length (in_bytes u) < unat n then usb_msg_read_into obj n u = (False, obj, u)
    else \<exists>v. usb_msg_read_into obj n u = (True, take (unat n) (in_bytes u), v) \<and>
      in_bytes v = drop (unat n) (in_bytes u) \<and> out_bytes v = out_bytes u \<and> usb_wf v"
proof (cases "length (in_bytes u) < unat n")
  case True
  then show ?thesis using usb_msg_read_into_short [OF assms(1)] by simp
next
  case False
  then obtain q where "usb_msg_read_into obj n u = (True, take (unat n) (in_bytes u), u\<lparr>usb_receive_buffer := q\<rparr>)"
    "rb_wf 64 q" "rb_list 64 q = drop (unat n) (in_bytes u)"
    using usb_msg_read_into_ok [OF assms(1) _ assms(2)] by auto
  then show ?thesis using False assms(1) by (auto simp: in_bytes_def out_bytes_def usb_wf_def)
qed

theorem usb_msg_read_into_all_or_nothing_witness: "usb_msg_read_into [0, 0] 2 usb_zero = (False, [0, 0], usb_zero)"
  using usb_msg_read_into_all_or_nothing [of usb_zero "[0, 0]" 2] usb_zero_ok by simp

section \<open>Moving bytes\<close>

text \<open>C17 (functional). A packet of \<open>n\<close> bytes takes \<open>n + 1\<close> calls of \<open>usb_read_next_byte\<close>: its bytes are appended to the
  receive buffer in order (dropped when the buffer was flushed meanwhile), then the endpoint is released
  and the flush is over.\<close>

theorem usb_read_packet:
  assumes "link_ok u" "UEINTX (eps u 2) AND RXOUTI \<noteq> 0" "bank (eps u 2) = p" "p \<noteq> []"
  shows "in_bytes ((usb_read_next_byte ^^ (length p + 1)) u) = (if clear_buffer u then in_bytes u else newest 63 (in_bytes u @ p)) \<and>
    UEINTX (eps ((usb_read_next_byte ^^ (length p + 1)) u) 2) AND RXOUTI = 0 \<and>
    \<not> clear_buffer ((usb_read_next_byte ^^ (length p + 1)) u) \<and> link_ok ((usb_read_next_byte ^^ (length p + 1)) u)"
  using read_packet [OF assms(1,2) _ assms(3)] assms(4) by blast

text \<open>A configured link with a packet waiting and the transmitter ready.\<close>

definition usb_example :: "byte list \<Rightarrow> usb" where
  "usb_example p = usb_zero\<lparr>USB_DeviceState := DEVICE_STATE_Configured,
     eps := (eps usb_zero)(1 := (eps usb_zero 1)\<lparr>UEINTX := 0x81, UECFG0X := 0x81\<rparr>,
       2 := (eps usb_zero 2)\<lparr>UEINTX := 0x84, UECFG0X := 0x80, bank := p\<rparr>)\<rparr>"

lemma usb_example_ok:
  "length p \<le> 16 \<Longrightarrow> link_ok (usb_example p)" "UEINTX (eps (usb_example p) 2) AND RXOUTI \<noteq> 0" "bank (eps (usb_example p) 2) = p"
  "UEINTX (eps (usb_example p) 0) AND RXSTPI = 0" "UEINTX (eps (usb_example p) 1) AND TXINI \<noteq> 0"
  "in_bytes (usb_example p) = []" "out_bytes (usb_example p) = []" "\<not> clear_buffer (usb_example p)" "\<not> reading (usb_example p)"
  "USB_DeviceState (usb_example p) = DEVICE_STATE_Configured"
  by (simp_all add: usb_example_def link_ok_def usb_zero_def usb_wf_def RXOUTI_def TXINI_def RXSTPI_def in_bytes_def out_bytes_def endpoint_zero_def)

theorem usb_read_packet_witness: "in_bytes ((usb_read_next_byte ^^ 3) (usb_example [116, 1])) = [116, 1]"
  using usb_read_packet [of "usb_example [116, 1]" "[116, 1]"] usb_example_ok [of "[116, 1]"] by (simp add: numeral_3_eq_3)

text \<open>C38 (error). When the first packet ever received is empty it is never acknowledged: no number of calls releases the
  endpoint, so nothing more is received.\<close>

theorem usb_first_empty_packet_blocks:
  assumes "link_ok u" "UEINTX (eps u 2) AND RXOUTI \<noteq> 0" "bank (eps u 2) = []" "\<not> reading u"
  shows "UEINTX (eps ((usb_read_next_byte ^^ n) u) 2) AND RXOUTI \<noteq> 0 \<and> in_bytes ((usb_read_next_byte ^^ n) u) = in_bytes u"
proof -
  have step: "usb_read_next_byte v = v\<lparr>UENUM := 2\<rparr>"
    if "link_ok v" "UEINTX (eps v 2) AND RXOUTI \<noteq> 0" "bank (eps v 2) = []" "\<not> reading v" for v
    using usb_read_next_byte_cases [OF that(1)] that(2-4) by (simp add: Let_def)
  have "(usb_read_next_byte ^^ n) u = u \<or> (usb_read_next_byte ^^ n) u = u\<lparr>UENUM := 2\<rparr>"
    by (induction n) (use step [of u] step [of "u\<lparr>UENUM := 2\<rparr>"] assms in auto)
  then show ?thesis using assms(2) by (auto simp: in_bytes_def)
qed

theorem usb_first_empty_packet_blocks_witness: "in_bytes ((usb_read_next_byte ^^ 1000) (usb_example [])) = []"
  using usb_first_empty_packet_blocks [of "usb_example []" 1000] usb_example_ok [of "[]"] by simp

text \<open>C18 (invariant). The upkeep task neither loses nor reorders outgoing bytes: what the host has taken followed by what
  is buffered stays the same stream, and when the transmitter is ready one buffered byte leaves.\<close>

theorem USB_Upkeep_keeps_stream:
  assumes "link_ok u" "UEINTX (eps u 0) AND RXSTPI = 0"
  shows "\<exists>v. USB_Upkeep_Task evs u = Some v \<and> link_ok v \<and> sent_bytes v @ out_bytes v = sent_bytes u @ out_bytes u \<and>
    length (out_bytes v) = length (out_bytes u) -
      of_bool (USB_DeviceState u = DEVICE_STATE_Configured \<and> UEINTX (eps u 1) AND TXINI \<noteq> 0)"
  by (rule USB_Upkeep_stream [OF assms])

theorem USB_Upkeep_keeps_stream_witness:
  "\<exists>v. USB_Upkeep_Task [] (usb_send_byte 5 (usb_example [])) = Some v \<and> sent_bytes v @ out_bytes v = [5]"
proof -
  have u: "link_ok (usb_send_byte 5 (usb_example []))" "UEINTX (eps (usb_send_byte 5 (usb_example [])) 0) AND RXSTPI = 0"
    "sent_bytes (usb_send_byte 5 (usb_example [])) = []" "out_bytes (usb_send_byte 5 (usb_example [])) = [5]"
    using usb_example_ok [of "[]"] out_bytes_push_all [of "usb_example []" "[5]"]
    by (simp_all add: usb_send_byte_push link_ok_def sent_bytes_def usb_example_def usb_zero_def endpoint_zero_def)
  show ?thesis using USB_Upkeep_keeps_stream [OF u(1,2), of "[]"] u(3,4) by auto
qed

text \<open>C39 (error). In the order in which the upkeep task calls them, the receive routine leaves the receiving endpoint selected,
  so with an empty send buffer the transmit routine tests the wrong endpoint: the closing empty packet is never sent
  and the \<open>sending\<close> flag stays set.\<close>

theorem usb_closing_packet_never_sent:
  assumes "link_ok u" "out_bytes u = []" "UEINTX (eps u 0) AND RXSTPI = 0"
  shows "\<exists>v. USB_Upkeep_Task evs u = Some v \<and> to_host (eps v 1) = to_host (eps u 1) \<and> sending v = sending u"
proof -
  obtain n where n: "USB_USBTask evs u = Some (u\<lparr>UENUM := n\<rparr>)" using USB_USBTask_idle [OF assms(3)] by blast
  have ok: "link_ok (u\<lparr>UENUM := n\<rparr>)" using assms(1) by simp
  let ?v = "usb_read_next_byte (u\<lparr>UENUM := n\<rparr>)"
  note v = usb_read_next_byte_frame [OF ok]
  have "out_bytes ?v = []" using v(3) assms(2) by (simp add: out_bytes_def)
  then have "usb_write_next_byte ?v = ?v" using usb_write_next_byte_idle v by blast
  moreover have "sending ?v = sending u"
    using usb_read_next_byte_cases [OF ok] by (auto simp: Let_def split: list.splits)
  ultimately show ?thesis using v(2) by (simp add: USB_Upkeep_Task_def n Let_def)
qed

theorem usb_closing_packet_never_sent_witness:
  "\<exists>v. USB_Upkeep_Task [] ((usb_example [])\<lparr>sending := True\<rparr>) = Some v \<and> sending v"
proof -
  have "link_ok ((usb_example [])\<lparr>sending := True\<rparr>)" "out_bytes ((usb_example [])\<lparr>sending := True\<rparr>) = []"
    "UEINTX (eps ((usb_example [])\<lparr>sending := True\<rparr>) 0) AND RXSTPI = 0"
    using usb_example_ok [of "[]"] by (simp_all add: link_ok_def usb_wf_def out_bytes_def)
  then show ?thesis using usb_closing_packet_never_sent [of "(usb_example [])\<lparr>sending := True\<rparr>" "[]"] by auto
qed

end
