(* ===== verification/Usb_Control.thy ===== *)
theory Usb_Control
  imports Usb_Config
begin

text \<open>
  Control transfers. While endpoint 0 is selected every function of the control stream acts on that
  endpoint alone, so the state is written \<open>at0 e n u\<close>: \<open>u\<close> with endpoint 0 in state \<open>e\<close> and frame number \<open>n\<close>.
\<close>

section \<open>The control endpoint\<close>

definition at0 :: "endpoint \<Rightarrow> uint16 \<Rightarrow> usb \<Rightarrow> usb" where
  "at0 e n u = u\<lparr>eps := (eps u)(0 := e), UDFNUM := n\<rparr>"

lemma at0_self: "u = at0 (eps u 0) (UDFNUM u) u"
  by (simp add: at0_def)

lemma at0_simps [simp]:
  "at0 e n (at0 e' n' u) = at0 e n u" "eps (at0 e n u) 0 = e" "UENUM (at0 e n u) = UENUM u"
  "USB_DeviceState (at0 e n u) = USB_DeviceState u" "USB_ControlRequest (at0 e n u) = USB_ControlRequest u"
  "LineEncoding1 (at0 e n u) = LineEncoding1 u" "UDFNUM (at0 e n u) = n"
  "m \<noteq> 0 \<Longrightarrow> eps (at0 e n u) m = eps u m" "driver (at0 e n u) = driver u"
  "USB_Device_ConfigurationNumber (at0 e n u) = USB_Device_ConfigurationNumber u" "UDADDR (at0 e n u) = UDADDR u"
  by (simp_all add: at0_def driver_def)

lemma at0_updates:
  "(at0 e n u)\<lparr>LineEncoding1 := l\<rparr> = at0 e n (u\<lparr>LineEncoding1 := l\<rparr>)"
  "(at0 e n u)\<lparr>USB_DeviceState := s\<rparr> = at0 e n (u\<lparr>USB_DeviceState := s\<rparr>)"
  "(at0 e n u)\<lparr>USB_ControlRequest := r\<rparr> = at0 e n (u\<lparr>USB_ControlRequest := r\<rparr>)"
  "(at0 e n u)\<lparr>USB_Device_ConfigurationNumber := k\<rparr> = at0 e n (u\<lparr>USB_Device_ConfigurationNumber := k\<rparr>)"
  "(at0 e n u)\<lparr>UDADDR := a\<rparr> = at0 e n (u\<lparr>UDADDR := a\<rparr>)"
  "(at0 e n u)\<lparr>UENUM := m\<rparr> = at0 e n (u\<lparr>UENUM := m\<rparr>)"
  by (simp_all add: at0_def)

text \<open>Endpoint 0 is selected and is a control endpoint.\<close>

definition selected0 :: "usb \<Rightarrow> bool" where
  "selected0 u \<longleftrightarrow> UENUM u = 0"

lemma cur_at0 [simp]: "UENUM u = 0 \<Longrightarrow> cur (at0 e n u) = e" "UENUM u = 0 \<Longrightarrow> set_cur e' (at0 e n u) = at0 e' n u"
  by (simp_all add: cur_def set_cur_def at0_def)

text \<open>The flags of the endpoint.\<close>

abbreviation txin :: "endpoint \<Rightarrow> bool" where "txin e \<equiv> UEINTX e AND TXINI \<noteq> 0"
abbreviation rxout :: "endpoint \<Rightarrow> bool" where "rxout e \<equiv> UEINTX e AND RXOUTI \<noteq> 0"
abbreviation rxstp :: "endpoint \<Rightarrow> bool" where "rxstp e \<equiv> UEINTX e AND RXSTPI \<noteq> 0"

lemma flags_bits: "w AND TXINI = 0 \<longleftrightarrow> \<not> bit w 0" "w AND RXOUTI = 0 \<longleftrightarrow> \<not> bit w 2" "w AND RXSTPI = 0 \<longleftrightarrow> \<not> bit w 3"
  by (simp_all add: TXINI_def RXOUTI_def RXSTPI_def eq8 bit_simps)

lemma flag_powers: "TXINI = 2 ^ 0" "RXOUTI = 2 ^ 2" "RXSTPI = 2 ^ 3" "FIFOCON = 2 ^ 7"
  by (simp_all add: TXINI_def RXOUTI_def RXSTPI_def FIFOCON_def)

lemma masks_nonzero [simp]: "TXINI \<noteq> 0" "RXOUTI \<noteq> 0" "RXSTPI \<noteq> 0" "FIFOCON \<noteq> 0"
  by (simp_all add: TXINI_def RXOUTI_def RXSTPI_def FIFOCON_def)

lemma mask_bits: "bit TXINI k = (k = 0)" "bit RXOUTI k = (k = 2)" "bit RXSTPI k = (k = 3)" "bit FIFOCON k = (k = 7)"
  unfolding flag_powers bit_exp_iff by auto

lemma flag_masks:
  "bit (w OR TXINI) k = (bit w k \<or> k = 0)" "bit (w OR RXOUTI) k = (bit w k \<or> k = 2)" "bit (w OR RXSTPI) k = (bit w k \<or> k = 3)"
  "bit (w AND NOT (TXINI OR FIFOCON)) k = (bit w k \<and> k \<noteq> 0 \<and> k \<noteq> 7)"
  "bit (w AND NOT (RXOUTI OR FIFOCON)) k = (bit w k \<and> k \<noteq> 2 \<and> k \<noteq> 7)"
  "bit (w AND NOT RXSTPI) k = (bit w k \<and> k \<noteq> 3)"
  for w :: uint8
  using bit_imp_le_length [of w k] by (auto simp: mask_bits bit_simps)

section \<open>Operations on the control endpoint\<close>

lemma control_ops:
  assumes "UENUM u = 0"
  shows "Endpoint_IsINReady (at0 e n u) = txin e" "Endpoint_IsOUTReceived (at0 e n u) = rxout e"
    "Endpoint_IsSETUPReceived (at0 e n u) = rxstp e"
    "Endpoint_ClearSETUP (at0 e n u) = at0 (e\<lparr>UEINTX := UEINTX e AND NOT RXSTPI, bank := []\<rparr>) n u"
    "is_control e \<Longrightarrow> Endpoint_ClearIN (at0 e n u) =
      at0 (e\<lparr>UEINTX := UEINTX e AND NOT (TXINI OR FIFOCON), bank := [], to_host := to_host e @ [bank e]\<rparr>) n u"
    "is_control e \<Longrightarrow> Endpoint_ClearOUT (at0 e n u) =
      at0 (e\<lparr>UEINTX := UEINTX e AND NOT (RXOUTI OR FIFOCON), bank := []\<rparr>) n u"
    "Endpoint_Write_8 b (at0 e n u) = at0 (e\<lparr>bank := bank e @ [b]\<rparr>) n u"
    "Endpoint_BytesInEndpoint (at0 e n u) = of_nat (length (bank e))"
    "Endpoint_StallTransaction (at0 e n u) = at0 (e\<lparr>UECONX := UECONX e OR STALLRQ\<rparr>) n u"
    "USB_INT_Disable USB_INT_RXSTPI (at0 e n u) = at0 (e\<lparr>UEIENX := UEIENX e AND NOT RXSTPE\<rparr>) n u"
    "USB_INT_Enable USB_INT_RXSTPI (at0 e n u) = at0 (e\<lparr>UEIENX := UEIENX e OR RXSTPE\<rparr>) n u"
    "Endpoint_Read_8 (at0 (e\<lparr>bank := b # bs\<rparr>) n u) = (b, at0 (e\<lparr>bank := bs\<rparr>) n u)"
  using assms
  by (simp_all add: Endpoint_IsINReady_def Endpoint_IsOUTReceived_def Endpoint_IsSETUPReceived_def Endpoint_ClearSETUP_def
      Endpoint_ClearIN_def Endpoint_ClearOUT_def Endpoint_Write_8_def Endpoint_BytesInEndpoint_def Endpoint_StallTransaction_def
      Endpoint_Read_8_def free_bank_def send_bank_def is_control_def Let_def)

lemma bus_ops:
  "bus_step (IN_token 0) (at0 e n u) = Some (at0 (e\<lparr>UEINTX := UEINTX e OR TXINI\<rparr>) n u)"
  "bus_step Frame (at0 e n u) = Some (at0 e (n + 1) u)"
  "\<not> rxout e \<Longrightarrow> bus_step (OUT_packet 0 d) (at0 e n u) = Some (at0 (e\<lparr>UEINTX := UEINTX e OR RXOUTI, bank := d\<rparr>) n u)"
  "bus_step (SETUP_packet d) (at0 e n u) =
     Some (at0 (e\<lparr>UEINTX := UEINTX e OR RXSTPI, UECONX := UECONX e AND NOT STALLRQ, bank := d\<rparr>) n u)"
  by (simp_all add: set_ep_def at0_def)

text \<open>Events while the device waits: nothing, the host takes a packet of endpoint 0, a frame begins.\<close>

definition polls :: "bus_event \<Rightarrow> bool" where
  "polls ev \<longleftrightarrow> ev = Idle \<or> ev = IN_token 0 \<or> ev = Frame"

definition ready_after :: "bus_event \<Rightarrow> endpoint \<Rightarrow> endpoint" where
  "ready_after ev e = (if ev = IN_token 0 then e\<lparr>UEINTX := UEINTX e OR TXINI\<rparr> else e)"

lemma polls_step: "polls ev \<Longrightarrow> \<exists>m. bus_step ev (at0 e n u) = Some (at0 (ready_after ev e) m u)"
  unfolding polls_def ready_after_def
  by (elim disjE) (simp_all only: bus_ops bus_step.simps(1) simp_thms if_True if_False bus_event.distinct option.inject, blast+)

text \<open>The control endpoint while a transfer runs.\<close>

definition in_transfer :: "endpoint \<Rightarrow> bool" where
  "in_transfer e \<longleftrightarrow> is_control e \<and> \<not> rxstp e \<and> \<not> rxout e \<and> bank e = []"

lemma in_transfer_ready [simp]:
  "in_transfer e \<Longrightarrow> in_transfer (ready_after ev e)" "to_host (ready_after ev e) = to_host e" "bank (ready_after ev e) = bank e"
  "UEIENX (ready_after ev e) = UEIENX e" "UECONX (ready_after ev e) = UECONX e" "is_control (ready_after ev e) = is_control e"
  "UEINTX (ready_after (IN_token 0) e) AND TXINI \<noteq> 0" "UEINTX e AND RXOUTI = 0 \<Longrightarrow> UEINTX (ready_after ev e) AND RXOUTI = 0"
  "UEINTX e AND RXSTPI = 0 \<Longrightarrow> UEINTX (ready_after ev e) AND RXSTPI = 0"
  by (auto simp: in_transfer_def ready_after_def is_control_def flags_bits flag_masks)

lemma ready_after_UEINTX [simp]: "(ready_after ev e)\<lparr>UEINTX := i\<rparr> = e\<lparr>UEINTX := i\<rparr>"
  by (simp add: ready_after_def)

definition attached :: "usb \<Rightarrow> bool" where
  "attached u \<longleftrightarrow> USB_DeviceState u \<noteq> DEVICE_STATE_Unattached \<and> USB_DeviceState u \<noteq> DEVICE_STATE_Suspended"

lemma attached_at0 [simp]: "attached (at0 e n u) = attached u"
  by (simp add: attached_def)

lemma control_error_at0: "UENUM u = 0 \<Longrightarrow> attached u \<Longrightarrow> control_error (at0 e n u) = (if rxstp e then Some ENDPOINT_RWCSTREAM_HostAborted else None)"
  by (simp add: control_error_def attached_def control_ops)

section \<open>Writing a control stream\<close>

text \<open>The packets of a transfer: eight bytes each, the last one whatever is left.\<close>

fun chunks :: "byte list \<Rightarrow> byte list list" where
  "chunks d = (if d = [] then [] else take 8 d # chunks (drop 8 d))"

declare chunks.simps [simp del]

lemma chunks_Nil [simp]: "chunks [] = []"
  by (simp add: chunks.simps)

lemma concat_chunks [simp]: "concat (chunks d) = d"
  by (induction d rule: chunks.induct) (subst chunks.simps, simp)

lemma length_chunk: "p \<in> set (chunks d) \<Longrightarrow> length p \<le> 8"
  by (induction d rule: chunks.induct) (subst (asm) (2) chunks.simps, auto split: if_splits)

lemma fill_bank_at0:
  assumes "UENUM u = 0" "length (bank e) \<le> 8"
  shows "fill_bank d (of_nat (length (bank e))) (at0 e n u) =
    (drop (8 - length (bank e)) d, of_nat (min 8 (length (bank e) + length d)), at0 (e\<lparr>bank := bank e @ take (8 - length (bank e)) d\<rparr>) n u)"
  using assms(2)
proof (induction d arbitrary: e)
  case (Cons b d)
  have lt: "(of_nat (length (bank e)) :: uint16) < CONTROL_ENDPOINT_SIZE \<longleftrightarrow> length (bank e) < 8"
    using Cons.prems by (simp add: word_less_nat_alt CONTROL_ENDPOINT_SIZE_def unat_of_nat take_bit_eq_mod)
  show ?case
  proof (cases "length (bank e) < 8")
    case True
    then obtain k where k: "8 - length (bank e) = Suc k" "8 - Suc (length (bank e)) = k" by (cases "8 - length (bank e)") auto
    show ?thesis using Cons.IH [of "e\<lparr>bank := bank e @ [b]\<rparr>"] True lt k assms(1)
      by (simp add: control_ops add.commute)
  next
    case False
    then show ?thesis using lt Cons.prems by simp
  qed
qed simp

text \<open>One iteration of the writing loop.\<close>

lemma control_write_step:
  assumes "UENUM u = 0" "attached u" "in_transfer e" "polls ev" "d \<noteq> [] \<or> full"
  shows "\<exists>m. control_write d full (ev # evs) (at0 e n u) =
    (if txin (ready_after ev e) then control_write (drop 8 d) (8 \<le> length d) evs
       (at0 (e\<lparr>UEINTX := UEINTX (ready_after ev e) AND NOT (TXINI OR FIFOCON), to_host := to_host e @ [take 8 d]\<rparr>) m u)
     else control_write d full evs (at0 (ready_after ev e) m u))"
proof -
  obtain m where m: "bus_step ev (at0 e n u) = Some (at0 (ready_after ev e) m u)" using polls_step [OF assms(4)] by blast
  let ?e = "ready_after ev e"
  have e: "in_transfer ?e" "bank ?e = []" using assms(3) by (simp_all add: in_transfer_def)
  have f: "fill_bank d 0 (at0 ?e m u) = (drop 8 d, of_nat (min 8 (length d)), at0 (?e\<lparr>bank := take 8 d\<rparr>) m u)"
    using fill_bank_at0 [OF assms(1), of ?e d m] e(2) by simp
  have full: "((of_nat (min 8 (length d)) :: uint16) = CONTROL_ENDPOINT_SIZE) = (8 \<le> length d)"
    by (auto simp: min_def CONTROL_ENDPOINT_SIZE_def word_unat_eq_iff unat_of_nat take_bit_eq_mod)
  have c: "Endpoint_ClearIN (at0 (?e\<lparr>bank := take 8 d\<rparr>) m u) =
      at0 (e\<lparr>UEINTX := UEINTX ?e AND NOT (TXINI OR FIFOCON), to_host := to_host e @ [take 8 d]\<rparr>) m u"
    using e(1) assms(1,3) by (cases e) (auto simp: control_ops in_transfer_def is_control_def ready_after_def)
  show ?thesis using assms(1,2,5) e
    by (intro exI [of _ m]) (auto simp: m control_error_at0 control_ops in_transfer_def f full c)
qed

text \<open>Waiting for the status packet.\<close>

lemma control_status_ok:
  assumes "UENUM u = 0" "attached u" "in_transfer e" "list_all polls evs"
  shows "\<exists>m i. control_status (evs @ OUT_packet 0 x # rest) (at0 e n u) =
    Some (ENDPOINT_RWCSTREAM_NoError, at0 (e\<lparr>UEINTX := i, bank := x\<rparr>) m u, rest) \<and> i AND RXOUTI \<noteq> 0 \<and> i AND RXSTPI = 0"
  using assms(3,4)
proof (induction evs arbitrary: e n)
  case Nil
  let ?i = "UEINTX e OR RXOUTI"
  have "?i AND RXOUTI \<noteq> 0" "?i AND RXSTPI = 0" using Nil(1) by (simp_all add: in_transfer_def flags_bits flag_masks)
  moreover have "control_status (OUT_packet 0 x # rest) (at0 e n u) = control_status rest (at0 (e\<lparr>UEINTX := ?i, bank := x\<rparr>) n u)"
    using Nil(1) assms(1,2) by (simp add: control_ops control_error_at0 in_transfer_def bus_ops del: bus_step.simps)
  ultimately show ?case using assms(1)
    by (intro exI [of _ n] exI [of _ ?i]) (cases rest; simp add: control_ops)
next
  case (Cons ev evs)
  obtain m where m: "bus_step ev (at0 e n u) = Some (at0 (ready_after ev e) m u)" using polls_step Cons.prems(2) by fastforce
  have "control_status (ev # evs @ OUT_packet 0 x # rest) (at0 e n u) = control_status (evs @ OUT_packet 0 x # rest) (at0 (ready_after ev e) m u)"
    using Cons.prems(1) assms(1,2) by (simp add: m control_ops control_error_at0 in_transfer_def del: bus_step.simps)
  then show ?case using Cons.IH [of "ready_after ev e" m] Cons.prems by (simp del: control_status.simps)
qed

text \<open>The loops of \<open>Endpoint_Write_Control_Stream_LE\<close>, started with the data left to send.\<close>

definition write_stream :: "byte list \<Rightarrow> bool \<Rightarrow> bus_event list \<Rightarrow> usb
    \<Rightarrow> (Endpoint_ControlStream_RW_ErrorCodes_t \<times> usb \<times> bus_event list) option" where
  "write_stream d full evs u = do {
     (e, u, evs) \<leftarrow> control_write d full evs u;
     case e of Some e \<Rightarrow> Some (e, u, evs) | None \<Rightarrow> control_status evs u }"

lemma write_stream_done: "write_stream [] False evs u = control_status evs u"
  by (cases evs) (simp_all add: write_stream_def)

text \<open>
  The host takes as many packets as there are chunks, then sends its status packet: it has got the data,
  followed by an empty packet at most.
\<close>

lemma write_stream_ok:
  assumes "UENUM u = 0" "attached u" "in_transfer e" "list_all polls evs" "length (chunks d) \<le> count_list evs (IN_token 0)"
  shows "\<exists>m i z. write_stream d full (evs @ OUT_packet 0 x # rest) (at0 e n u) = Some (ENDPOINT_RWCSTREAM_NoError,
      at0 (e\<lparr>UEINTX := i, bank := x, to_host := to_host e @ chunks d @ z\<rparr>) m u, rest) \<and>
    (z = [] \<or> z = [[]] \<and> (d \<noteq> [] \<or> full)) \<and> i AND RXOUTI \<noteq> 0 \<and> i AND RXSTPI = 0"
  using assms(3-5)
proof (induction evs arbitrary: d full e n)
  case Nil
  then have d: "d = []" by (cases d) (simp_all add: chunks.simps [of "_ # _"])
  let ?e = "e\<lparr>UEINTX := UEINTX e OR RXOUTI, bank := x\<rparr>"
  show ?case
  proof (cases full)
    case False
    obtain m i where "control_status ([] @ OUT_packet 0 x # rest) (at0 e n u) =
      Some (ENDPOINT_RWCSTREAM_NoError, at0 (e\<lparr>UEINTX := i, bank := x\<rparr>) m u, rest)" "i AND RXOUTI \<noteq> 0" "i AND RXSTPI = 0"
      using control_status_ok [OF assms(1,2) Nil(1), of "[]" x rest n] by auto
    then show ?thesis using False d
      by (intro exI [of _ m] exI [of _ i] exI [of _ "[]"]) (simp add: write_stream_done del: control_status.simps)
  next
    case True
    have "write_stream d full (OUT_packet 0 x # rest) (at0 e n u) = control_status rest (at0 ?e n u)"
      using True d Nil(1) assms(1,2)
      by (simp add: write_stream_def bus_ops control_error_at0 control_ops in_transfer_def flags_bits flag_masks del: bus_step.simps)
    then show ?thesis using d Nil(1) assms(1)
      by (intro exI [of _ n] exI [of _ "UEINTX e OR RXOUTI"] exI [of _ "[]"])
        (cases rest; simp add: control_ops in_transfer_def flags_bits flag_masks)
  qed
next
  case (Cons ev evs)
  show ?case
  proof (cases "d = [] \<and> \<not> full")
    case True
    obtain m i where "control_status ((ev # evs) @ OUT_packet 0 x # rest) (at0 e n u) =
      Some (ENDPOINT_RWCSTREAM_NoError, at0 (e\<lparr>UEINTX := i, bank := x\<rparr>) m u, rest)" "i AND RXOUTI \<noteq> 0" "i AND RXSTPI = 0"
      using control_status_ok [OF assms(1,2) Cons.prems(1,2), of x rest n] by auto
    then show ?thesis using True
      by (intro exI [of _ m] exI [of _ i] exI [of _ "[]"]) (simp add: write_stream_done del: control_status.simps)
  next
    case False
    let ?r = "ready_after ev e"
    obtain m where m: "control_write d full (ev # evs @ OUT_packet 0 x # rest) (at0 e n u) =
      (if txin ?r then control_write (drop 8 d) (8 \<le> length d) (evs @ OUT_packet 0 x # rest)
         (at0 (e\<lparr>UEINTX := UEINTX ?r AND NOT (TXINI OR FIFOCON), to_host := to_host e @ [take 8 d]\<rparr>) m u)
       else control_write d full (evs @ OUT_packet 0 x # rest) (at0 ?r m u))"
      using control_write_step [OF assms(1,2) Cons.prems(1), of ev d full "evs @ OUT_packet 0 x # rest" n] Cons.prems(2) False
      by (auto simp del: control_write.simps)
    show ?thesis
    proof (cases "txin ?r")
      case False
      then have ne: "ev \<noteq> IN_token 0" by auto
      then show ?thesis using Cons.IH [of ?r d full m] Cons.prems False m by (simp add: write_stream_def del: control_write.simps)
    next
      case True
      let ?e = "e\<lparr>UEINTX := UEINTX ?r AND NOT (TXINI OR FIFOCON), to_host := to_host e @ [take 8 d]\<rparr>"
      have "in_transfer ?e" using Cons.prems(1) in_transfer_ready(1) [OF Cons.prems(1), of ev]
        by (auto simp: in_transfer_def is_control_def flags_bits ready_after_def bit_simps mask_bits)
      moreover have "length (chunks (drop 8 d)) \<le> count_list evs (IN_token 0)"
        using Cons.prems(3) chunks.simps [of d] by (auto split: if_splits)
      ultimately obtain m' i z where z: "write_stream (drop 8 d) (8 \<le> length d) (evs @ OUT_packet 0 x # rest) (at0 ?e m u) =
          Some (ENDPOINT_RWCSTREAM_NoError, at0 (?e\<lparr>UEINTX := i, bank := x, to_host := to_host ?e @ chunks (drop 8 d) @ z\<rparr>) m' u, rest)"
        "z = [] \<or> z = [[]] \<and> (drop 8 d \<noteq> [] \<or> 8 \<le> length d)" "i AND RXOUTI \<noteq> 0" "i AND RXSTPI = 0"
        using Cons.IH [of ?e "drop 8 d" "8 \<le> length d" m] Cons.prems(2) by auto
      have w: "write_stream d full ((ev # evs) @ OUT_packet 0 x # rest) (at0 e n u) =
          Some (ENDPOINT_RWCSTREAM_NoError, at0 (e\<lparr>UEINTX := i, bank := x, to_host := to_host e @ take 8 d # chunks (drop 8 d) @ z\<rparr>) m' u, rest)"
        using z(1) True by (simp add: write_stream_def m del: control_write.simps)
      show ?thesis
      proof (cases "d = []")
        case True
        then have "z = []" "full" using z(2) False by auto
        then show ?thesis using w z(3,4) True by (intro exI [of _ m'] exI [of _ i] exI [of _ "[[]]"]) simp
      next
        case False
        then have "chunks d = take 8 d # chunks (drop 8 d)" by (simp add: chunks.simps)
        then show ?thesis using w z(2-4) False by (intro exI [of _ m'] exI [of _ i] exI [of _ z]) auto
      qed
    qed
  qed
qed

lemma Write_Control_Stream_ok:
  assumes "UENUM u = 0" "attached u" "in_transfer e" "list_all polls evs" "d \<noteq> []"
    "length (chunks (take (unat (wLength (USB_ControlRequest u))) d)) \<le> count_list evs (IN_token 0)"
  shows "\<exists>m i z. Endpoint_Write_Control_Stream_LE d (evs @ OUT_packet 0 x # rest) (at0 e n u) = Some (ENDPOINT_RWCSTREAM_NoError,
      at0 (e\<lparr>UEINTX := i, bank := x, to_host := to_host e @ chunks (take (unat (wLength (USB_ControlRequest u))) d) @ z\<rparr>) m u, rest) \<and>
    (z = [] \<or> z = [[]]) \<and> i AND RXOUTI \<noteq> 0 \<and> i AND RXSTPI = 0"
proof -
  have "Endpoint_Write_Control_Stream_LE d (evs @ OUT_packet 0 x # rest) (at0 e n u) =
      write_stream (take (unat (wLength (USB_ControlRequest u))) d) False (evs @ OUT_packet 0 x # rest) (at0 e n u)"
    using assms(5) by (simp add: Endpoint_Write_Control_Stream_LE_def write_stream_def)
  then show ?thesis using write_stream_ok [OF assms(1-4,6), of False x rest n] by auto
qed

section \<open>Reading a control stream\<close>

lemma drain_bank_at0:
  assumes "UENUM u = 0" "length (bank e) \<le> k" "length (bank e) < 2 ^ 16"
  shows "drain_bank k (at0 e n u) = (bank e, k - length (bank e), at0 (e\<lparr>bank := []\<rparr>) n u)"
  using assms(2,3)
proof (induction k arbitrary: e)
  case 0
  then have e: "e\<lparr>bank := []\<rparr> = e" by (cases e) simp
  show ?case using 0 by (simp add: e)
next
  case (Suc k)
  have ne: "(of_nat (length (bank e)) :: uint16) \<noteq> 0 \<longleftrightarrow> bank e \<noteq> []"
    using Suc.prems(2) by (auto simp: word_unat_eq_iff unat_of_nat take_bit_eq_mod simp del: unat_eq_zero)
  show ?case
  proof (cases "bank e")
    case Nil
    then have e: "e\<lparr>bank := []\<rparr> = e" by (cases e) simp
    show ?thesis using Nil assms(1) by (simp add: control_ops e)
  next
    case (Cons b bs)
    then have "e = e\<lparr>bank := b # bs\<rparr>" by (cases e) simp
    then have "Endpoint_Read_8 (at0 e n u) = (b, at0 (e\<lparr>bank := bs\<rparr>) n u)"
      using control_ops(12) [OF assms(1), of b bs e n] by simp
    then show ?thesis using Cons Suc.IH [of "e\<lparr>bank := bs\<rparr>"] Suc.prems ne assms(1) by (simp add: control_ops)
  qed
qed

lemma wait_IN_ok:
  assumes "UENUM u = 0" "list_all polls evs" "IN_token 0 \<in> set evs" "\<And>e m. Q (at0 e m u) = txin e"
  shows "\<exists>m i evs'. wait_until Q (evs @ rest) (at0 e n u) = Some (at0 (e\<lparr>UEINTX := i\<rparr>) m u, evs' @ rest) \<and>
    i AND TXINI \<noteq> 0 \<and> (i = UEINTX e \<or> i = UEINTX e OR TXINI) \<and> list_all polls evs'"
  using assms(2,3)
proof (induction evs arbitrary: n)
  case (Cons ev evs)
  show ?case
  proof (cases "txin e")
    case True
    then show ?thesis using Cons.prems assms(4)
      by (intro exI [of _ n] exI [of _ "UEINTX e"] exI [of _ "ev # evs"]) simp
  next
    case False
    obtain m where m: "bus_step ev (at0 e n u) = Some (at0 (ready_after ev e) m u)" using polls_step Cons.prems(1) by fastforce
    then have w: "wait_until Q ((ev # evs) @ rest) (at0 e n u) = wait_until Q (evs @ rest) (at0 (ready_after ev e) m u)"
      using False assms(4) by simp
    show ?thesis
    proof (cases "ev = IN_token 0")
      case True
      have "wait_until Q (evs @ rest) (at0 (ready_after ev e) m u) = Some (at0 (ready_after ev e) m u, evs @ rest)"
        using assms(4) True by (cases "evs @ rest") (simp_all)
      then show ?thesis using Cons.prems(1) True w
        by (intro exI [of _ m] exI [of _ "UEINTX e OR TXINI"] exI [of _ evs]) (simp add: ready_after_def)
    next
      case False
      then show ?thesis using Cons.IH [of m] Cons.prems w by (simp add: ready_after_def)
    qed
  qed
qed simp

lemma bank_UEINTX: "e\<lparr>bank := b, UEINTX := i\<rparr> = e\<lparr>UEINTX := i, bank := b\<rparr>"
  by (cases e) simp

lemma control_read_0: "control_read 0 evs u = Some ([], None, u, evs)"
  by (cases evs) simp_all

lemma control_read_ok:
  assumes "UENUM u = 0" "attached u" "in_transfer e" "list_all polls evs" "0 < length d" "length d < 2 ^ 16"
  shows "\<exists>m i. control_read (length d) (evs @ OUT_packet 0 d # rest) (at0 e n u) = Some (d, None, at0 (e\<lparr>UEINTX := i, bank := []\<rparr>) m u, rest) \<and>
    i AND RXOUTI = 0 \<and> i AND RXSTPI = 0"
  using assms(3,4)
proof (induction evs arbitrary: e n)
  case Nil
  let ?e = "e\<lparr>UEINTX := UEINTX e OR RXOUTI, bank := d\<rparr>" and ?i = "(UEINTX e OR RXOUTI) AND NOT (RXOUTI OR FIFOCON)"
  have e: "is_control ?e" "is_control (?e\<lparr>bank := []\<rparr>)" "\<not> rxout e" "\<not> rxstp ?e" "rxout ?e" "?i AND RXOUTI = 0" "?i AND RXSTPI = 0"
    using Nil(1) by (simp_all add: in_transfer_def is_control_def flags_bits bit_simps mask_bits)
  have d: "drain_bank (length d) (at0 ?e n u) = (d, 0, at0 (?e\<lparr>bank := []\<rparr>) n u)"
    using drain_bank_at0 [OF assms(1), of ?e "length d" n] assms(6) by simp
  have "control_read (length d) (OUT_packet 0 d # rest) (at0 e n u) = Some (d, None, Endpoint_ClearOUT (at0 (?e\<lparr>bank := []\<rparr>) n u), rest)"
    using assms(1,2,5) e(3-5) d
    by (simp add: bus_ops control_error_at0 control_ops(2,3) control_read_0 del: bus_step.simps endpoint.update_convs)
  then show ?case using control_ops(6) [OF assms(1) e(2), of n] e(6,7)
    by (intro exI [of _ n] exI [of _ ?i]) simp
next
  case (Cons ev evs)
  obtain m where m: "bus_step ev (at0 e n u) = Some (at0 (ready_after ev e) m u)" using polls_step Cons.prems(2) by fastforce
  have "in_transfer (ready_after ev e)" using Cons.prems(1) by simp
  then have "control_read (length d) (ev # evs @ OUT_packet 0 d # rest) (at0 e n u) =
      control_read (length d) (evs @ OUT_packet 0 d # rest) (at0 (ready_after ev e) m u)"
    using assms(1,2,5) by (simp add: m control_ops control_error_at0 in_transfer_def del: bus_step.simps)
  then show ?case using Cons.IH [of "ready_after ev e" m] Cons.prems by (simp del: control_read.simps)
qed

lemma Read_Control_Stream_ok:
  assumes "UENUM u = 0" "attached u" "in_transfer e" "list_all polls evs" "0 < length d" "length d < 2 ^ 16"
    "list_all polls evs2" "IN_token 0 \<in> set evs2"
  shows "\<exists>m i evs'. Endpoint_Read_Control_Stream_LE (length d) (evs @ OUT_packet 0 d # evs2 @ rest) (at0 e n u) =
      Some (d, ENDPOINT_RWCSTREAM_NoError, at0 (e\<lparr>UEINTX := i, bank := []\<rparr>) m u, evs' @ rest) \<and>
    i AND RXOUTI = 0 \<and> i AND RXSTPI = 0 \<and> list_all polls evs'"
proof -
  obtain m i where r: "control_read (length d) (evs @ OUT_packet 0 d # evs2 @ rest) (at0 e n u) =
      Some (d, None, at0 (e\<lparr>UEINTX := i, bank := []\<rparr>) m u, evs2 @ rest)" "i AND RXOUTI = 0" "i AND RXSTPI = 0"
    using control_read_ok [OF assms(1-6), of "evs2 @ rest" n] by auto
  let ?Q = "\<lambda>u. Endpoint_IsINReady u \<or> control_in_error u \<noteq> None"
  have "?Q (at0 e m u) = txin e" for e m using assms(1,2) by (simp add: control_ops control_in_error_def attached_def)
  then obtain m' i' evs' where w: "wait_until ?Q (evs2 @ rest) (at0 (e\<lparr>UEINTX := i, bank := []\<rparr>) m u) =
      Some (at0 (e\<lparr>UEINTX := i', bank := []\<rparr>) m' u, evs' @ rest)" "i' AND TXINI \<noteq> 0" "i' = i \<or> i' = i OR TXINI" "list_all polls evs'"
    using wait_IN_ok [OF assms(1,7,8), of ?Q rest "e\<lparr>UEINTX := i, bank := []\<rparr>" m] by (auto simp: bank_UEINTX)
  then have "i' AND RXOUTI = 0" "i' AND RXSTPI = 0" using r(2,3) by (auto simp: flags_bits bit_simps mask_bits)
  then show ?thesis using r(1) w assms(1,5) by (auto simp: Endpoint_Read_Control_Stream_LE_def control_ops)
qed

section \<open>The status stage of a request without data\<close>

lemma ClearStatusStage_IN:
  assumes "UENUM u = 0" "attached u" "is_control e" "list_all polls evs" "IN_token 0 \<in> set evs"
    "bmRequestType (USB_ControlRequest u) AND 0x80 = 0"
  shows "\<exists>m i evs'. Endpoint_ClearStatusStage (evs @ rest) (at0 e n u) =
      Some (at0 (e\<lparr>UEINTX := i, bank := [], to_host := to_host e @ [bank e]\<rparr>) m u, evs' @ rest) \<and>
    (\<forall>k \<noteq> 0. k \<noteq> 7 \<longrightarrow> bit i k = bit (UEINTX e) k) \<and> list_all polls evs'"
proof -
  let ?Q = "\<lambda>u. Endpoint_IsINReady u \<or> USB_DeviceState u = DEVICE_STATE_Unattached"
  have "?Q (at0 e m u) = txin e" for e m using assms(1,2) by (simp add: control_ops attached_def)
  then obtain m i evs' where w: "wait_until ?Q (evs @ rest) (at0 e n u) = Some (at0 (e\<lparr>UEINTX := i\<rparr>) m u, evs' @ rest)"
      "i AND TXINI \<noteq> 0" "i = UEINTX e \<or> i = UEINTX e OR TXINI" "list_all polls evs'"
    using wait_IN_ok [OF assms(1,4,5), of ?Q rest e n] by auto
  let ?i = "i AND NOT (TXINI OR FIFOCON)"
  have "is_control (e\<lparr>UEINTX := i\<rparr>)" using assms(3) by (simp add: is_control_def)
  then have "Endpoint_ClearStatusStage (evs @ rest) (at0 e n u) =
      Some (at0 (e\<lparr>UEINTX := ?i, bank := [], to_host := to_host e @ [bank e]\<rparr>) m u, evs' @ rest)"
    using w(1,2) assms(1,6) by (simp add: Endpoint_ClearStatusStage_def control_ops)
  moreover have "\<forall>k \<noteq> 0. k \<noteq> 7 \<longrightarrow> bit ?i k = bit (UEINTX e) k" using w(3) bit_imp_le_length [of "UEINTX e"]
    by (auto simp: bit_simps mask_bits)
  ultimately show ?thesis using w(4) by blast
qed

end
