(* ===== verification/Usb_Requests.thy ===== *)
theory Usb_Requests
  imports Usb_Control
begin

text \<open>
  Control requests from the setup packet to the answer: what \<open>USB_COM_vect\<close>, the interrupt service routine of
  the control endpoint, does with each kind of request.
\<close>

section \<open>The setup packet\<close>

definition setup_bytes :: "USB_Request_Header_t \<Rightarrow> byte list" where
  "setup_bytes r = [bmRequestType r, bRequest r] @ le16 (wValue r) @ le16 (wIndex r) @ le16 (wLength r)"

lemma length_setup_bytes [simp]: "length (setup_bytes r) = 8"
  by (simp add: setup_bytes_def le16_def)

lemma request_of_setup [simp]: "request_of_bytes (setup_bytes r) = r"
proof -
  have "drop 2 (setup_bytes r) = le16 (wValue r) @ le16 (wIndex r) @ le16 (wLength r)"
    "drop 4 (setup_bytes r) = le16 (wIndex r) @ le16 (wLength r)" "drop 6 (setup_bytes r) = le16 (wLength r) @ []"
    by (simp_all add: setup_bytes_def le16_def)
  then show ?thesis by (simp add: request_of_bytes_def of_le16_le16 del: append_Nil2) (simp add: setup_bytes_def)
qed

lemma read_bytes_at0:
  assumes "UENUM u = 0"
  shows "(read_byte ^^ length d) (acc, at0 (e\<lparr>bank := d @ r\<rparr>) n u) = (acc @ d, at0 (e\<lparr>bank := r\<rparr>) n u)"
proof (induction d arbitrary: acc)
  case (Cons b d)
  have "read_byte (acc, at0 (e\<lparr>bank := b # d @ r\<rparr>) n u) = (acc @ [b], at0 (e\<lparr>bank := d @ r\<rparr>) n u)"
    using control_ops(12) [OF assms, of b "d @ r" e n] by (simp add: read_byte_def)
  then show ?case using Cons.IH [of "acc @ [b]"] by (simp add: funpow_swap1)
qed simp

text \<open>A setup packet has arrived for a device that is on the bus.\<close>

definition request_pending :: "USB_Request_Header_t \<Rightarrow> usb \<Rightarrow> bool" where
  "request_pending r u \<longleftrightarrow> attached u \<and> is_control (eps u 0) \<and> rxstp (eps u 0) \<and> \<not> rxout (eps u 0) \<and> bank (eps u 0) = setup_bytes r"

lemma setup_arrives:
  assumes "attached v" "is_control (eps v 0)" "\<not> rxout (eps v 0)"
  shows "\<exists>w. bus_step (SETUP_packet (setup_bytes q)) v = Some w \<and> request_pending q w \<and> to_host (eps w 0) = to_host (eps v 0) \<and>
    (\<forall>m \<noteq> 0. eps w m = eps v m) \<and> (\<forall>m. UECFG1X (eps w m) = UECFG1X (eps v m)) \<and> LineEncoding1 w = LineEncoding1 v \<and>
    USB_DeviceState w = USB_DeviceState v \<and> UDADDR w = UDADDR v \<and> driver w = driver v"
proof -
  let ?e = "(eps v 0)\<lparr>UEINTX := UEINTX (eps v 0) OR RXSTPI, UECONX := UECONX (eps v 0) AND NOT STALLRQ, bank := setup_bytes q\<rparr>"
  let ?w = "at0 ?e (UDFNUM v) v"
  have "bus_step (SETUP_packet (setup_bytes q)) v = Some ?w"
    using bus_ops(4) [of "setup_bytes q" "eps v 0" "UDFNUM v" v] at0_self [of v] by simp
  moreover have "request_pending q ?w"
    using assms by (simp add: request_pending_def is_control_def flags_bits flag_masks)
  moreover have "UECFG1X (eps ?w m) = UECFG1X (eps v m)" for m by (cases "m = 0") simp_all
  ultimately show ?thesis by (intro exI [of _ ?w]) simp
qed

text \<open>The state in which the request is looked at: endpoint 0 selected, the packet read, the interrupt masked.\<close>

definition request_endpoint :: "endpoint \<Rightarrow> endpoint" where
  "request_endpoint e = e\<lparr>UEIENX := UEIENX e AND NOT RXSTPE, bank := []\<rparr>"

definition request_state :: "USB_Request_Header_t \<Rightarrow> usb \<Rightarrow> usb" where
  "request_state r u = u\<lparr>UENUM := 0, USB_ControlRequest := r\<rparr>"

definition answer_request :: "bus_event list \<Rightarrow> usb \<Rightarrow> (usb \<times> bus_event list) option" where
  "answer_request evs u = do {
     (u, evs) \<leftarrow> EVENT_USB_Device_ControlRequest evs u;
     (u, evs) \<leftarrow> (if Endpoint_IsSETUPReceived u then standard_request evs u else Some (u, evs));
     Some (if Endpoint_IsSETUPReceived u then Endpoint_StallTransaction (Endpoint_ClearSETUP u) else u, evs) }"

lemma request_state_simps [simp]:
  "UENUM (request_state r u) = 0" "USB_ControlRequest (request_state r u) = r" "attached (request_state r u) = attached u"
  "USB_DeviceState (request_state r u) = USB_DeviceState u" "LineEncoding1 (request_state r u) = LineEncoding1 u"
  "eps (request_state r u) = eps u" "driver (request_state r u) = driver u" "UDADDR (request_state r u) = UDADDR u"
  "USB_Device_ConfigurationNumber (request_state r u) = USB_Device_ConfigurationNumber u"
  by (simp_all add: request_state_def attached_def driver_def)

text \<open>Leaving the service routine: the interrupt is unmasked and the endpoint selected before is selected again.\<close>

definition leave :: "uint8 \<Rightarrow> usb \<Rightarrow> usb" where
  "leave p v = Endpoint_SelectEndpoint p (USB_INT_Enable USB_INT_RXSTPI (Endpoint_SelectEndpoint ENDPOINT_CONTROLEP v))"

lemma leave_eq: "leave p v = v\<lparr>UENUM := p AND ENDPOINT_EPNUM_MASK, eps := (eps v)(0 := (eps v 0)\<lparr>UEIENX := UEIENX (eps v 0) OR RXSTPE\<rparr>)\<rparr>"
  by (simp add: leave_def Endpoint_SelectEndpoint_def ENDPOINT_CONTROLEP_def cur_def set_cur_def)

lemma leave_fields [simp]:
  "UEINTX (eps (leave p v) m) = UEINTX (eps v m)" "bank (eps (leave p v) m) = bank (eps v m)" "to_host (eps (leave p v) m) = to_host (eps v m)"
  "UECFG0X (eps (leave p v) m) = UECFG0X (eps v m)" "UECFG1X (eps (leave p v) m) = UECFG1X (eps v m)" "UECONX (eps (leave p v) m) = UECONX (eps v m)"
  "m \<noteq> 0 \<Longrightarrow> eps (leave p v) m = eps v m" "is_control (eps (leave p v) 0) = is_control (eps v 0)"
  "USB_DeviceState (leave p v) = USB_DeviceState v" "LineEncoding1 (leave p v) = LineEncoding1 v" "UDADDR (leave p v) = UDADDR v"
  "USB_Device_ConfigurationNumber (leave p v) = USB_Device_ConfigurationNumber v" "driver (leave p v) = driver v"
  "link_endpoints (leave p v) = link_endpoints v" "attached (leave p v) = attached v"
  by (simp_all add: leave_eq driver_def link_endpoints_def is_control_def attached_def)

lemma sizes_ok_leave [simp]: "sizes_ok (leave p v) = sizes_ok v"
  by (auto intro: sizes_ok_cong)

lemma USB_COM_vect_answer:
  assumes "request_pending r u"
  shows "USB_COM_vect evs u = do {
     (v, _) \<leftarrow> answer_request evs (at0 (request_endpoint (eps u 0)) (UDFNUM u) (request_state r u));
     Some (leave (Endpoint_GetCurrentEndpoint u) v) }"
proof -
  let ?u = "u\<lparr>UENUM := 0\<rparr>" and ?e = "(eps u 0)\<lparr>UEIENX := UEIENX (eps u 0) AND NOT RXSTPE\<rparr>"
  have s: "Endpoint_SelectEndpoint ENDPOINT_CONTROLEP u = at0 (eps u 0) (UDFNUM u) ?u"
    by (simp add: Endpoint_SelectEndpoint_def ENDPOINT_CONTROLEP_def at0_def)
  have "?e = ?e\<lparr>bank := setup_bytes r @ []\<rparr>" using assms by (cases "eps u 0") (simp add: request_pending_def)
  then have b: "(read_byte ^^ 8) ([], at0 ?e (UDFNUM u) ?u) = (setup_bytes r, at0 (request_endpoint (eps u 0)) (UDFNUM u) ?u)"
    using read_bytes_at0 [of ?u "setup_bytes r" "[]" "[]" ?e "UDFNUM u"] by (simp add: request_endpoint_def)
  have "at0 e n ?u\<lparr>USB_ControlRequest := r\<rparr> = at0 e n (request_state r u)" for e n
    by (simp add: at0_def request_state_def)
  then have "USB_Device_ProcessControlRequest evs (at0 ?e (UDFNUM u) ?u) =
      answer_request evs (at0 (request_endpoint (eps u 0)) (UDFNUM u) (request_state r u))"
    by (simp add: USB_Device_ProcessControlRequest_def answer_request_def b Let_def)
  then show ?thesis by (simp add: USB_COM_vect_def s control_ops Let_def leave_def del: INT_simps)
qed

section \<open>Requests the device does not know\<close>

definition supported :: "USB_Request_Header_t \<Rightarrow> bool" where
  "supported r \<longleftrightarrow>
     (let q = bRequest r; t = bmRequestType r; v = (ucast (wValue r) :: uint8); i = ucast (wIndex r) AND ENDPOINT_EPNUM_MASK in
      if q = 0x21 then t = 0xA1
      else if q = 0x20 \<or> q = 0x22 then t = 0x21
      else if q = REQ_GetStatus then t = 0x80 \<or> t = 0x82 \<and> i < ENDPOINT_TOTAL_ENDPOINTS
      else if q = REQ_ClearFeature \<or> q = REQ_SetFeature then
        t = 0x00 \<and> v = 1 \<or> t = 0x02 \<and> (v \<noteq> 0 \<or> i \<noteq> ENDPOINT_CONTROLEP \<and> i < ENDPOINT_TOTAL_ENDPOINTS)
      else if q = REQ_SetAddress then t = 0x00
      else if q = REQ_GetDescriptor then
        (t = 0x80 \<or> t = 0x81) \<and> (wValue r = 0x03DC \<or> snd (CALLBACK_USB_GetDescriptor (wValue r) (wIndex r)) \<noteq> 0)
      else if q = REQ_GetConfiguration then t = 0x80
      else q = REQ_SetConfiguration \<and> t = 0x00 \<and> v \<le> 1)"

lemmas REQ_defs = REQ_GetStatus_def REQ_ClearFeature_def REQ_SetFeature_def REQ_SetAddress_def REQ_GetDescriptor_def
  REQ_GetConfiguration_def REQ_SetConfiguration_def

lemma serial_value: "push_bit 8 (ucast DTYPE_String) OR ucast USE_INTERNAL_SERIAL = (0x03DC :: uint16)"
  by (simp add: DTYPE_String_def USE_INTERNAL_SERIAL_def)

lemma event_ignored:
  assumes "bRequest (USB_ControlRequest u) \<notin> {0x20, 0x21, 0x22} \<or> \<not> supported (USB_ControlRequest u)"
  shows "EVENT_USB_Device_ControlRequest evs u = Some (u, evs)"
  using assms by (simp add: EVENT_USB_Device_ControlRequest_def supported_def Let_def split: if_split_asm) blast?

lemma standard_ignored:
  assumes "\<not> supported (USB_ControlRequest u)"
  shows "standard_request evs u = Some (u, evs)"
proof -
  let ?r = "USB_ControlRequest u"
  have n: "\<not> supported ?r" by (rule assms)
  have status: "USB_Device_GetStatus evs u = Some (u, evs)" if "bRequest ?r = REQ_GetStatus"
    using n that by (simp add: USB_Device_GetStatus_def current_status_def supported_def Let_def REQ_defs not_less)
  have feature: "USB_Device_ClearSetFeature evs u = Some (u, evs)"
    if "bRequest ?r = REQ_ClearFeature \<or> bRequest ?r = REQ_SetFeature" "bmRequestType ?r = 0 \<or> bmRequestType ?r = 2"
  proof -
    have "change_feature u = None" using that(2)
      by (rule disjE) (use n that(1) in \<open>auto simp: change_feature_def supported_def Let_def REQ_defs not_less\<close>)
    then show ?thesis by (simp add: USB_Device_ClearSetFeature_def)
  qed
  have descriptor: "USB_Device_GetDescriptor evs u = Some (u, evs)" if "bRequest ?r = REQ_GetDescriptor" "bmRequestType ?r = 0x80 \<or> bmRequestType ?r = 0x81"
  proof -
    have "wValue ?r \<noteq> 0x03DC" "snd (CALLBACK_USB_GetDescriptor (wValue ?r) (wIndex ?r)) = 0"
      using n that by (simp_all add: supported_def Let_def REQ_defs)
    then show ?thesis by (simp add: USB_Device_GetDescriptor_def serial_value case_prod_beta NO_DESCRIPTOR_def)
  qed
  have config: "USB_Device_SetConfiguration evs u = Some (u, evs)" if "bRequest ?r = REQ_SetConfiguration" "bmRequestType ?r = 0"
    using n that by (simp add: USB_Device_SetConfiguration_def supported_def Let_def REQ_defs not_le)
  have other: "\<not> (bRequest ?r = REQ_SetAddress \<and> bmRequestType ?r = 0)" "\<not> (bRequest ?r = REQ_GetConfiguration \<and> bmRequestType ?r = 0x80)"
    using n by (auto simp: supported_def Let_def REQ_defs)
  show ?thesis using status feature descriptor config other by (simp add: standard_request_def Let_def)
qed

lemma answer_unsupported:
  assumes "UENUM u = 0" "\<not> supported (USB_ControlRequest u)" "rxstp e"
  shows "answer_request evs (at0 e n u) =
    Some (at0 (e\<lparr>UEINTX := UEINTX e AND NOT RXSTPI, bank := [], UECONX := UECONX e OR STALLRQ\<rparr>) n u, evs)"
  using assms by (simp add: answer_request_def event_ignored standard_ignored control_ops)

section \<open>Descriptors\<close>

lemma descriptor_lengths:
  "length DeviceDescriptor = 18" "length ConfigurationDescriptor = 62" "length LanguageString = 4"
  "length ManufacturerString = 50" "length ProductString = 56"
  by (simp_all add: descriptor_defs LanguageString_def ManufacturerString_def ProductString_def string_desc_def wide_def le16_def)

lemma string_sizes: "LanguageString ! 0 = 4" "ManufacturerString ! 0 = 50" "ProductString ! 0 = 56"
  by (simp_all add: LanguageString_def ManufacturerString_def ProductString_def string_desc_def packed_def wide_def le16_def)

lemma descriptor_size:
  assumes "CALLBACK_USB_GetDescriptor v i = (p, s)" "s \<noteq> 0"
  shows "take (unat s) (flash p) = flash p" "flash p \<noteq> []"
proof -
  have "unat s = length (flash p) \<and> 0 < length (flash p)"
    using assms unfolding CALLBACK_USB_GetDescriptor_def Let_def
    by (auto simp: descriptor_lengths string_sizes NO_DESCRIPTOR_def simp del: length_greater_0_conv split: if_split_asm)
  then show "take (unat s) (flash p) = flash p" "flash p \<noteq> []" by auto
qed

lemma answer_GetDescriptor:
  assumes "UENUM u = 0" "attached u" "is_control e" "rxstp e" "\<not> rxout e"
    "bRequest (USB_ControlRequest u) = REQ_GetDescriptor" "bmRequestType (USB_ControlRequest u) \<in> {0x80, 0x81}"
    "wValue (USB_ControlRequest u) \<noteq> 0x03DC"
    "CALLBACK_USB_GetDescriptor (wValue (USB_ControlRequest u)) (wIndex (USB_ControlRequest u)) = (p, s)" "s \<noteq> 0"
    "list_all polls evs" "length (chunks (take (unat (wLength (USB_ControlRequest u))) (flash p))) \<le> count_list evs (IN_token 0)"
  shows "\<exists>m i z. answer_request (evs @ OUT_packet 0 x # rest) (at0 e n u) =
    Some (at0 (e\<lparr>UEINTX := i, bank := [], to_host := to_host e @ chunks (take (unat (wLength (USB_ControlRequest u))) (flash p)) @ z\<rparr>) m u, rest) \<and>
    (z = [] \<or> z = [[]]) \<and> i AND RXOUTI = 0 \<and> i AND RXSTPI = 0"
proof -
  let ?d = "take (unat (wLength (USB_ControlRequest u))) (flash p)"
  let ?e = "e\<lparr>UEINTX := UEINTX e AND NOT RXSTPI, bank := []\<rparr>"
  have e: "in_transfer ?e" using assms(3,5) by (simp add: in_transfer_def is_control_def flags_bits flag_masks)
  obtain m i z where w: "Endpoint_Write_Control_Stream_LE (flash p) (evs @ OUT_packet 0 x # rest) (at0 ?e n u) =
      Some (ENDPOINT_RWCSTREAM_NoError, at0 (?e\<lparr>UEINTX := i, bank := x, to_host := to_host ?e @ chunks ?d @ z\<rparr>) m u, rest)"
    "z = [] \<or> z = [[]]" "i AND RXSTPI = 0"
    using Write_Control_Stream_ok [OF assms(1,2) e assms(11) descriptor_size(2) [OF assms(9,10)] assms(12), of x rest n] by auto
  let ?f = "e\<lparr>UEINTX := i, bank := x, to_host := to_host e @ chunks ?d @ z\<rparr>" and ?i = "i AND NOT (RXOUTI OR FIFOCON)"
  have f: "is_control ?f" using assms(3) by (simp add: is_control_def)
  have c: "Endpoint_ClearOUT (at0 ?f m u) = at0 (e\<lparr>UEINTX := ?i, bank := [], to_host := to_host e @ chunks ?d @ z\<rparr>) m u"
    using control_ops(6) [OF assms(1) f, of m] by (cases e) simp
  have s: "standard_request (evs @ OUT_packet 0 x # rest) (at0 e n u) = USB_Device_GetDescriptor (evs @ OUT_packet 0 x # rest) (at0 e n u)"
    using assms(6,7) by (auto simp: standard_request_def Let_def REQ_defs)
  have "?i AND RXOUTI = 0" "?i AND RXSTPI = 0" using w(3) by (simp_all add: flags_bits bit_simps mask_bits)
  moreover have "USB_Device_GetDescriptor (evs @ OUT_packet 0 x # rest) (at0 e n u) =
      Some (at0 (e\<lparr>UEINTX := ?i, bank := [], to_host := to_host e @ chunks ?d @ z\<rparr>) m u, rest)"
    using w(1) assms(1,8-10) descriptor_size(1) [OF assms(9,10)] c
    by (simp add: USB_Device_GetDescriptor_def serial_value NO_DESCRIPTOR_def control_ops Endpoint_Write_Control_PStream_LE_def Let_def)
  moreover have "EVENT_USB_Device_ControlRequest (evs @ OUT_packet 0 x # rest) (at0 e n u) = Some (at0 e n u, evs @ OUT_packet 0 x # rest)"
    using assms(6) by (intro event_ignored) (simp add: REQ_defs)
  ultimately show ?thesis using w(2) assms(1,4) s
    by (intro exI [of _ m] exI [of _ ?i] exI [of _ z]) (simp add: answer_request_def control_ops)
qed

section \<open>Address and configuration\<close>

lemma ClearSETUP_at0:
  assumes "UENUM u = 0" "is_control e" "\<not> rxout e"
  shows "Endpoint_ClearSETUP (at0 e n u) = at0 (e\<lparr>UEINTX := UEINTX e AND NOT RXSTPI, bank := []\<rparr>) n u"
    "in_transfer (e\<lparr>UEINTX := UEINTX e AND NOT RXSTPI, bank := []\<rparr>)"
  using assms by (simp_all add: control_ops in_transfer_def is_control_def flags_bits flag_masks)

text \<open>The status stage after the setup packet was acknowledged.\<close>

lemma status_stage:
  assumes "UENUM u = 0" "attached u" "is_control e" "\<not> rxout e" "bmRequestType (USB_ControlRequest u) AND 0x80 = 0"
    "list_all polls evs" "IN_token 0 \<in> set evs"
  shows "\<exists>m i evs'. Endpoint_ClearStatusStage (evs @ rest) (Endpoint_ClearSETUP (at0 e n u)) =
      Some (at0 (e\<lparr>UEINTX := i, bank := [], to_host := to_host e @ [[]]\<rparr>) m u, evs' @ rest) \<and>
    i AND RXOUTI = 0 \<and> i AND RXSTPI = 0 \<and> list_all polls evs'"
proof -
  let ?e = "e\<lparr>UEINTX := UEINTX e AND NOT RXSTPI, bank := []\<rparr>"
  note c = ClearSETUP_at0 [OF assms(1,3,4)]
  obtain m i evs' where s: "Endpoint_ClearStatusStage (evs @ rest) (at0 ?e n u) =
      Some (at0 (?e\<lparr>UEINTX := i, bank := [], to_host := to_host ?e @ [bank ?e]\<rparr>) m u, evs' @ rest)"
    "\<forall>k \<noteq> 0. k \<noteq> 7 \<longrightarrow> bit i k = bit (UEINTX ?e) k" "list_all polls evs'"
    using ClearStatusStage_IN [OF assms(1,2) _ assms(6,7,5), of ?e rest n] c(2) by (auto simp: in_transfer_def)
  have "i AND RXOUTI = 0" "i AND RXSTPI = 0" using s(2) assms(4) by (simp_all add: flags_bits flag_masks)
  then show ?thesis using s(1,3) c(1) by auto
qed

lemma answer_SetConfiguration:
  assumes "UENUM u = 0" "attached u" "is_control e" "rxstp e" "\<not> rxout e" "sizes_ok (at0 e n u)" "\<not> rxstp (eps u 3)"
    "bRequest (USB_ControlRequest u) = REQ_SetConfiguration" "bmRequestType (USB_ControlRequest u) = 0"
    "(ucast (wValue (USB_ControlRequest u)) :: uint8) \<le> 1" "list_all polls evs" "IN_token 0 \<in> set evs"
  shows "\<exists>v rest'. answer_request (evs @ rest) (at0 e n u) = Some (v, rest') \<and> link_endpoints v \<and> sizes_ok v \<and>
    USB_Device_ConfigurationNumber v = ucast (wValue (USB_ControlRequest u)) \<and>
    USB_DeviceState v = (if (ucast (wValue (USB_ControlRequest u)) :: uint8) \<noteq> 0 \<or> USB_Device_IsAddressSet u
      then DEVICE_STATE_Configured else DEVICE_STATE_Powered) \<and>
    UDADDR v = UDADDR u \<and> to_host (eps v 0) = to_host e @ [[]] \<and> is_control (eps v 0) \<and> \<not> rxstp (eps v 0) \<and> \<not> rxout (eps v 0) \<and>
    (\<forall>m \<noteq> 0. UEINTX (eps v m) = UEINTX (eps u m) \<and> bank (eps v m) = bank (eps u m) \<and> to_host (eps v m) = to_host (eps u m))"
proof -
  let ?k = "ucast (wValue (USB_ControlRequest u)) :: uint8"
  let ?u = "u\<lparr>USB_Device_ConfigurationNumber := ?k\<rparr>"
  let ?s = "if ?k \<noteq> 0 then DEVICE_STATE_Configured else if USB_Device_IsAddressSet u then DEVICE_STATE_Configured else DEVICE_STATE_Powered"
  have u: "UENUM ?u = 0" "attached ?u" "bmRequestType (USB_ControlRequest ?u) AND 0x80 = 0" using assms(1,2,9) by (simp_all add: attached_def)
  obtain m i evs' where st: "Endpoint_ClearStatusStage (evs @ rest) (Endpoint_ClearSETUP (at0 e n ?u)) =
      Some (at0 (e\<lparr>UEINTX := i, bank := [], to_host := to_host e @ [[]]\<rparr>) m ?u, evs' @ rest)" "i AND RXOUTI = 0" "i AND RXSTPI = 0"
    using status_stage [OF u(1,2) assms(3,5) u(3) assms(11,12), of rest n] by blast
  let ?e = "e\<lparr>UEINTX := i, bank := [], to_host := to_host e @ [[]]\<rparr>"
  let ?w = "at0 ?e m (?u\<lparr>USB_DeviceState := ?s\<rparr>)"
  have "sizes_ok ?w" by (rule sizes_ok_cong [OF assms(6)]) (simp add: at0_def)
  then obtain v where v: "EVENT_USB_Device_ConfigurationChanged ?w = Some v" "link_endpoints v" "sizes_ok v" "eps v 0 = eps ?w 0" "UENUM v = 3"
    "v\<lparr>UENUM := UENUM ?w, eps := eps ?w, LineEncoding1 := LineEncoding1 ?w\<rparr> = ?w"
    "\<forall>m. UEINTX (eps v m) = UEINTX (eps ?w m) \<and> bank (eps v m) = bank (eps ?w m) \<and> to_host (eps v m) = to_host (eps ?w m)"
    using ConfigurationChanged_ok [of ?w] by blast
  have same: "USB_Device_ConfigurationNumber v = USB_Device_ConfigurationNumber ?w" "USB_DeviceState v = USB_DeviceState ?w" "UDADDR v = UDADDR ?w"
    using arg_cong [OF v(6), of USB_Device_ConfigurationNumber] arg_cong [OF v(6), of USB_DeviceState] arg_cong [OF v(6), of UDADDR] by simp_all
  have k: "((1 :: uint8) < ?k) = False" using assms(10) by (simp add: not_less)
  have addr: "USB_Device_IsAddressSet (at0 x y ?u) = USB_Device_IsAddressSet u" for x y by (simp add: USB_Device_IsAddressSet_def)
  have "(Endpoint_ClearSETUP (at0 e n u))\<lparr>USB_Device_ConfigurationNumber := ?k\<rparr> = Endpoint_ClearSETUP (at0 e n ?u)"
    using assms(1) by (simp add: control_ops at0_updates)
  moreover have "USB_ControlRequest (Endpoint_ClearSETUP (at0 e n u)) = USB_ControlRequest u" using assms(1) by (simp add: control_ops)
  ultimately have c: "USB_Device_SetConfiguration (evs @ rest) (at0 e n u) = Some (v, evs' @ rest)"
    using st(1) v(1) by (simp add: USB_Device_SetConfiguration_def Let_def addr at0_updates k cong: if_cong split del: if_split)
  have "standard_request (evs @ rest) (at0 e n u) = Some (v, evs' @ rest)" using assms(8,9) c by (simp add: standard_request_def Let_def REQ_defs)
  moreover have "EVENT_USB_Device_ControlRequest (evs @ rest) (at0 e n u) = Some (at0 e n u, evs @ rest)"
    using assms(8) by (intro event_ignored) (simp add: REQ_defs)
  moreover have "\<not> Endpoint_IsSETUPReceived v" using v(5,7) assms(7) by (simp add: Endpoint_IsSETUPReceived_def cur_def)
  ultimately have a: "answer_request (evs @ rest) (at0 e n u) = Some (v, evs' @ rest)"
    using assms(1,4) by (simp add: answer_request_def control_ops)
  have e: "eps v 0 = ?e" using v(4) by simp
  have "is_control ?e" using assms(3) by (simp add: is_control_def)
  then show ?thesis using a v(2,3,7) same st(2,3) by (intro exI [of _ v] exI [of _ "evs' @ rest"]) (simp add: e)
qed

text \<open>After the status stage the address is enabled once the host has taken the empty packet.\<close>

lemma answer_SetAddress:
  assumes "UENUM u = 0" "attached u" "is_control e" "rxstp e" "\<not> rxout e"
    "bRequest (USB_ControlRequest u) = REQ_SetAddress" "bmRequestType (USB_ControlRequest u) = 0"
    "list_all polls evs" "IN_token 0 \<in> set evs" "list_all polls evs2" "IN_token 0 \<in> set evs2"
  defines "a \<equiv> ucast (wValue (USB_ControlRequest u) AND 0x7F) :: uint8"
  shows "\<exists>m i rest'. answer_request (evs @ evs2) (at0 e n u) =
      Some (at0 (e\<lparr>UEINTX := i, bank := [], to_host := to_host e @ [[]]\<rparr>) m (u\<lparr>UDADDR := 0x80 OR a,
        USB_DeviceState := (if a \<noteq> 0 then DEVICE_STATE_Addressed else DEVICE_STATE_Default)\<rparr>), rest') \<and> i AND RXOUTI = 0 \<and> i AND RXSTPI = 0"
proof -
  let ?u = "USB_Device_SetDeviceAddress a u"
  have u: "UENUM ?u = 0" "attached ?u" "bmRequestType (USB_ControlRequest ?u) AND 0x80 = 0"
    using assms(1,2,7) by (simp_all add: attached_def USB_Device_SetDeviceAddress_def)
  obtain m i evs' where st: "Endpoint_ClearStatusStage (evs @ evs2) (Endpoint_ClearSETUP (at0 e n ?u)) =
      Some (at0 (e\<lparr>UEINTX := i, bank := [], to_host := to_host e @ [[]]\<rparr>) m ?u, evs' @ evs2)" "i AND RXOUTI = 0" "i AND RXSTPI = 0"
      "list_all polls evs'"
    using status_stage [OF u(1,2) assms(3,5) u(3) assms(8,9), of evs2 n] by blast
  let ?e = "e\<lparr>UEINTX := i, bank := [], to_host := to_host e @ [[]]\<rparr>"
  have p: "list_all polls (evs' @ evs2)" "IN_token 0 \<in> set (evs' @ evs2)" using st(4) assms(10,11) by simp_all
  obtain m' i' rest' where w: "wait_until Endpoint_IsINReady (evs' @ evs2) (at0 ?e m ?u) = Some (at0 (?e\<lparr>UEINTX := i'\<rparr>) m' ?u, rest')"
      "i' = i \<or> i' = i OR TXINI"
    using wait_IN_ok [OF u(1) p, of Endpoint_IsINReady "[]" ?e m] u(1) by (auto simp: control_ops)
  have i': "i' AND RXOUTI = 0" "i' AND RXSTPI = 0" using w(2) st(2,3) by (auto simp: flags_bits flag_masks)
  have e': "?e\<lparr>UEINTX := i'\<rparr> = e\<lparr>UEINTX := i', bank := [], to_host := to_host e @ [[]]\<rparr>" by (cases e) simp
  have addr: "(UDADDR u AND bv 7 OR a AND 0x7F) OR bv 7 = 0x80 OR a"
    by (simp add: a_def bv_def eq8 bit_simps)
  let ?s = "if a \<noteq> 0 then DEVICE_STATE_Addressed else DEVICE_STATE_Default"
  let ?v = "at0 (e\<lparr>UEINTX := i', bank := [], to_host := to_host e @ [[]]\<rparr>) m' (u\<lparr>UDADDR := 0x80 OR a, USB_DeviceState := ?s\<rparr>)"
  have "USB_Device_SetDeviceAddress a (at0 e n u) = at0 e n ?u" by (simp add: USB_Device_SetDeviceAddress_def at0_updates)
  then have "USB_Device_SetAddress (evs @ evs2) (at0 e n u) = Some (?v, rest')"
    using st(1) w(1) e' addr
    by (simp add: USB_Device_SetAddress_def Let_def a_def [symmetric] USB_Device_EnableDeviceAddress_def at0_updates)
      (simp add: USB_Device_SetDeviceAddress_def bv_def)
  then have "standard_request (evs @ evs2) (at0 e n u) = Some (?v, rest')" using assms(6,7) by (simp add: standard_request_def Let_def REQ_defs)
  moreover have "EVENT_USB_Device_ControlRequest (evs @ evs2) (at0 e n u) = Some (at0 e n u, evs @ evs2)"
    using assms(6) by (intro event_ignored) (simp add: REQ_defs)
  ultimately have "answer_request (evs @ evs2) (at0 e n u) = Some (?v, rest')"
    using assms(1,4) i'(2) by (simp add: answer_request_def control_ops)
  then show ?thesis using i' by blast
qed

section \<open>The line coding\<close>

lemma line_bytes_of_bytes:
  assumes "length d = 7"
  shows "line_bytes (line_of_bytes d) = d"
proof -
  obtain a b c e f g h where d: "d = [a, b, c, e, f, g, h]" using assms by (auto simp: numeral_eq_Suc length_Suc_conv)
  then show ?thesis using le32_of_le32 [of a b c e] by (simp add: line_bytes_def line_of_bytes_def)
qed

lemma length_line_bytes [simp]: "length (line_bytes l) = 7"
  by (simp add: line_bytes_def le32_def)

lemma answer_SetLineEncoding:
  assumes "UENUM u = 0" "attached u" "is_control e" "rxstp e" "\<not> rxout e"
    "bRequest (USB_ControlRequest u) = 0x20" "bmRequestType (USB_ControlRequest u) = 0x21"
    "list_all polls evs" "length d = 7" "list_all polls evs2" "IN_token 0 \<in> set evs2"
  shows "\<exists>m i rest'. answer_request (evs @ OUT_packet 0 d # evs2) (at0 e n u) =
      Some (at0 (e\<lparr>UEINTX := i, bank := [], to_host := to_host e @ [[]]\<rparr>) m (u\<lparr>LineEncoding1 := line_of_bytes d\<rparr>), rest') \<and>
    i AND RXOUTI = 0 \<and> i AND RXSTPI = 0"
proof -
  note c = ClearSETUP_at0 [OF assms(1,3,5)]
  let ?e = "e\<lparr>UEINTX := UEINTX e AND NOT RXSTPI, bank := []\<rparr>"
  obtain m i rest' where r: "Endpoint_Read_Control_Stream_LE 7 (evs @ OUT_packet 0 d # evs2) (at0 ?e n u) =
      Some (d, ENDPOINT_RWCSTREAM_NoError, at0 (?e\<lparr>UEINTX := i, bank := []\<rparr>) m u, rest')" "i AND RXOUTI = 0" "i AND RXSTPI = 0"
    using Read_Control_Stream_ok [OF assms(1,2) c(2) assms(8) _ _ assms(10,11), of d "[]" n] assms(9) by auto
  let ?f = "e\<lparr>UEINTX := i, bank := []\<rparr>" and ?i = "i AND NOT (TXINI OR FIFOCON)"
  have f: "is_control ?f" using assms(3) by (simp add: is_control_def)
  have i: "?i AND RXOUTI = 0" "?i AND RXSTPI = 0" using r(2,3) by (simp_all add: flags_bits bit_simps mask_bits)
  have u: "UENUM (u\<lparr>LineEncoding1 := line_of_bytes d\<rparr>) = 0" using assms(1) by simp
  have "EVENT_USB_Device_ControlRequest (evs @ OUT_packet 0 d # evs2) (at0 e n u) =
      Some (at0 (e\<lparr>UEINTX := ?i, bank := [], to_host := to_host e @ [[]]\<rparr>) m (u\<lparr>LineEncoding1 := line_of_bytes d\<rparr>), rest')"
    using assms(6,7,9) r(1) c(1) control_ops(5) [OF u f, of m]
    by (simp add: EVENT_USB_Device_ControlRequest_def at0_updates)
  then show ?thesis using i assms(1) by (intro exI [of _ m] exI [of _ ?i] exI [of _ rest']) (simp add: answer_request_def control_ops)
qed

lemma answer_GetLineEncoding:
  assumes "UENUM u = 0" "attached u" "is_control e" "rxstp e" "\<not> rxout e"
    "bRequest (USB_ControlRequest u) = 0x21" "bmRequestType (USB_ControlRequest u) = 0xA1"
    "list_all polls evs" "IN_token 0 \<in> set evs"
  defines "d \<equiv> take (unat (wLength (USB_ControlRequest u))) (line_bytes (LineEncoding1 u))"
  shows "\<exists>m i z. answer_request (evs @ OUT_packet 0 x # rest) (at0 e n u) =
      Some (at0 (e\<lparr>UEINTX := i, bank := [], to_host := to_host e @ chunks d @ z\<rparr>) m u, rest) \<and> (z = [] \<or> z = [[]]) \<and> i AND RXSTPI = 0"
proof -
  let ?l = "line_bytes (LineEncoding1 u)"
  have l: "?l \<noteq> []" "length d \<le> 7" by (simp_all add: d_def line_bytes_def)
  then have "length (chunks d) \<le> 1" by (subst chunks.simps) simp
  moreover have "1 \<le> count_list evs (IN_token 0)" using assms(9) count_list_0_iff [of evs "IN_token 0"] by (cases "count_list evs (IN_token 0)") simp_all
  ultimately have n: "length (chunks d) \<le> count_list evs (IN_token 0)" by simp
  note c = ClearSETUP_at0 [OF assms(1,3,5)]
  let ?e = "e\<lparr>UEINTX := UEINTX e AND NOT RXSTPI, bank := []\<rparr>"
  obtain m i z where w: "Endpoint_Write_Control_Stream_LE ?l (evs @ OUT_packet 0 x # rest) (at0 ?e n u) =
      Some (ENDPOINT_RWCSTREAM_NoError, at0 (?e\<lparr>UEINTX := i, bank := x, to_host := to_host ?e @ chunks d @ z\<rparr>) m u, rest)"
    "z = [] \<or> z = [[]]" "i AND RXSTPI = 0"
    using Write_Control_Stream_ok [OF assms(1,2) c(2) assms(8) l(1), of x rest n] n unfolding d_def by blast
  let ?f = "e\<lparr>UEINTX := i, bank := x, to_host := to_host e @ chunks d @ z\<rparr>" and ?i = "i AND NOT (RXOUTI OR FIFOCON)"
  have f: "is_control ?f" using assms(3) by (simp add: is_control_def)
  have "?i AND RXSTPI = 0" using w(3) by (simp add: flags_bits bit_simps mask_bits)
  moreover have "Endpoint_ClearOUT (at0 ?f m u) = at0 (e\<lparr>UEINTX := ?i, bank := [], to_host := to_host e @ chunks d @ z\<rparr>) m u"
    using control_ops(6) [OF assms(1) f, of m] by (cases e) simp
  ultimately show ?thesis using w(1,2) assms(1,6,7) c(1)
    by (intro exI [of _ m] exI [of _ ?i] exI [of _ z]) (simp add: answer_request_def EVENT_USB_Device_ControlRequest_def control_ops)
qed

end
