(* ===== verification/Usb_Properties.thy ===== *)
theory Usb_Properties
  imports Usb_Requests Link_Properties
begin

text \<open>The properties of the USB device: control requests, descriptors, enumeration.\<close>

section \<open>Examples\<close>

text \<open>A device with address 5 whose control endpoint has just received a request.\<close>

definition usb_pending :: "USB_Request_Header_t \<Rightarrow> usb" where
  "usb_pending r = usb_zero\<lparr>USB_DeviceState := DEVICE_STATE_Addressed, UDADDR := 0x85,
     eps := (eps usb_zero)(0 := endpoint_zero\<lparr>UEINTX := RXSTPI, bank := setup_bytes r\<rparr>)\<rparr>"

definition request :: "uint8 \<Rightarrow> uint8 \<Rightarrow> uint16 \<Rightarrow> uint16 \<Rightarrow> USB_Request_Header_t" where
  "request t q v l = \<lparr>bmRequestType = t, bRequest = q, wValue = v, wIndex = 0, wLength = l\<rparr>"

lemma usb_pending_ok:
  "request_pending r (usb_pending r)" "sizes_ok (usb_pending r)" "UEINTX (eps (usb_pending r) 3) AND RXSTPI = 0"
  "USB_Device_IsAddressSet (usb_pending r)" "to_host (eps (usb_pending r) 0) = []"
  by (simp_all add: usb_pending_def request_pending_def attached_def is_control_def endpoint_zero_def sizes_ok_def usb_zero_def
      flags_bits mask_bits USB_Device_IsAddressSet_def bv_def)

lemma tokens_poll: "list_all polls (replicate n (IN_token 0))" "count_list (replicate n (IN_token 0)) (IN_token 0) = n"
  by (induction n) (simp_all add: polls_def)

section \<open>Requests\<close>

text \<open>C23 (error). A request the device does not know is answered by a stall. The resulting state is given whole: the control endpoint
  stalls, its packet is released and its interrupt enabled again; the request is stored and the endpoint that was selected
  is selected again. Nothing is sent, and everything else (address, configuration number, line coding, remote wakeup, device
  state, the other endpoints, the buffers of the serial link) is what it was.\<close>

theorem unsupported_request_stalls:
  assumes "request_pending r u" "\<not> supported r"
  shows "USB_COM_vect evs u = Some (u\<lparr>USB_ControlRequest := r, UENUM := UENUM u AND ENDPOINT_EPNUM_MASK,
    eps := (eps u)(0 := (eps u 0)\<lparr>UEINTX := UEINTX (eps u 0) AND NOT RXSTPI, bank := [],
      UECONX := UECONX (eps u 0) OR STALLRQ, UEIENX := UEIENX (eps u 0) OR RXSTPE\<rparr>)\<rparr>)"
proof -
  let ?e = "request_endpoint (eps u 0)"
  have "rxstp ?e" using assms(1) by (simp add: request_pending_def request_endpoint_def)
  note a = answer_unsupported [OF request_state_simps(1) _ this, of r u evs "UDFNUM u"]
  let ?f = "?e\<lparr>UEINTX := UEINTX ?e AND NOT RXSTPI, bank := [], UECONX := UECONX ?e OR STALLRQ\<rparr>"
  have "ENDPOINT_DIR_IN AND ENDPOINT_EPNUM_MASK = 0" by (simp add: ENDPOINT_DIR_IN_def ENDPOINT_EPNUM_MASK_def)
  then have "Endpoint_GetCurrentEndpoint u AND ENDPOINT_EPNUM_MASK = UENUM u AND ENDPOINT_EPNUM_MASK"
    by (simp add: Endpoint_GetCurrentEndpoint_def Endpoint_GetEndpointDirection_def bit.conj_disj_distrib2 and.assoc)
  moreover have "(x AND NOT RXSTPE) OR RXSTPE = x OR RXSTPE" for x :: uint8 by (simp add: bit_eq_iff bit_simps) blast
  ultimately have "leave (Endpoint_GetCurrentEndpoint u) (at0 ?f (UDFNUM u) (request_state r u)) =
      u\<lparr>USB_ControlRequest := r, UENUM := UENUM u AND ENDPOINT_EPNUM_MASK, eps := (eps u)(0 := (eps u 0)\<lparr>UEINTX := UEINTX (eps u 0) AND NOT RXSTPI,
        bank := [], UECONX := UECONX (eps u 0) OR STALLRQ, UEIENX := UEIENX (eps u 0) OR RXSTPE\<rparr>)\<rparr>"
    by (simp add: leave_eq at0_def request_state_def request_endpoint_def)
  then show ?thesis using a assms(2) by (simp add: USB_COM_vect_answer [OF assms(1)])
qed

theorem unsupported_request_stalls_witness:
  "\<exists>v. USB_COM_vect [] (usb_pending (request 0x40 1 0 0)) = Some v \<and> UECONX (eps v 0) AND STALLRQ \<noteq> 0 \<and> to_host (eps v 0) = []"
  using unsupported_request_stalls [OF usb_pending_ok(1), of "request 0x40 1 0 0" "[]"] usb_pending_ok(5) [of "request 0x40 1 0 0"]
  by (auto simp: request_def supported_def REQ_defs STALLRQ_def)

text \<open>C20 (functional). The host that asks for a descriptor gets it: the packets it takes on the control endpoint carry exactly the
  descriptor's bytes, cut off at the length it asked for, in packets of at most eight bytes, and the device is ready for the
  next request.\<close>

theorem get_descriptor_delivers:
  assumes "request_pending r u" "bRequest r = REQ_GetDescriptor" "bmRequestType r = 0x80" "wValue r \<noteq> 0x03DC"
    "CALLBACK_USB_GetDescriptor (wValue r) (wIndex r) = (p, s)" "s \<noteq> 0" "list_all polls evs"
    "length (chunks (take (unat (wLength r)) (flash p))) \<le> count_list evs (IN_token 0)"
  shows "\<exists>v ps. USB_COM_vect (evs @ [OUT_packet 0 []]) u = Some v \<and> to_host (eps v 0) = to_host (eps u 0) @ ps \<and>
    concat ps = take (unat (wLength r)) (flash p) \<and> (\<forall>q \<in> set ps. length q \<le> 8) \<and>
    UEINTX (eps v 0) AND RXSTPI = 0 \<and> UEINTX (eps v 0) AND RXOUTI = 0 \<and> USB_DeviceState v = USB_DeviceState u"
proof -
  let ?e = "request_endpoint (eps u 0)" and ?u = "request_state r u"
  let ?d = "take (unat (wLength r)) (flash p)"
  have e: "attached ?u" "is_control ?e" "rxstp ?e" "\<not> rxout ?e" "to_host ?e = to_host (eps u 0)"
    using assms(1) by (simp_all add: request_pending_def request_endpoint_def is_control_def)
  obtain m i z where a: "answer_request (evs @ [OUT_packet 0 []]) (at0 ?e (UDFNUM u) ?u) =
      Some (at0 (?e\<lparr>UEINTX := i, bank := [], to_host := to_host ?e @ chunks ?d @ z\<rparr>) m ?u, [])"
      "z = [] \<or> z = [[]]" "i AND RXOUTI = 0" "i AND RXSTPI = 0"
    using answer_GetDescriptor [OF request_state_simps(1) e(1-4), of p s evs "[]" "[]" "UDFNUM u"] assms(2-8) by auto
  have "\<forall>q \<in> set (chunks ?d @ z). length q \<le> 8" using a(2) length_chunk by auto
  then show ?thesis using a e(5)
    by (intro exI [of _ "leave (Endpoint_GetCurrentEndpoint u) (at0 (?e\<lparr>UEINTX := i, bank := [], to_host := to_host ?e @ chunks ?d @ z\<rparr>) m ?u)"]
        exI [of _ "chunks ?d @ z"]) (auto simp: USB_COM_vect_answer [OF assms(1)])
qed

theorem get_descriptor_delivers_witness:
  "\<exists>v. USB_COM_vect (replicate 3 (IN_token 0) @ [OUT_packet 0 []]) (usb_pending (request 0x80 6 0x0100 64)) = Some v \<and>
    concat (to_host (eps v 0)) = DeviceDescriptor"
proof -
  let ?r = "request 0x80 6 0x0100 64"
  have c: "CALLBACK_USB_GetDescriptor (wValue ?r) (wIndex ?r) = (Device_at, 18)"
    by (simp add: request_def CALLBACK_USB_GetDescriptor_def DTYPE_Device_def descriptor_lengths)
  have t: "take (unat (wLength ?r)) (flash Device_at) = DeviceDescriptor" by (simp add: request_def descriptor_lengths)
  have n: "length (chunks DeviceDescriptor) = 3" by code_simp
  show ?thesis
    using get_descriptor_delivers [OF usb_pending_ok(1) _ _ _ c _ tokens_poll(1) [of 3]] tokens_poll(2) [of 3] usb_pending_ok(5) [of ?r] t n
    by (auto simp: request_def REQ_defs)
qed

text \<open>C22 (roundtrip). The line coding the host sets is the one it gets back.\<close>

theorem line_coding_roundtrip:
  assumes "request_pending r u" "bmRequestType r = 0x21" "bRequest r = 0x20" "length d = 7"
    "list_all polls evs" "list_all polls evs2" "IN_token 0 \<in> set evs2"
    "bmRequestType q = 0xA1" "bRequest q = 0x21" "wLength q = 7" "list_all polls evs3" "IN_token 0 \<in> set evs3"
  shows "\<exists>v w. USB_COM_vect (evs @ OUT_packet 0 d # evs2) u = Some v \<and>
    (bus_step (SETUP_packet (setup_bytes q)) v \<bind> USB_COM_vect (evs3 @ [OUT_packet 0 []])) = Some w \<and>
    concat (drop (length (to_host (eps v 0))) (to_host (eps w 0))) = d"
proof -
  let ?e = "request_endpoint (eps u 0)" and ?u = "request_state r u"
  have e: "attached ?u" "is_control ?e" "rxstp ?e" "\<not> rxout ?e"
    using assms(1) by (simp_all add: request_pending_def request_endpoint_def is_control_def)
  obtain m i rest where a: "answer_request (evs @ OUT_packet 0 d # evs2) (at0 ?e (UDFNUM u) ?u) =
      Some (at0 (?e\<lparr>UEINTX := i, bank := [], to_host := to_host ?e @ [[]]\<rparr>) m (?u\<lparr>LineEncoding1 := line_of_bytes d\<rparr>), rest)"
      "i AND RXOUTI = 0" "i AND RXSTPI = 0"
    using answer_SetLineEncoding [OF request_state_simps(1) e, of evs d evs2 "UDFNUM u"] assms(2-7) by auto
  let ?v = "leave (Endpoint_GetCurrentEndpoint u) (at0 (?e\<lparr>UEINTX := i, bank := [], to_host := to_host ?e @ [[]]\<rparr>) m (?u\<lparr>LineEncoding1 := line_of_bytes d\<rparr>))"
  have v: "USB_COM_vect (evs @ OUT_packet 0 d # evs2) u = Some ?v" using a(1) by (simp add: USB_COM_vect_answer [OF assms(1)])
  have vf: "is_control (eps ?v 0)" "\<not> rxout (eps ?v 0)" "attached ?v" "LineEncoding1 ?v = line_of_bytes d"
    using e(1,2) a(2) by (simp_all add: is_control_def attached_def)
  obtain s where s: "bus_step (SETUP_packet (setup_bytes q)) ?v = Some s" "request_pending q s" "to_host (eps s 0) = to_host (eps ?v 0)"
    "LineEncoding1 s = line_of_bytes d" using setup_arrives [OF vf(3,1,2), of q] vf(4) by auto
  let ?f = "request_endpoint (eps s 0)" and ?t = "request_state q s"
  have f: "attached ?t" "is_control ?f" "rxstp ?f" "\<not> rxout ?f" "to_host ?f = to_host (eps s 0)"
    using s(2) by (simp_all add: request_pending_def request_endpoint_def is_control_def)
  have d: "take (unat (wLength (USB_ControlRequest ?t))) (line_bytes (LineEncoding1 ?t)) = d"
    using assms(4,10) s(4) by (simp add: line_bytes_of_bytes)
  obtain m' i' z where b: "answer_request (evs3 @ [OUT_packet 0 []]) (at0 ?f (UDFNUM s) ?t) =
      Some (at0 (?f\<lparr>UEINTX := i', bank := [], to_host := to_host ?f @ chunks d @ z\<rparr>) m' ?t, [])" "z = [] \<or> z = [[]]"
    using answer_GetLineEncoding [OF request_state_simps(1) f(1-4), of evs3 "[]" "[]" "UDFNUM s"] assms(8,9,11,12) unfolding d by auto
  let ?w = "leave (Endpoint_GetCurrentEndpoint s) (at0 (?f\<lparr>UEINTX := i', bank := [], to_host := to_host ?f @ chunks d @ z\<rparr>) m' ?t)"
  have w: "USB_COM_vect (evs3 @ [OUT_packet 0 []]) s = Some ?w" using b(1) by (simp add: USB_COM_vect_answer [OF s(2)])
  have "concat (drop (length (to_host (eps ?v 0))) (to_host (eps ?w 0))) = d" using b(2) f(5) s(3) by auto
  then show ?thesis using v s(1) w by (intro exI [of _ ?v] exI [of _ ?w]) simp
qed

theorem line_coding_roundtrip_witness:
  "\<exists>v w. USB_COM_vect [OUT_packet 0 [0, 0xC2, 1, 0, 0, 0, 8], IN_token 0] (usb_pending (request 0x21 0x20 0 7)) = Some v \<and>
    (bus_step (SETUP_packet (setup_bytes (request 0xA1 0x21 0 7))) v \<bind> USB_COM_vect [IN_token 0, OUT_packet 0 []]) = Some w \<and>
    concat (drop (length (to_host (eps v 0))) (to_host (eps w 0))) = [0, 0xC2, 1, 0, 0, 0, 8]"
  using line_coding_roundtrip [OF usb_pending_ok(1), of "request 0x21 0x20 0 7" "[0, 0xC2, 1, 0, 0, 0, 8]" "[]" "[IN_token 0]"
      "request 0xA1 0x21 0 7" "[IN_token 0]"] by (simp add: request_def polls_def)

section \<open>Descriptors\<close>

text \<open>How a host takes a configuration apart: every descriptor begins with its length.\<close>

fun descriptors :: "byte list \<Rightarrow> byte list list" where
  "descriptors [] = []"
| "descriptors (n # bs) = (if n = 0 then [n # bs] else (n # take (unat n - 1) bs) # descriptors (drop (unat n - 1) bs))"

definition of_type :: "uint8 \<Rightarrow> byte list list \<Rightarrow> byte list list" where
  "of_type t = filter (\<lambda>d. d ! 1 = t)"

text \<open>The endpoints a configuration announces: address, attributes, size.\<close>

definition announced :: "byte list \<Rightarrow> (uint8 \<times> uint8 \<times> uint16) list" where
  "announced c = map (\<lambda>d. (d ! 2, d ! 3, of_le16 (drop 4 d))) (of_type DTYPE_Endpoint (descriptors c))"

lemma ConfigurationDescriptor_bytes: "ConfigurationDescriptor =
  [9, 2, 62, 0, 2, 1, 0, 0x80, 50, 9, 4, 0, 0, 1, 2, 2, 1, 0, 5, 0x24, 0, 0x10, 1, 4, 0x24, 2, 6, 5, 0x24, 6, 0, 1,
   7, 5, 0x83, 3, 8, 0, 0xFF, 9, 4, 1, 0, 2, 10, 0, 0, 0, 7, 5, 2, 2, 16, 0, 5, 7, 5, 0x81, 2, 16, 0, 5]"
  by code_simp

lemma announced_eq: "announced ConfigurationDescriptor = [(0x83, 3, 8), (2, 2, 16), (0x81, 2, 16)]"
  by code_simp

text \<open>An endpoint is set up as announced: type and direction, and a bank that holds one packet.\<close>

definition as_announced :: "usb \<Rightarrow> uint8 \<times> uint8 \<times> uint16 \<Rightarrow> bool" where
  "as_announced v p \<longleftrightarrow> (case p of (a, t, s) \<Rightarrow>
     UECFG0X (eps v (a AND 0x0F)) = push_bit 6 t OR (if a AND 0x80 \<noteq> 0 then 1 else 0) \<and>
     UECFG1X (eps v (a AND 0x0F)) AND ALLOC \<noteq> 0 \<and> bank_size (eps v (a AND 0x0F)) = unat s)"

lemma link_announced: "link_endpoints v \<Longrightarrow> list_all (as_announced v) (announced ConfigurationDescriptor)"
  by (simp add: announced_eq as_announced_def link_endpoints_def bank_size_def ALLOC_def)

section \<open>Configuration\<close>

lemma SetConfiguration_served:
  assumes "request_pending r u" "bRequest r = REQ_SetConfiguration" "bmRequestType r = 0" "(ucast (wValue r) :: uint8) \<le> 1"
    "sizes_ok u" "UEINTX (eps u 3) AND RXSTPI = 0" "list_all polls evs" "IN_token 0 \<in> set evs"
  shows "\<exists>v. USB_COM_vect evs u = Some v \<and> link_endpoints v \<and> sizes_ok v \<and> USB_Device_ConfigurationNumber v = ucast (wValue r) \<and>
    USB_DeviceState v = (if (ucast (wValue r) :: uint8) \<noteq> 0 \<or> USB_Device_IsAddressSet u then DEVICE_STATE_Configured else DEVICE_STATE_Powered) \<and>
    UDADDR v = UDADDR u \<and> to_host (eps v 0) = to_host (eps u 0) @ [[]] \<and> \<not> rxstp (eps v 0) \<and> driver v = driver u \<and>
    (\<forall>m \<noteq> 0. UEINTX (eps v m) = UEINTX (eps u m) \<and> bank (eps v m) = bank (eps u m) \<and> to_host (eps v m) = to_host (eps u m))"
proof -
  let ?e = "request_endpoint (eps u 0)" and ?u = "request_state r u"
  have e: "attached ?u" "is_control ?e" "rxstp ?e" "\<not> rxout ?e" "to_host ?e = to_host (eps u 0)"
    using assms(1) by (simp_all add: request_pending_def request_endpoint_def is_control_def)
  have "UECFG1X (eps (at0 ?e (UDFNUM u) ?u) n) = UECFG1X (eps u n)" for n by (cases "n = 0") (simp_all add: request_endpoint_def)
  then have sz: "sizes_ok (at0 ?e (UDFNUM u) ?u)" by (rule sizes_ok_cong [OF assms(5)])
  have addr: "USB_Device_IsAddressSet ?u = USB_Device_IsAddressSet u" by (simp add: USB_Device_IsAddressSet_def)
  obtain v rest where v: "answer_request evs (at0 ?e (UDFNUM u) ?u) = Some (v, rest)" "link_endpoints v" "sizes_ok v"
    "USB_Device_ConfigurationNumber v = ucast (wValue r)"
    "USB_DeviceState v = (if (ucast (wValue r) :: uint8) \<noteq> 0 \<or> USB_Device_IsAddressSet u then DEVICE_STATE_Configured else DEVICE_STATE_Powered)"
    "UDADDR v = UDADDR u" "to_host (eps v 0) = to_host ?e @ [[]]" "\<not> rxstp (eps v 0)"
    "\<forall>m \<noteq> 0. UEINTX (eps v m) = UEINTX (eps u m) \<and> bank (eps v m) = bank (eps u m) \<and> to_host (eps v m) = to_host (eps u m)"
    using answer_SetConfiguration [OF request_state_simps(1) e(1-4) sz, of evs "[]"] assms(2-8) addr by auto
  have "USB_COM_vect evs u = Some (leave (Endpoint_GetCurrentEndpoint u) v)" using v(1) by (simp add: USB_COM_vect_answer [OF assms(1)])
  moreover from this have "driver (leave (Endpoint_GetCurrentEndpoint u) v) = driver u" by (rule driver_tasks)
  ultimately show ?thesis using v(2-9) e(5) by (intro exI [of _ "leave (Endpoint_GetCurrentEndpoint u) v"]) simp
qed

text \<open>C21 (functional). Selecting configuration 1 makes the device configured, with every endpoint that the configuration descriptor
  announces set up as announced, and leaves the buffers of the serial link and the data of its endpoints alone. Selecting
  configuration 0 does not take an addressed device back to the addressed state: it reports itself configured although no
  configuration is selected, and the serial link keeps running.\<close>

theorem set_configuration_opens_link:
  assumes "request_pending r u" "bRequest r = REQ_SetConfiguration" "bmRequestType r = 0" "wValue r = 1 \<or> wValue r = 0 \<and> USB_Device_IsAddressSet u"
    "sizes_ok u" "UEINTX (eps u 3) AND RXSTPI = 0" "list_all polls evs" "IN_token 0 \<in> set evs"
  shows "\<exists>v. USB_COM_vect evs u = Some v \<and> USB_DeviceState v = DEVICE_STATE_Configured \<and> USB_Device_ConfigurationNumber v = ucast (wValue r) \<and>
    list_all (as_announced v) (announced ConfigurationDescriptor) \<and> to_host (eps v 0) = to_host (eps u 0) @ [[]] \<and> driver v = driver u \<and>
    (\<forall>m \<noteq> 0. bank (eps v m) = bank (eps u m) \<and> to_host (eps v m) = to_host (eps u m))"
  using SetConfiguration_served [OF assms(1-3) _ assms(5-8)] assms(4) link_announced by fastforce

theorem set_configuration_opens_link_witness:
  "\<exists>v w. USB_COM_vect [Idle, IN_token 0] (usb_pending (request 0 9 1 0)) = Some v \<and> USB_DeviceState v = DEVICE_STATE_Configured \<and>
    list_all (as_announced v) (announced ConfigurationDescriptor) \<and>
    USB_COM_vect [IN_token 0] (usb_pending (request 0 9 0 0)) = Some w \<and> USB_DeviceState w = DEVICE_STATE_Configured"
  using set_configuration_opens_link [OF usb_pending_ok(1), of "request 0 9 1 0" "[Idle, IN_token 0]"] usb_pending_ok(2,3) [of "request 0 9 1 0"]
    set_configuration_opens_link [OF usb_pending_ok(1), of "request 0 9 0 0" "[IN_token 0]"] usb_pending_ok(2-4) [of "request 0 9 0 0"]
  by (auto simp: request_def polls_def REQ_defs)

text \<open>The loop that turns a size in bytes into a bank size ends for every size up to \<open>2^15\<close> with the smallest bank that
  holds it; for a larger size it never ends.\<close>

theorem size_mask_least:
  "Endpoint_BytesToEPSizeMask Bytes =
    (if unat Bytes \<le> 2 ^ 15 then Some (push_bit 4 (of_nat (LEAST k. unat Bytes \<le> 8 * 2 ^ k))) else None)"
proof (cases "unat Bytes \<le> 2 ^ 15")
  case True
  define k where "k = (LEAST k. unat Bytes \<le> 8 * 2 ^ k)"
  have "unat Bytes \<le> 8 * 2 ^ 12" using True by simp
  then have k: "unat Bytes \<le> 8 * 2 ^ k" "k \<le> 12" unfolding k_def by (rule LeastI, rule Least_le)
  have less: "2 ^ (j + 3) < unat Bytes" if "j < k" for j
    using not_less_Least [of j] that unfolding k_def by (fastforce simp: power_add)
  have "Endpoint_BytesToEPSizeMask Bytes = Some (push_bit 4 (of_nat k))"
    using size_mask_upto [OF k(2) less] size_mask_end [OF k(2)] k(1) by (simp add: power_add mult.commute)
  then show ?thesis using True by (simp add: k_def)
next
  case False
  have less: "2 ^ (j + 3) < unat Bytes" if "j \<le> 12" for j
  proof -
    have "(2 :: nat) ^ (j + 3) \<le> 2 ^ 15" using that by (intro power_increasing) auto
    then show ?thesis using False by simp
  qed
  have "Endpoint_BytesToEPSizeMask Bytes = size_mask Bytes (of_nat 12) (2 ^ (12 + 3))"
    by (rule size_mask_upto) (simp_all add: less)
  also have "\<dots> = size_mask Bytes (of_nat (Suc 12)) (2 ^ (Suc 12 + 3))" by (rule size_mask_step) (use less [of 12] in simp_all)
  also have "\<dots> = None"
  proof (rule ccontr)
    assume "size_mask Bytes (of_nat (Suc 12)) (2 ^ (Suc 12 + 3)) \<noteq> None"
    then obtain r where "size_mask Bytes (of_nat (Suc 12)) (2 ^ (Suc 12 + 3)) = Some r" by blast
    from size_mask_zero [OF this] have "Bytes = 0" by simp
    then show False using False by simp
  qed
  finally show ?thesis using False by simp
qed

end
