(* ===== verification/Usb_Enumeration.thy ===== *)
theory Usb_Enumeration
  imports Usb_Properties
begin

text \<open>Enumeration: from power-on through supply, bus reset, address and configuration to an open serial link.\<close>

section \<open>Initialisation and reset\<close>

text \<open>After initialisation: not attached, the interrupts for the supply, for suspension and for a bus reset enabled, none pending.\<close>

definition usb_started :: "usb \<Rightarrow> usb \<Rightarrow> bool" where
  "usb_started u v \<longleftrightarrow> USB_DeviceState v = DEVICE_STATE_Unattached \<and> USB_Device_ConfigurationNumber v = 0 \<and> UDINT v = 0 \<and> USBINT v = 0 \<and>
     UDIEN v = 0x09 \<and> bit (USBCON v) 0 \<and> pll_ok v = pll_ok u \<and> sizes_ok v \<and> driver v = driver u \<and>
     (\<forall>m. UEINTX (eps v m) = UEINTX (eps u m) \<and> bank (eps v m) = bank (eps u m) \<and> to_host (eps v m) = to_host (eps u m))"

lemma configured_fields:
  assumes "configured N c0 c1 u v"
  shows "USB_DeviceState v = USB_DeviceState u" "USB_Device_ConfigurationNumber v = USB_Device_ConfigurationNumber u" "UDINT v = UDINT u"
    "USBINT v = USBINT u" "UDIEN v = UDIEN u" "USBCON v = USBCON u" "pll_ok v = pll_ok u" "driver v = driver u" "UDADDR v = UDADDR u"
proof -
  note r = configured_rest [OF assms]
  show "USB_DeviceState v = USB_DeviceState u" "USB_Device_ConfigurationNumber v = USB_Device_ConfigurationNumber u" "UDINT v = UDINT u"
    "USBINT v = USBINT u" "UDIEN v = UDIEN u" "USBCON v = USBCON u" "pll_ok v = pll_ok u" "driver v = driver u" "UDADDR v = UDADDR u"
    using arg_cong [OF r, of USB_DeviceState] arg_cong [OF r, of USB_Device_ConfigurationNumber] arg_cong [OF r, of UDINT]
      arg_cong [OF r, of USBINT] arg_cong [OF r, of UDIEN] arg_cong [OF r, of USBCON] arg_cong [OF r, of pll_ok] arg_cong [OF r, of driver]
      arg_cong [OF r, of UDADDR] by (simp_all add: driver_updates)
qed

lemma USB_Init_started:
  assumes "sizes_ok u"
  shows "\<exists>v. USB_Init u = Some v \<and> usb_started u v"
proof -
  define a where "a = USB_INT_Enable USB_INT_VBUSTI (USB_Device_SetFullSpeed ((USB_PLL_Off (USB_CLK_Unfreeze (USB_Controller_Reset
    (USB_INT_ClearAllInterrupts (USB_INT_DisableAllInterrupts ((USB_REG_On (USB_OTGPAD_Off u))\<lparr>PLLFRQ := bv 2, USB_IsInitialized := True\<rparr>))))))
    \<lparr>USB_DeviceState := DEVICE_STATE_Unattached, USB_Device_ConfigurationNumber := 0, USB_Device_RemoteWakeupEnabled := False,
     USB_Device_CurrentlySelfPowered := False\<rparr>))"
  note defs = USB_Device_SetFullSpeed_def USB_PLL_Off_def USB_CLK_Unfreeze_def USB_Controller_Reset_def
      USB_INT_ClearAllInterrupts_def USB_INT_DisableAllInterrupts_def USB_REG_On_def USB_OTGPAD_Off_def Let_def
  have a: "eps a = eps u" "USB_DeviceState a = DEVICE_STATE_Unattached" "USB_Device_ConfigurationNumber a = 0" "UDINT a = 0" "USBINT a = 0"
    "UDIEN a = 0" "bit (USBCON a) 0" "pll_ok a = pll_ok u" "driver a = driver u"
    by (simp_all add: a_def defs driver_def bv_def bit_simps)
  have "sizes_ok a" using assms a(1) by (simp add: sizes_ok_def)
  then obtain b where b: "Endpoint_ConfigureEndpoint ENDPOINT_CONTROLEP EP_TYPE_CONTROL CONTROL_ENDPOINT_SIZE 1 a = Some (True, b)"
    "configured 0 0 2 a b" "sizes_ok b" using ConfigureEndpoint_ok(4) by blast
  let ?v = "USB_OTGPAD_On (USB_Attach (USB_INT_Enable USB_INT_EORSTI (USB_INT_Enable USB_INT_SUSPI (USB_INT_Clear USB_INT_SUSPI b))))"
  have i: "USB_Init u = Some ?v"
    using b(1) unfolding USB_Init_def USB_ResetInterface_def USB_Init_Device_def Let_def a_def
    by (simp del: INT_simps)
  have "eps ?v = eps b" "sizes_ok ?v"
    using b(3) by (simp_all add: USB_OTGPAD_On_def USB_Attach_def sizes_ok_def)
  then show ?thesis using i configured_fields [OF b(2)] a b(2) unfolding usb_started_def
    by (intro exI [of _ ?v]) (simp add: USB_OTGPAD_On_def USB_Attach_def bv_def bit_simps driver_def configured_def)
qed

lemma VBUS_on:
  assumes "usb_started u v" "pll_ok u"
  shows "\<exists>w. bus_step (VBUS_change True) v = Some w \<and> USB_DeviceState w = DEVICE_STATE_Powered \<and> UDINT w = 0 \<and> USBINT w = 0 \<and>
    UDIEN w = 0x09 \<and> sizes_ok w \<and> driver w = driver v \<and> eps w = eps v \<and> USB_Device_ConfigurationNumber w = 0"
proof -
  have "USBCON v AND 1 \<noteq> 0" using assms(1) flags_bits(1) [of "USBCON v", unfolded TXINI_def] unfolding usb_started_def by blast
  then show ?thesis using assms
    by (simp add: usb_started_def USB_GEN_vect_def USB_GEN_SOFI_def USB_GEN_VBUSTI_def USB_GEN_SUSPI_def USB_GEN_WAKEUPI_def USB_GEN_EORSTI_def
        USB_VBUS_GetStatus_def USB_PLL_wait_def USB_PLL_On_def Let_def bv_def sizes_ok_def driver_def)
qed

lemma bus_reset:
  assumes "UDINT v = 0" "USBINT v = 0" "UDIEN v = 0x09" "sizes_ok v"
  shows "\<exists>w. bus_step (Bus_interrupt (bv 3)) v = Some w \<and> USB_DeviceState w = DEVICE_STATE_Default \<and> USB_Device_ConfigurationNumber w = 0 \<and>
    is_control (eps w 0) \<and> UEIENX (eps w 0) AND RXSTPE \<noteq> 0 \<and> sizes_ok w \<and> driver w = driver v \<and>
    (\<forall>m. UEINTX (eps w m) = UEINTX (eps v m) \<and> bank (eps w m) = bank (eps v m) \<and> to_host (eps w m) = to_host (eps v m))"
proof -
  let ?a = "v\<lparr>USB_DeviceState := DEVICE_STATE_Default, USB_Device_ConfigurationNumber := 0, UDINT := 0, UDIEN := 0x18\<rparr>"
  have "sizes_ok ?a" using assms(4) by (simp add: sizes_ok_def)
  then obtain b where b: "Endpoint_ConfigureEndpoint ENDPOINT_CONTROLEP EP_TYPE_CONTROL CONTROL_ENDPOINT_SIZE 1 ?a = Some (True, b)"
    "configured 0 0 2 ?a b" "sizes_ok b" "UENUM b = 0" using ConfigureEndpoint_ok(4) by blast
  have "bus_step (Bus_interrupt (bv 3)) v = Some (USB_INT_Enable USB_INT_RXSTPI b)"
    using assms(1-3) b(1)
    by (simp add: USB_GEN_vect_def USB_GEN_SOFI_def USB_GEN_VBUSTI_def USB_GEN_SUSPI_def USB_GEN_WAKEUPI_def USB_GEN_EORSTI_def Let_def bv_def)
  moreover have "sizes_ok (USB_INT_Enable USB_INT_RXSTPI b)" by (rule sizes_ok_cong [OF b(3)]) (simp add: set_cur_def cur_def)
  moreover have "is_control (eps b 0)" using b(2) by (simp add: configured_def is_control_def)
  ultimately show ?thesis using configured_fields [OF b(2)] b(2,4)
    by (intro exI [of _ "USB_INT_Enable USB_INT_RXSTPI b"])
      (simp add: set_cur_def cur_def configured_def is_control_def driver_def RXSTPE_def)
qed

lemma SetAddress_served:
  assumes "request_pending r u" "bRequest r = REQ_SetAddress" "bmRequestType r = 0" "list_all polls evs" "IN_token 0 \<in> set evs"
    "list_all polls evs2" "IN_token 0 \<in> set evs2"
  defines "a \<equiv> ucast (wValue r AND 0x7F) :: uint8"
  shows "\<exists>v. USB_COM_vect (evs @ evs2) u = Some v \<and> UDADDR v = 0x80 OR a \<and>
    USB_DeviceState v = (if a \<noteq> 0 then DEVICE_STATE_Addressed else DEVICE_STATE_Default) \<and> is_control (eps v 0) \<and>
    UEINTX (eps v 0) AND RXOUTI = 0 \<and> to_host (eps v 0) = to_host (eps u 0) @ [[]] \<and> driver v = driver u \<and>
    (\<forall>m \<noteq> 0. eps v m = eps u m) \<and> (\<forall>m. UECFG1X (eps v m) = UECFG1X (eps u m))"
proof -
  let ?e = "request_endpoint (eps u 0)" and ?u = "request_state r u"
  have e: "attached ?u" "is_control ?e" "rxstp ?e" "\<not> rxout ?e" "to_host ?e = to_host (eps u 0)" "UECFG1X ?e = UECFG1X (eps u 0)"
    using assms(1) by (simp_all add: request_pending_def request_endpoint_def is_control_def)
  obtain m i rest where v: "answer_request (evs @ evs2) (at0 ?e (UDFNUM u) ?u) =
      Some (at0 (?e\<lparr>UEINTX := i, bank := [], to_host := to_host ?e @ [[]]\<rparr>) m (?u\<lparr>UDADDR := 0x80 OR a,
        USB_DeviceState := (if a \<noteq> 0 then DEVICE_STATE_Addressed else DEVICE_STATE_Default)\<rparr>), rest)" "i AND RXOUTI = 0"
    using answer_SetAddress [OF request_state_simps(1) e(1-4), of evs evs2 "UDFNUM u"] assms(2-7) unfolding a_def by auto
  let ?v = "at0 (?e\<lparr>UEINTX := i, bank := [], to_host := to_host ?e @ [[]]\<rparr>) m (?u\<lparr>UDADDR := 0x80 OR a,
        USB_DeviceState := (if a \<noteq> 0 then DEVICE_STATE_Addressed else DEVICE_STATE_Default)\<rparr>)"
  let ?w = "leave (Endpoint_GetCurrentEndpoint u) ?v"
  have w: "USB_COM_vect (evs @ evs2) u = Some ?w" using v(1) by (simp add: USB_COM_vect_answer [OF assms(1)])
  have "driver ?w = driver u" by (rule driver_tasks(2) [OF w])
  moreover have "UECFG1X (eps ?w m) = UECFG1X (eps u m)" for m using e(6) by (cases "m = 0") simp_all
  moreover have "is_control (?e\<lparr>UEINTX := i, bank := [], to_host := to_host ?e @ [[]]\<rparr>)" using e(2) by (simp add: is_control_def)
  ultimately show ?thesis using w v(2) e(5) by (intro exI [of _ ?w]) simp
qed

section \<open>The host's script\<close>

text \<open>What a host does when the device is plugged in: supply, bus reset, address, configuration.\<close>

definition set_address :: "uint16 \<Rightarrow> USB_Request_Header_t" where
  "set_address a = \<lparr>bmRequestType = 0, bRequest = REQ_SetAddress, wValue = a, wIndex = 0, wLength = 0\<rparr>"

definition set_configuration :: "uint16 \<Rightarrow> USB_Request_Header_t" where
  "set_configuration k = \<lparr>bmRequestType = 0, bRequest = REQ_SetConfiguration, wValue = k, wIndex = 0, wLength = 0\<rparr>"

definition host_enumerates :: "uint16 \<Rightarrow> usb \<Rightarrow> usb option" where
  "host_enumerates a u = do {
     u \<leftarrow> bus_step (VBUS_change True) u;
     u \<leftarrow> bus_step (Bus_interrupt (bv 3)) u;
     u \<leftarrow> bus_step (SETUP_packet (setup_bytes (set_address a))) u;
     u \<leftarrow> USB_COM_vect [IN_token 0, IN_token 0] u;
     u \<leftarrow> bus_step (SETUP_packet (setup_bytes (set_configuration 1))) u;
     USB_COM_vect [IN_token 0] u }"

text \<open>The endpoints before anything was transferred.\<close>

definition endpoints_idle :: "usb \<Rightarrow> bool" where
  "endpoints_idle u \<longleftrightarrow> sizes_ok u \<and> (\<forall>m. UEINTX (eps u m) = 0 \<and> bank (eps u m) = [] \<and> to_host (eps u m) = [])"

text \<open>A device that the host has reset: default state, control endpoint ready for a request, link buffers empty.\<close>

definition reset_done :: "usb \<Rightarrow> bool" where
  "reset_done u \<longleftrightarrow> USB_DeviceState u = DEVICE_STATE_Default \<and> is_control (eps u 0) \<and> sizes_ok u \<and>
     (\<forall>m. UEINTX (eps u m) = 0 \<and> bank (eps u m) = [] \<and> to_host (eps u m) = []) \<and> \<not> clear_buffer u \<and> usb_wf u \<and> in_bytes u = [] \<and> out_bytes u = []"

lemma host_resets:
  assumes "usb_wf u" "endpoints_idle u" "pll_ok u"
  shows "\<exists>c d e. USB_SetupHardware u = Some c \<and> bus_step (VBUS_change True) c = Some d \<and> bus_step (Bus_interrupt (bv 3)) d = Some e \<and> reset_done e"
proof -
  let ?u = "u\<lparr>MCUSR := MCUSR u AND NOT 0x08, WDTCSR := 0, CLKPR := 0\<rparr>"
  have "sizes_ok ?u" using assms(2) by (simp add: endpoints_idle_def sizes_ok_def)
  then obtain b where b: "USB_Init ?u = Some b" "usb_started ?u b" using USB_Init_started by blast
  define c where "c = (usb_init_buffers b)\<lparr>clear_buffer := False\<rparr>"
  have c: "USB_SetupHardware u = Some c" using b(1) by (simp add: USB_SetupHardware_def c_def Let_def)
  have "driver b = driver u" using b(2) by (simp add: usb_started_def driver_def)
  then have "usb_wf b" using driver_queues(1) assms(1) by blast
  then have q: "usb_wf c" "in_bytes c = []" "out_bytes c = []" "\<not> clear_buffer c"
    by (simp_all add: c_def usb_init_buffers_def usb_wf_def in_bytes_def out_bytes_def rbC.deque.inv_init rbC.deque.abs_init)
  have s: "usb_started c c" "pll_ok c" and idle: "\<forall>m. UEINTX (eps c m) = 0 \<and> bank (eps c m) = [] \<and> to_host (eps c m) = []"
    using b(2) assms(2,3) by (simp_all add: usb_started_def c_def usb_init_buffers_def sizes_ok_def endpoints_idle_def)
  obtain d where d: "bus_step (VBUS_change True) c = Some d" "UDINT d = 0" "USBINT d = 0" "UDIEN d = 0x09" "sizes_ok d" "driver d = driver c" "eps d = eps c"
    using VBUS_on [OF s] by blast
  obtain e where e: "bus_step (Bus_interrupt (bv 3)) d = Some e" "USB_DeviceState e = DEVICE_STATE_Default" "is_control (eps e 0)"
    "sizes_ok e" "driver e = driver d"
    "\<forall>m. UEINTX (eps e m) = UEINTX (eps d m) \<and> bank (eps e m) = bank (eps d m) \<and> to_host (eps e m) = to_host (eps d m)"
    using bus_reset [OF d(2-5)] by blast
  have "driver e = driver c" using e(5) d(6) by simp
  then have "reset_done e" using e(2-4,6) idle d(7) q driver_queues [of e c] by (simp add: reset_done_def)
  then show ?thesis using c d(1) e(1) by blast
qed

text \<open>The two requests of the host.\<close>

lemma host_configures:
  assumes "reset_done e" "a AND 0x7F \<noteq> 0"
  shows "\<exists>f g h v. bus_step (SETUP_packet (setup_bytes (set_address a))) e = Some f \<and> USB_COM_vect [IN_token 0, IN_token 0] f = Some g \<and>
    bus_step (SETUP_packet (setup_bytes (set_configuration 1))) g = Some h \<and> USB_COM_vect [IN_token 0] h = Some v \<and>
    USB_DeviceState v = DEVICE_STATE_Configured \<and> UDADDR v = 0x80 OR ucast (a AND 0x7F) \<and> driver v = driver e \<and> link_endpoints v \<and>
    \<not> rxstp (eps v 0) \<and> (\<forall>m \<noteq> 0. UEINTX (eps v m) = 0 \<and> bank (eps v m) = [] \<and> to_host (eps v m) = [])"
proof -
  have ei: "\<forall>m. UEINTX (eps e m) = 0 \<and> bank (eps e m) = [] \<and> to_host (eps e m) = []" "sizes_ok e" "is_control (eps e 0)" using assms(1) by (simp_all add: reset_done_def)
  have "attached e" "\<not> rxout (eps e 0)" using assms(1) by (simp_all add: attached_def reset_done_def)
  then obtain f where f: "bus_step (SETUP_packet (setup_bytes (set_address a))) e = Some f" "request_pending (set_address a) f"
    "\<forall>m \<noteq> 0. eps f m = eps e m" "\<forall>m. UECFG1X (eps f m) = UECFG1X (eps e m)" "driver f = driver e"
    using setup_arrives [OF _ ei(3), of "set_address a"] by blast
  have poll: "list_all polls [IN_token 0]" "IN_token 0 \<in> set [IN_token 0]" by (simp_all add: polls_def)
  have na: "(ucast (a AND 0x7F) :: uint8) \<noteq> 0"
  proof
    assume "(ucast (a AND 0x7F) :: uint8) = 0"
    then have "a AND 0x7F = 0" by (simp add: eq8 bit_simps) (auto intro!: bit_word_eqI simp: bit_simps less_Suc_eq numeral_eq_Suc)
    with assms(2) show False by simp
  qed
  obtain g where g: "USB_COM_vect ([IN_token 0] @ [IN_token 0]) f = Some g" "UDADDR g = 0x80 OR ucast (a AND 0x7F)"
    "USB_DeviceState g = DEVICE_STATE_Addressed" "is_control (eps g 0)" "UEINTX (eps g 0) AND RXOUTI = 0" "driver g = driver f"
    "\<forall>m \<noteq> 0. eps g m = eps f m" "\<forall>m. UECFG1X (eps g m) = UECFG1X (eps f m)"
    using SetAddress_served [OF f(2) _ _ poll poll] na by (auto simp: set_address_def)
  have "attached g" using g(3) by (simp add: attached_def)
  then obtain h where h: "bus_step (SETUP_packet (setup_bytes (set_configuration 1))) g = Some h" "request_pending (set_configuration 1) h"
    "\<forall>m \<noteq> 0. eps h m = eps g m" "\<forall>m. UECFG1X (eps h m) = UECFG1X (eps g m)" "UDADDR h = UDADDR g" "driver h = driver g"
    using setup_arrives [of g "set_configuration 1"] g(4,5) by blast
  have sz: "sizes_ok h" using f(4) g(8) h(4) by (intro sizes_ok_cong [OF ei(2)]) simp
  have hi: "\<forall>m \<noteq> 0. UEINTX (eps h m) = 0 \<and> bank (eps h m) = [] \<and> to_host (eps h m) = []" using ei(1) f(3) g(7) h(3) by simp
  obtain v where v: "USB_COM_vect [IN_token 0] h = Some v" "link_endpoints v" "USB_DeviceState v = DEVICE_STATE_Configured"
    "UDADDR v = UDADDR h" "driver v = driver h" "\<not> rxstp (eps v 0)"
    "\<forall>m \<noteq> 0. UEINTX (eps v m) = UEINTX (eps h m) \<and> bank (eps v m) = bank (eps h m) \<and> to_host (eps v m) = to_host (eps h m)"
    using SetConfiguration_served [OF h(2) _ _ _ sz _ poll] hi by (auto simp: set_configuration_def)
  show ?thesis using f(1) g h(1) v hi h(5,6) g(6) f(5) by auto
qed

lemma enumerated:
  assumes "usb_wf u" "endpoints_idle u" "pll_ok u" "a AND 0x7F \<noteq> 0"
  shows "\<exists>c v. USB_SetupHardware u = Some c \<and> host_enumerates a c = Some v \<and> USB_DeviceState v = DEVICE_STATE_Configured \<and>
    UDADDR v = 0x80 OR ucast (a AND 0x7F) \<and> link_ok v \<and> in_bytes v = [] \<and> out_bytes v = [] \<and> \<not> clear_buffer v \<and>
    link_endpoints v \<and> \<not> rxstp (eps v 0) \<and> (\<forall>m \<noteq> 0. UEINTX (eps v m) = 0 \<and> bank (eps v m) = [] \<and> to_host (eps v m) = [])"
proof -
  obtain c d e where e: "USB_SetupHardware u = Some c" "bus_step (VBUS_change True) c = Some d" "bus_step (Bus_interrupt (bv 3)) d = Some e" "reset_done e"
    using host_resets [OF assms(1-3)] by blast
  obtain f g h v where v: "bus_step (SETUP_packet (setup_bytes (set_address a))) e = Some f" "USB_COM_vect [IN_token 0, IN_token 0] f = Some g"
    "bus_step (SETUP_packet (setup_bytes (set_configuration 1))) g = Some h" "USB_COM_vect [IN_token 0] h = Some v"
    "USB_DeviceState v = DEVICE_STATE_Configured" "UDADDR v = 0x80 OR ucast (a AND 0x7F)" "driver v = driver e" "link_endpoints v"
    "\<not> rxstp (eps v 0)" "\<forall>m \<noteq> 0. UEINTX (eps v m) = 0 \<and> bank (eps v m) = [] \<and> to_host (eps v m) = []"
    using host_configures [OF e(4) assms(4)] by blast
  note q = driver_queues [OF v(7)]
  have "link_ok v" using q e(4) v(8,10) by (simp add: link_ok_def link_endpoints_def reset_done_def)
  moreover have "host_enumerates a c = Some v" using e(2,3) v(1-4) by (simp add: host_enumerates_def)
  ultimately show ?thesis using e(1) v(5,6,8-10) e(4) q by (auto simp: reset_done_def)
qed

text \<open>C19 (liveness). A host that plugs the car in, resets the bus, assigns an address and selects the configuration ends up with an
  open serial link: the device is configured under that address, both byte queues are empty, and every endpoint that the
  descriptors announce is set up as announced.\<close>

theorem enumeration_opens_link:
  assumes "usb_wf u" "endpoints_idle u" "pll_ok u" "a AND 0x7F \<noteq> 0"
  shows "\<exists>v. (USB_SetupHardware u \<bind> host_enumerates a) = Some v \<and> USB_DeviceState v = DEVICE_STATE_Configured \<and>
    UDADDR v = 0x80 OR ucast (a AND 0x7F) \<and> link_ok v \<and> in_bytes v = [] \<and> out_bytes v = [] \<and>
    list_all (as_announced v) (announced ConfigurationDescriptor)"
  using enumerated [OF assms] link_announced by fastforce

theorem enumeration_opens_link_witness:
  "\<exists>v. (USB_SetupHardware usb_zero \<bind> host_enumerates 5) = Some v \<and> USB_DeviceState v = DEVICE_STATE_Configured \<and> UDADDR v = 0x85"
proof -
  have "endpoints_idle usb_zero" "pll_ok usb_zero" by (simp_all add: endpoints_idle_def sizes_ok_def usb_zero_def endpoint_zero_def)
  then show ?thesis using enumeration_opens_link [of usb_zero 5] usb_zero_ok(1) by auto
qed

end
