(* ===== verification/Link_Session.thy ===== *)
theory Link_Session
  imports Usb_Enumeration
begin

text \<open>
  The serial link as the main loop and the host see it: what has been received, what is waiting in the receiving
  endpoint, what is buffered for the host and what the host has taken, pass by pass.
\<close>

text \<open>
  \<open>i\<close> has been received, \<open>p\<close> is left of the packet in endpoint 2 (\<^const>\<open>None\<close>: it is free), \<open>out\<close> waits in the send buffer,
  \<open>s\<close> is what the host has taken.
\<close>

definition link_at :: "byte list \<Rightarrow> byte list option \<Rightarrow> byte list \<Rightarrow> byte list \<Rightarrow> usb \<Rightarrow> bool" where
  "link_at i p out s u \<longleftrightarrow> link_ok u \<and> USB_DeviceState u = DEVICE_STATE_Configured \<and> UEINTX (eps u 0) AND RXSTPI = 0 \<and>
     \<not> clear_buffer u \<and> in_bytes u = i \<and> out_bytes u = out \<and> sent_bytes u = s \<and>
     (case p of None \<Rightarrow> UEINTX (eps u 2) AND RXOUTI = 0
      | Some d \<Rightarrow> UEINTX (eps u 2) AND RXOUTI \<noteq> 0 \<and> bank (eps u 2) = d \<and> (d = [] \<longrightarrow> reading u))"

lemma link_at_select [simp]: "link_at i p out s (u\<lparr>UENUM := n\<rparr>) = link_at i p out s u"
  by (cases p) (simp_all add: link_at_def)

lemma usb_write_next_byte_frame:
  "eps (usb_write_next_byte u) n = (if n = 1 \<or> n = UENUM u then eps (usb_write_next_byte u) n else eps u n)"
  "USB_DeviceState (usb_write_next_byte u) = USB_DeviceState u" "clear_buffer (usb_write_next_byte u) = clear_buffer u"
  "reading (usb_write_next_byte u) = reading u"
  by (simp_all add: usb_write_next_byte_def Let_def endpoint_defs split: prod.split)

text \<open>Receiving in one pass.\<close>

fun received :: "byte list \<Rightarrow> byte list option \<Rightarrow> byte list \<times> byte list option" where
  "received i None = (i, None)"
| "received i (Some []) = (i, None)"
| "received i (Some (b # d)) = (i @ [b], Some d)"

lemma link_at_read:
  assumes "link_at i p out s u" "length i < 63" "received i p = (i', p')"
  shows "link_at i' p' out s (usb_read_next_byte u)"
proof -
  have ok: "link_ok u" using assms(1) by (simp add: link_at_def)
  note f = usb_read_next_byte_frame [OF ok] and r = usb_read_next_byte_cases [OF ok]
  have keep: "USB_DeviceState (usb_read_next_byte u) = USB_DeviceState u" "eps (usb_read_next_byte u) 0 = eps u 0"
    by (simp_all add: r Let_def split: list.split)
  have o: "out_bytes (usb_read_next_byte u) = out_bytes u" "sent_bytes (usb_read_next_byte u) = sent_bytes u"
    using f by (simp_all add: out_bytes_def sent_bytes_def)
  note k = keep o f(4)
  show ?thesis
  proof (cases "(i, p)" rule: received.cases)
    case (1 j)
    then have "UEINTX (eps u 2) AND RXOUTI = 0" using assms(1) by (simp add: link_at_def)
    then have "usb_read_next_byte u = u\<lparr>UENUM := 2\<rparr>" by (simp add: r Let_def)
    then show ?thesis using assms(1,3) 1 by (simp add: link_at_def)
  next
    case (2 j)
    then have "UEINTX (eps u 2) AND RXOUTI \<noteq> 0" "bank (eps u 2) = []" "reading u" using assms(1) by (simp_all add: link_at_def)
    from usb_read_next_byte_end [OF ok this] show ?thesis using k assms(1,3) 2 by (simp add: link_at_def)
  next
    case (3 j b d)
    then have "UEINTX (eps u 2) AND RXOUTI \<noteq> 0" "bank (eps u 2) = b # d" using assms(1) by (simp_all add: link_at_def)
    note b = usb_read_next_byte_byte [OF ok this]
    have "i' = i @ [b]" "p' = Some d" using assms(3) 3 by simp_all
    then show ?thesis using b k assms(1,2) 3 by (simp add: link_at_def)
  qed
qed

lemma link_at_write:
  assumes "link_at i p out s u" "UENUM u = 2" "UEINTX (eps u 1) AND TXINI \<noteq> 0"
  shows "link_at i p (tl out) (s @ take 1 out) (usb_write_next_byte u)"
proof -
  have ok: "link_ok u" using assms(1) by (simp add: link_at_def)
  note f = usb_write_next_byte_frame [of u]
  show ?thesis
  proof (cases out)
    case Nil
    then show ?thesis using usb_write_next_byte_idle [OF ok _ assms(2)] assms(1) by (simp add: link_at_def)
  next
    case (Cons b bs)
    then have o: "out_bytes u = b # bs" using assms(1) by (simp add: link_at_def)
    note w = usb_write_next_byte_byte [OF ok assms(3) o]
    have "eps (usb_write_next_byte u) 0 = eps u 0" using f(1) [of 0] assms(2) by simp
    then show ?thesis using w f(2-4) assms(1) Cons by (simp add: link_at_def sent_bytes_def split: option.splits)
  qed
qed

text \<open>The host polls the transmitting endpoint, then the upkeep task runs.\<close>

lemma link_at_upkeep:
  assumes "link_at i p out s u" "length i < 63" "received i p = (i', p')"
  shows "\<exists>w v. bus_step (IN_token 1) u = Some w \<and> USB_Upkeep_Task evs w = Some v \<and> link_at i' p' (tl out) (s @ take 1 out) v"
proof -
  let ?w = "set_ep 1 ((eps u 1)\<lparr>UEINTX := UEINTX (eps u 1) OR TXINI\<rparr>) u"
  have w: "link_at i p out s ?w" "UEINTX (eps ?w 1) AND TXINI \<noteq> 0"
    using assms(1) by (simp_all add: link_at_def set_ep_def link_ok_def usb_wf_def in_bytes_def out_bytes_def sent_bytes_def
        flags_bits TXINI_def bit_simps split: option.splits)
  then obtain n where n: "USB_USBTask evs ?w = Some (?w\<lparr>UENUM := n\<rparr>)" using USB_USBTask_idle [of ?w] by (auto simp: link_at_def)
  have at: "link_at i p out s (?w\<lparr>UENUM := n\<rparr>)" using w(1) by simp
  have ok: "link_ok (?w\<lparr>UENUM := n\<rparr>)" using at by (simp add: link_at_def)
  note r = link_at_read [OF at assms(2,3)] usb_read_next_byte_frame(1,2) [OF ok]
  have "link_at i' p' (tl out) (s @ take 1 out) (usb_write_next_byte (usb_read_next_byte (?w\<lparr>UENUM := n\<rparr>)))"
    using link_at_write [OF r(1,2)] r(3) w(2) by simp
  moreover have "USB_DeviceState ?w = DEVICE_STATE_Configured" using w(1) by (simp add: link_at_def)
  ultimately show ?thesis using n by (simp add: USB_Upkeep_Task_def Let_def)
qed

text \<open>A packet arrives at the free endpoint.\<close>

lemma link_at_packet:
  assumes "link_at i None out s u" "d \<noteq> []" "length d \<le> 16"
  shows "\<exists>v. bus_step (OUT_packet 2 d) u = Some v \<and> link_at i (Some d) out s v"
proof -
  have "(UEINTX (eps u 2) OR RXOUTI) AND TXINI = UEINTX (eps u 2) AND TXINI" "(UEINTX (eps u 2) OR RXOUTI) AND RXOUTI \<noteq> 0"
    by (simp_all add: eq8 RXOUTI_def TXINI_def bit_simps)
  then show ?thesis using assms
    by (simp add: link_at_def set_ep_def link_ok_def usb_wf_def in_bytes_def out_bytes_def sent_bytes_def)
qed

text \<open>After enumeration nothing has been sent or received.\<close>

lemma enumerated_link:
  assumes "usb_wf u" "endpoints_idle u" "pll_ok u" "a AND 0x7F \<noteq> 0"
  shows "\<exists>c v. USB_SetupHardware u = Some c \<and> host_enumerates a c = Some v \<and> link_at [] None [] [] v"
  using enumerated [OF assms] by (fastforce simp: link_at_def sent_bytes_def)

end
