(* ===== verification/Car_State.thy ===== *)
theory Car_State
  imports Timing Encoder Led_Servo Battery Proximity Motor_PWM Controller Serial_IO
begin

text \<open>
  The state of the whole firmware: the drivers' states, the message flags and controllers shared by
  the application files (\<^verbatim>\<open>application_defines.h\<close>, \<^verbatim>\<open>Controller.h\<close>), the static variables of
  \<^verbatim>\<open>Obstacle_Avoidance.c\<close> and the local and static variables of \<open>main\<close>. The fifteen flags are a store
  indexed by the names of the global variables. \<open>MSG_FLAG_Init\<close> and \<open>MSG_FLAG_Execute\<close> are the flag
  operations of \<^verbatim>\<open>MEGN540_MessageHandeling.c\<close>.
\<close>

record MSG_FLAG_t =
  active :: bool
  duration :: float32
  last_trigger_time :: Time_t

datatype mf = mf_restart | mf_loop_timer | mf_time_float_send | mf_send_time | mf_send_encoder
  | mf_send_battery | mf_low_battery | mf_battery_task | mf_timed_pwm | mf_sys_data
  | mf_motor_dist_control | mf_motor_vel_control | mf_motor_stop | mf_ir_proximity | mf_obj_avoidance

datatype eOAReadState = READ_L | READ_R | RUN_DSM

datatype eOADSM = INIT | DRIVE_STRAIGHT | TURN_LEFT | TURN_RIGHT | HOLDING

record car =
  regs :: io
  tim :: timing
  enc :: encoder
  bat :: battery
  mot :: motor
  prx :: proximity
  srv :: servo
  ser :: usb
  flag :: "mf \<Rightarrow> MSG_FLAG_t"
  ctr_LeftMotor :: Controller_t
  ctr_RightMotor :: Controller_t
  read_state :: eOAReadState
  OA_state :: eOADSM
  alpha :: uint16
  bat_val :: float32
  ticksL_old :: float32
  ticksR_old :: float32
  time_old :: float32
  ticksL_new :: float32
  ticksR_new :: float32
  time_new :: float32
  first_time :: bool
  proxy_first :: bool
  trip_float :: bool
  start_time_float :: Time_t
  trip_loop :: bool
  start_time_loop :: Time_t

text \<open>Environment of one pass of the main loop: converter, proximity sensor and pins, and the USB library.\<close>

record env =
  adc :: "uint16 option"
  ir :: ir_env
  inputs :: pins
  bus :: "bus_event list"

text \<open>Static storage is zero at power-on.\<close>

definition time_zero :: Time_t where
  "time_zero = \<lparr>millisec = 0, microsec = 0\<rparr>"

definition flag_zero :: MSG_FLAG_t where
  "flag_zero = \<lparr>active = False, duration = 0, last_trigger_time = time_zero\<rparr>"

definition car_zero :: car where
  "car_zero = \<lparr>regs = io_reset, tim = timing_reset, enc = encoder_reset, bat = battery_reset, mot = motor_reset,
     prx = proximity_reset, srv = servo_reset, ser = usb_zero, flag = (\<lambda>k. flag_zero),
     ctr_LeftMotor = controller_zero, ctr_RightMotor = controller_zero, read_state = READ_L, OA_state = INIT, alpha = 0,
     bat_val = 0, ticksL_old = 0, ticksR_old = 0, time_old = 0, ticksL_new = 0, ticksR_new = 0, time_new = 0,
     first_time = False, proxy_first = False, trip_float = False, start_time_float = time_zero, trip_loop = False,
     start_time_loop = time_zero\<rparr>"

section \<open>Calls of the drivers\<close>

definition GetTime_c :: "car \<Rightarrow> Time_t" where "GetTime_c c = GetTime (tim c)"

definition Motor_Left :: "int16 \<Rightarrow> car \<Rightarrow> car option" where
  "Motor_Left pwm c = do { (m, r) \<leftarrow> Motor_PWM_Left pwm (mot c) (regs c); Some (c\<lparr>mot := m, regs := r\<rparr>) }"

definition Motor_Right :: "int16 \<Rightarrow> car \<Rightarrow> car option" where
  "Motor_Right pwm c = do { (m, r) \<leftarrow> Motor_PWM_Right pwm (mot c) (regs c); Some (c\<lparr>mot := m, regs := r\<rparr>) }"

definition Motor_Enable :: "bool \<Rightarrow> car \<Rightarrow> car" where
  "Motor_Enable b c = c\<lparr>mot := Motor_PWM_Enable b (mot c)\<rparr>"

definition IRRead_c :: "eProximitySize \<Rightarrow> env \<Rightarrow> car \<Rightarrow> car" where
  "IRRead_c side e c = (let (p, r) = IRRead side (ir e) (prx c) (regs c) in c\<lparr>prx := p, regs := r\<rparr>)"

definition LED :: "eLEDLights \<Rightarrow> bool \<Rightarrow> car \<Rightarrow> car" where
  "LED l on c = c\<lparr>regs := Set_LED l on (regs c)\<rparr>"

definition Zero_Encoders_c :: "car \<Rightarrow> car" where
  "Zero_Encoders_c c = (let (e, r) = Zero_Encoders (enc c) (regs c) in c\<lparr>enc := e, regs := r\<rparr>)"

definition send_msg :: "string \<Rightarrow> byte \<Rightarrow> byte list \<Rightarrow> car \<Rightarrow> car" where
  "send_msg f cmd d c = c\<lparr>ser := usb_send_msg (cstr f) cmd d (of_nat (length d)) (ser c)\<rparr>"

definition Set_Target_Position :: "float32 \<Rightarrow> float32 \<Rightarrow> car \<Rightarrow> car" where
  "Set_Target_Position l r c =
     c\<lparr>ctr_LeftMotor := Controller_Set_Target_Position (ctr_LeftMotor c) l,
       ctr_RightMotor := Controller_Set_Target_Position (ctr_RightMotor c) r\<rparr>"

definition Set_Target_Velocity :: "float32 \<Rightarrow> float32 \<Rightarrow> car \<Rightarrow> car" where
  "Set_Target_Velocity l r c =
     c\<lparr>ctr_LeftMotor := Controller_Set_Target_Velocity (ctr_LeftMotor c) l,
       ctr_RightMotor := Controller_Set_Target_Velocity (ctr_RightMotor c) r\<rparr>"

section \<open>Message flags\<close>

definition set_flag :: "mf \<Rightarrow> (MSG_FLAG_t \<Rightarrow> MSG_FLAG_t) \<Rightarrow> car \<Rightarrow> car" where
  "set_flag k f c = c\<lparr>flag := (flag c)(k := f (flag c k))\<rparr>"

definition set_active :: "mf \<Rightarrow> bool \<Rightarrow> car \<Rightarrow> car" where
  "set_active k b = set_flag k (\<lambda>f. f\<lparr>active := b\<rparr>)"

definition set_duration :: "mf \<Rightarrow> float32 \<Rightarrow> car \<Rightarrow> car" where
  "set_duration k d = set_flag k (\<lambda>f. f\<lparr>duration := d\<rparr>)"

definition set_trigger :: "mf \<Rightarrow> Time_t \<Rightarrow> car \<Rightarrow> car" where
  "set_trigger k t = set_flag k (\<lambda>f. f\<lparr>last_trigger_time := t\<rparr>)"

definition MSG_FLAG_Init :: "mf \<Rightarrow> car \<Rightarrow> car" where
  "MSG_FLAG_Init k =
     set_flag k (\<lambda>f. f\<lparr>active := False, duration := f_of_int (-1), last_trigger_time := \<lparr>millisec = 0, microsec = 0\<rparr>\<rparr>)"

definition MSG_FLAG_Execute :: "mf \<Rightarrow> car \<Rightarrow> bool" where
  "MSG_FLAG_Execute k c =
     (if active (flag c k)
      then f_le (duration (flag c k)) (f_of_int (uint (millisec (SecondsSince (tim c) (last_trigger_time (flag c k))))))
      else False)"

section \<open>Facts\<close>

lemma MSG_FLAG_Execute_iff:
  "MSG_FLAG_Execute k c \<longleftrightarrow> active (flag c k) \<and>
     f_le (duration (flag c k)) (f_of_int (uint (count_ms (tim c) - millisec (last_trigger_time (flag c k)))))"
  by (simp add: MSG_FLAG_Execute_def)

text \<open>The conversion of a flag's elapsed time to float is exact where it matters: whole durations.\<close>

lemma MSG_FLAG_Execute_period:
  assumes "duration (flag c k) = f_of_int d" "0 \<le> d" "d < 16777216"
  shows "MSG_FLAG_Execute k c \<longleftrightarrow> active (flag c k) \<and>
    d \<le> uint (count_ms (tim c) - millisec (last_trigger_time (flag c k)))"
  using assms by (simp add: MSG_FLAG_Execute_iff f_le_of_int)

lemma f_minus_one: "f_of_int (-1) = 0xBF800000"
  by code_simp

lemma f_minus_one_val: "\<not> f_nan 0xBF800000" "f_val 0xBF800000 = - F_ONE"
  by (simp_all add: f_nan_def f_mag_def F_INF_def f_val_def f_sgn_def mag_val_def F_ONE_def)

lemma f_le_minus_one: "0 \<le> i \<Longrightarrow> f_le (f_of_int (-1)) (f_of_int i)"
  using f_of_int_nonneg [of i] order_trans [of "- F_ONE" 0] by (simp add: f_minus_one f_le_def f_minus_one_val)

text \<open>A one-shot flag (duration \<open>-1\<close>) executes as soon as it is active.\<close>

lemma MSG_FLAG_Execute_once:
  "duration (flag c k) = f_of_int (-1) \<Longrightarrow> MSG_FLAG_Execute k c \<longleftrightarrow> active (flag c k)"
  by (simp add: MSG_FLAG_Execute_iff f_le_minus_one)

lemma MSG_FLAG_Init_ok [simp]:
  "active (flag (MSG_FLAG_Init k c) j) = (if j = k then False else active (flag c j))"
  "duration (flag (MSG_FLAG_Init k c) j) = (if j = k then f_of_int (-1) else duration (flag c j))"
  by (simp_all add: MSG_FLAG_Init_def set_flag_def)

lemma flag_ops [simp]:
  "flag (set_flag k f c) = (flag c)(k := f (flag c k))"
  "active (flag (set_active k b c) j) = (if j = k then b else active (flag c j))"
  "duration (flag (set_active k b c) j) = duration (flag c j)"
  "last_trigger_time (flag (set_active k b c) j) = last_trigger_time (flag c j)"
  "active (flag (set_duration k d c) j) = active (flag c j)"
  "duration (flag (set_duration k d c) j) = (if j = k then d else duration (flag c j))"
  "last_trigger_time (flag (set_duration k d c) j) = last_trigger_time (flag c j)"
  "active (flag (set_trigger k t c) j) = active (flag c j)"
  "duration (flag (set_trigger k t c) j) = duration (flag c j)"
  "last_trigger_time (flag (set_trigger k t c) j) = (if j = k then t else last_trigger_time (flag c j))"
  by (simp_all add: set_flag_def set_active_def set_duration_def set_trigger_def)

end
