(* ===== verification/Obstacle.thy ===== *)
theory Obstacle
  imports Car_State
begin

text \<open>
  \<^verbatim>\<open>Application/Obstacle_Avoidance.c\<close>: one pass reads the left side of the proximity sensor, the next
  the right side, the third runs the decision state machine, which sets the target velocities.
\<close>

definition WHEEL_BASE :: float32 where "WHEEL_BASE = f_lit 98 1000"
definition OA_TURN_VELOCITY :: float32 where "OA_TURN_VELOCITY = f_lit 7 100"
definition OA_ANGLR_VELOCITY :: float32 where "OA_ANGLR_VELOCITY = f_lit 15 10"
definition OA_DRIVE_DC :: int16 where "OA_DRIVE_DC = 30"
definition OA_HOLD_TIMEOUT :: uint16 where "OA_HOLD_TIMEOUT = 4"

definition Init_Obstacle_Avoidance :: "car \<Rightarrow> car" where
  "Init_Obstacle_Avoidance c = c\<lparr>read_state := READ_L, OA_state := INIT, alpha := 0\<rparr>"

text \<open>The velocity of the outer track of a turn.\<close>

definition oa_outer :: float32 where
  "oa_outer = f_add OA_TURN_VELOCITY (f_mul WHEEL_BASE OA_ANGLR_VELOCITY)"

definition Run_State_Machine :: "t_ProximityReturn \<Rightarrow> car \<Rightarrow> car" where
  "Run_State_Machine ir_Return c =
     (case OA_state c of
        INIT \<Rightarrow>
          (let (velocity_left, velocity_right, st) =
                 (if m_nCount ir_Return = 0
                  then (DutyCycle_to_Velocity_Left OA_DRIVE_DC, DutyCycle_to_Velocity_Right OA_DRIVE_DC, DRIVE_STRAIGHT)
                  else if m_eSide ir_Return = RIGHT then (OA_TURN_VELOCITY, oa_outer, TURN_LEFT)
                  else (oa_outer, OA_TURN_VELOCITY, TURN_RIGHT));
               c = c\<lparr>OA_state := st\<rparr>;
               c = Set_Target_Velocity velocity_left velocity_right c;
               c = set_active mf_motor_vel_control True c;
               c = set_duration mf_motor_vel_control (update_period (ctr_LeftMotor c)) c
           in LED RED True c)
      | DRIVE_STRAIGHT \<Rightarrow>
          (if 0 < m_nCount ir_Return then
             (let (velocity_left, velocity_right, st) =
                    (if m_eSide ir_Return = RIGHT then (OA_TURN_VELOCITY, oa_outer, TURN_LEFT)
                     else (oa_outer, OA_TURN_VELOCITY, TURN_RIGHT));
                  c = c\<lparr>OA_state := st\<rparr>
              in Set_Target_Velocity velocity_left velocity_right c)
           else c\<lparr>OA_state := DRIVE_STRAIGHT\<rparr>)
      | TURN_RIGHT \<Rightarrow> if m_nCount ir_Return = 0 then c\<lparr>OA_state := HOLDING\<rparr> else c\<lparr>OA_state := TURN_RIGHT\<rparr>
      | TURN_LEFT \<Rightarrow> if m_nCount ir_Return = 0 then c\<lparr>OA_state := HOLDING\<rparr> else c\<lparr>OA_state := TURN_LEFT\<rparr>
      | HOLDING \<Rightarrow>
          (let c = c\<lparr>alpha := alpha c + 1\<rparr> in
           if OA_HOLD_TIMEOUT \<le> alpha c then
             (let c = c\<lparr>alpha := 0\<rparr>;
                  c = Set_Target_Velocity (DutyCycle_to_Velocity_Left OA_DRIVE_DC) (DutyCycle_to_Velocity_Right OA_DRIVE_DC) c
              in c\<lparr>OA_state := DRIVE_STRAIGHT\<rparr>)
           else c\<lparr>OA_state := HOLDING\<rparr>))"

text \<open>The enumeration has no other values, so the default branch of the switch is not reached.\<close>

definition Run_OA_Task :: "env \<Rightarrow> car \<Rightarrow> bool \<times> car" where
  "Run_OA_Task e c =
     (case read_state c of
        READ_L \<Rightarrow> (True, (IRRead_c LEFT e c)\<lparr>read_state := READ_R\<rparr>)
      | READ_R \<Rightarrow> (True, (IRRead_c RIGHT e c)\<lparr>read_state := RUN_DSM\<rparr>)
      | RUN_DSM \<Rightarrow> (False, (Run_State_Machine (IR_Counts (prx c)) c)\<lparr>read_state := READ_L\<rparr>))"

section \<open>The decision state machine\<close>

text \<open>The states and readings of the machine without the car: its specification.\<close>

definition straightL :: float32 where "straightL = DutyCycle_to_Velocity_Left OA_DRIVE_DC"
definition straightR :: float32 where "straightR = DutyCycle_to_Velocity_Right OA_DRIVE_DC"

fun oa_next :: "eOADSM \<Rightarrow> nat \<Rightarrow> t_ProximityReturn \<Rightarrow> eOADSM \<times> nat" where
  "oa_next INIT a r = ((if m_nCount r = 0 then DRIVE_STRAIGHT else if m_eSide r = RIGHT then TURN_LEFT else TURN_RIGHT), a)"
| "oa_next DRIVE_STRAIGHT a r = ((if m_nCount r = 0 then DRIVE_STRAIGHT else if m_eSide r = RIGHT then TURN_LEFT else TURN_RIGHT), a)"
| "oa_next TURN_LEFT a r = ((if m_nCount r = 0 then HOLDING else TURN_LEFT), a)"
| "oa_next TURN_RIGHT a r = ((if m_nCount r = 0 then HOLDING else TURN_RIGHT), a)"
| "oa_next HOLDING a r = (if 4 \<le> a + 1 then (DRIVE_STRAIGHT, 0) else (HOLDING, a + 1))"

text \<open>The velocities belong to the state: what the car does in each state, except that it keeps turning while holding.\<close>

definition velocities :: "car \<Rightarrow> float32 \<times> float32" where
  "velocities c = (target_vel (ctr_LeftMotor c), target_vel (ctr_RightMotor c))"

fun oa_velocity :: "eOADSM \<Rightarrow> float32 \<times> float32 \<Rightarrow> bool" where
  "oa_velocity INIT v = True"
| "oa_velocity DRIVE_STRAIGHT v = (v = (straightL, straightR))"
| "oa_velocity TURN_LEFT v = (v = (OA_TURN_VELOCITY, oa_outer))"
| "oa_velocity TURN_RIGHT v = (v = (oa_outer, OA_TURN_VELOCITY))"
| "oa_velocity HOLDING v = (v = (OA_TURN_VELOCITY, oa_outer) \<or> v = (oa_outer, OA_TURN_VELOCITY))"

definition oa_inv :: "car \<Rightarrow> bool" where
  "oa_inv c \<longleftrightarrow> oa_velocity (OA_state c) (velocities c) \<and> unat (alpha c) < 4 \<and> (OA_state c \<noteq> HOLDING \<longrightarrow> alpha c = 0) \<and>
     (OA_state c \<noteq> INIT \<longrightarrow> active (flag c mf_motor_vel_control))"

lemmas oa_defs = Set_Target_Velocity_def velocities_def LED_def straightL_def straightR_def OA_HOLD_TIMEOUT_def
  Controller_Set_Target_Velocity_def set_active_def set_duration_def set_flag_def

lemma alpha_small: "unat (alpha c) < 4 \<Longrightarrow> unat (alpha c + 1) = unat (alpha c) + 1"
  by (simp add: unat_word_ariths)

lemma Run_State_Machine_refines:
  assumes "oa_inv c"
  shows "(OA_state (Run_State_Machine r c), unat (alpha (Run_State_Machine r c))) = oa_next (OA_state c) (unat (alpha c)) r"
    "oa_inv (Run_State_Machine r c)"
proof -
  have le: "OA_HOLD_TIMEOUT \<le> alpha c + 1 \<longleftrightarrow> 4 \<le> unat (alpha c) + 1"
    using assms alpha_small [of c] by (simp add: word_le_nat_alt OA_HOLD_TIMEOUT_def oa_inv_def)
  have a: "unat (alpha c + 1) = unat (alpha c) + 1" using assms alpha_small [of c] by (simp add: oa_inv_def)
  show "(OA_state (Run_State_Machine r c), unat (alpha (Run_State_Machine r c))) = oa_next (OA_state c) (unat (alpha c)) r"
    using le a by (cases "OA_state c") (auto simp: Run_State_Machine_def Let_def oa_defs word_gt_0)
  show "oa_inv (Run_State_Machine r c)"
    using assms le a
    by (cases "OA_state c") (auto simp: Run_State_Machine_def Let_def oa_inv_def oa_defs word_gt_0)
qed

text \<open>With a clear view the machine drives straight after at most five decisions.\<close>

definition oa_clear :: "eOADSM \<times> nat \<Rightarrow> eOADSM \<times> nat" where
  "oa_clear s = oa_next (fst s) (snd s) \<lparr>m_nCount = 0, m_eSide = LEFT\<rparr>"

lemma oa_clear_straight:
  assumes "a < 4" "s \<noteq> HOLDING \<longrightarrow> a = 0"
  shows "fst ((oa_clear ^^ 5) (s, a)) = DRIVE_STRAIGHT"
proof -
  have "a = 0 \<or> a = 1 \<or> a = 2 \<or> a = 3" using assms(1) by auto
  then show ?thesis using assms(2) by (cases s) (auto simp: oa_clear_def numeral_eq_Suc)
qed

lemma oa_next_side: "m_nCount r = 0 \<Longrightarrow> oa_next s a r = oa_clear (s, a)"
  by (cases s) (auto simp: oa_clear_def)

lemma Run_State_Machine_clear:
  assumes "oa_inv c" "m_nCount r = 0"
  shows "(OA_state ((Run_State_Machine r ^^ n) c), unat (alpha ((Run_State_Machine r ^^ n) c))) =
      (oa_clear ^^ n) (OA_state c, unat (alpha c)) \<and> oa_inv ((Run_State_Machine r ^^ n) c)"
proof (induction n)
  case (Suc n)
  then show ?case
    using Run_State_Machine_refines [of "(Run_State_Machine r ^^ n) c" r] oa_next_side [OF assms(2)] by simp
qed (use assms(1) in simp)

end
