(* ===== verification/Message_Handling.thy ===== *)
theory Message_Handling
  imports Obstacle
begin

text \<open>
  \<^verbatim>\<open>Application/MEGN540_MessageHandeling.c\<close>: the commands of the host. \<open>Message_Handling_Task\<close> looks at the
  first byte received and runs the handler of that command, one definition for each case of the
  switch statement. A handler acts only when the command and all its argument bytes have arrived;
  reading the argument structure would leave it undefined otherwise (\<^const>\<open>None\<close>).
\<close>

definition TURN_VELOCITY :: float32 where "TURN_VELOCITY = f_lit 1 10"
definition MIN_TURN_ARC :: float32 where "MIN_TURN_ARC = f_lit 4 100"
definition SPIN_DUTYCYLE :: int16 where "SPIN_DUTYCYLE = 25"
definition HALF_WHEEL_BASE :: float32 where "HALF_WHEEL_BASE = f_lit 49 1000"

definition Message_Handling_Init :: "car \<Rightarrow> car" where
  "Message_Handling_Init c =
     (let c = MSG_FLAG_Init mf_restart c;
          c = MSG_FLAG_Init mf_loop_timer c;
          c = MSG_FLAG_Init mf_time_float_send c;
          c = MSG_FLAG_Init mf_send_time c;
          c = MSG_FLAG_Init mf_send_encoder c;
          c = MSG_FLAG_Init mf_send_battery c;
          c = MSG_FLAG_Init mf_low_battery c;
          c = MSG_FLAG_Init mf_timed_pwm c;
          c = MSG_FLAG_Init mf_sys_data c;
          c = MSG_FLAG_Init mf_motor_dist_control c;
          c = MSG_FLAG_Init mf_motor_stop c
      in MSG_FLAG_Init mf_ir_proximity c)"

definition Reset_Drive_Flags :: "car \<Rightarrow> car" where
  "Reset_Drive_Flags c =
     (let c = set_active mf_obj_avoidance False c;
          c = set_active mf_motor_dist_control False c;
          c = set_active mf_motor_vel_control False c;
          c = set_active mf_motor_stop False c;
          c = set_active mf_timed_pwm False c
      in LED RED False c)"

definition MEGN540_Message_Len :: "byte \<Rightarrow> uint8" where
  "MEGN540_Message_Len cmd =
     (if cmd = chr CHR ''~'' then 1 else if cmd = chr CHR ''*'' then 9 else if cmd = chr CHR ''/'' then 9
      else if cmd = chr CHR ''+'' then 9 else if cmd = chr CHR ''-'' then 9 else if cmd = chr CHR ''t'' then 2
      else if cmd = chr CHR ''T'' then 6 else if cmd = chr CHR ''e'' then 1 else if cmd = chr CHR ''E'' then 5
      else if cmd = chr CHR ''b'' then 1 else if cmd = chr CHR ''B'' then 5 else if cmd = chr CHR ''p'' then 5
      else if cmd = chr CHR ''P'' then 9 else if cmd = chr CHR ''s'' then 1 else if cmd = chr CHR ''S'' then 1
      else if cmd = chr CHR ''q'' then 1 else if cmd = chr CHR ''Q'' then 5 else if cmd = chr CHR ''d'' then 9
      else if cmd = chr CHR ''D'' then 13 else if cmd = chr CHR ''v'' then 9 else if cmd = chr CHR ''V'' then 13
      else if cmd = chr CHR ''i'' then 1 else if cmd = chr CHR ''I'' then 5 else if cmd = chr CHR ''G'' then 2
      else if cmd = chr CHR ''O'' then 5 else 0)"

definition Send_Time_Message :: "byte \<Rightarrow> uint8 \<Rightarrow> float32 \<Rightarrow> car \<Rightarrow> car" where
  "Send_Time_Message cmd arg time = send_msg ''ccf'' cmd (arg # le32 time)"

section \<open>Parts that several handlers share\<close>

definition complete :: "char \<Rightarrow> car \<Rightarrow> bool" where
  "complete cmd c \<longleftrightarrow> MEGN540_Message_Len (chr cmd) \<le> usb_msg_length (ser c)"

definition take_byte :: "car \<Rightarrow> byte \<times> car" where
  "take_byte c = (let (b, u) = usb_msg_get (ser c) in (b, c\<lparr>ser := u\<rparr>))"

definition read_struct :: "nat \<Rightarrow> car \<Rightarrow> (byte list \<times> car) option" where
  "read_struct n c =
     (let (ok, d, u) = usb_msg_read_into (replicate n 0) (of_nat n) (ser c)
      in if ok then Some (d, c\<lparr>ser := u\<rparr>) else None)"

definition float_at :: "nat \<Rightarrow> byte list \<Rightarrow> float32" where
  "float_at k d = of_le32 (drop k d)"

definition int_at :: "nat \<Rightarrow> byte list \<Rightarrow> int16" where
  "int_at k d = of_le16 (drop k d)"

definition send_bad_input :: "char \<Rightarrow> car \<Rightarrow> car" where
  "send_bad_input cmd = send_msg ''cc'' (chr cmd) [chr CHR ''?'']"

definition send_battery_low :: "float32 \<Rightarrow> car \<Rightarrow> car" where
  "send_battery_low v = send_msg ''ccccccccf'' (chr CHR ''!'') (cstr ''BAT LOW'' @ le32 v)"

definition send_power_off :: "float32 \<Rightarrow> car \<Rightarrow> car" where
  "send_power_off v = send_msg ''ccccccccccf'' (chr CHR ''!'') (cstr ''POWER OFF'' @ le32 v)"

definition battery_good :: "float32 \<Rightarrow> bool" where
  "battery_good v = f_le (f_lit 475 100) v"

definition seconds_to_ms :: "float32 \<Rightarrow> float32" where
  "seconds_to_ms s = f_mul s (f_of_int 1000)"

text \<open>Activating a reporting flag, once or periodically.\<close>

definition set_once :: "mf \<Rightarrow> car \<Rightarrow> car" where
  "set_once k c = set_duration k (f_of_int (-1)) (set_active k True c)"

definition set_periodic :: "mf \<Rightarrow> float32 \<Rightarrow> car \<Rightarrow> car" where
  "set_periodic k s c = set_duration k (seconds_to_ms s) (set_active k True c)"

section \<open>Arithmetic commands\<close>

definition case_mul :: "car \<Rightarrow> car option" where
  "case_mul c =
     (if complete CHR ''*'' c then do {
       let (_, c) = take_byte c;
       (d, c) \<leftarrow> read_struct 8 c;
       let ret_val = f_mul (float_at 0 d) (float_at 4 d);
       Some (send_msg ''cf'' (chr CHR ''*'') (le32 ret_val) c) }
      else Some c)"

definition case_div :: "car \<Rightarrow> car option" where
  "case_div c =
     (if complete CHR ''/'' c then do {
       let (_, c) = take_byte c;
       (d, c) \<leftarrow> read_struct 8 c;
       if f_ne (float_at 4 d) 0
       then Some (send_msg ''cf'' (chr CHR ''/'') (le32 (f_div (float_at 0 d) (float_at 4 d))) c)
       else Some (send_bad_input CHR ''/'' c) }
      else Some c)"

definition case_add :: "car \<Rightarrow> car option" where
  "case_add c =
     (if complete CHR ''+'' c then do {
       let (_, c) = take_byte c;
       (d, c) \<leftarrow> read_struct 8 c;
       let ret_val = f_add (float_at 0 d) (float_at 4 d);
       Some (send_msg ''cf'' (chr CHR ''+'') (le32 ret_val) c) }
      else Some c)"

definition case_sub :: "car \<Rightarrow> car option" where
  "case_sub c =
     (if complete CHR ''-'' c then do {
       let (_, c) = take_byte c;
       (d, c) \<leftarrow> read_struct 8 c;
       let ret_val = f_sub (float_at 0 d) (float_at 4 d);
       Some (send_msg ''cf'' (chr CHR ''-'') (le32 ret_val) c) }
      else Some c)"

section \<open>Restart and reporting commands\<close>

definition case_restart :: "car \<Rightarrow> car option" where
  "case_restart c = (if complete CHR ''~'' c then Some (set_active mf_restart True c) else Some c)"

definition case_t :: "car \<Rightarrow> car option" where
  "case_t c =
     (if complete CHR ''t'' c then
       (let (_, c) = take_byte c;
            (action, c) = take_byte c
        in if action = 0 then Some (set_once mf_send_time c)
           else if action = 1 then Some (set_once mf_time_float_send c)
           else if action = 2 then Some (set_once mf_loop_timer c)
           else Some (send_bad_input CHR ''t'' c))
      else Some c)"

definition case_T :: "car \<Rightarrow> car option" where
  "case_T c =
     (if complete CHR ''T'' c then do {
       let (_, c) = take_byte c;
       (d, c) \<leftarrow> read_struct 5 c;
       let action = d ! 0;
       let dur = float_at 1 d;
       if action = 0 \<and> f_lt 0 dur then Some (set_periodic mf_send_time dur c)
       else if action = 1 \<and> f_lt 0 dur then Some (set_periodic mf_time_float_send dur c)
       else if action = 2 \<and> f_lt 0 dur then Some (set_periodic mf_loop_timer dur c)
       else Some (send_bad_input CHR ''T'' c) }
      else Some c)"

definition case_e :: "car \<Rightarrow> car option" where
  "case_e c =
     (if complete CHR ''e'' c then
       (let (_, c) = take_byte c in Some (set_once mf_send_encoder c))
      else Some c)"

definition case_E :: "car \<Rightarrow> car option" where
  "case_E c =
     (if complete CHR ''E'' c then do {
       let (_, c) = take_byte c;
       (d, c) \<leftarrow> read_struct 4 c;
       if f_lt 0 (float_at 0 d) then Some (set_periodic mf_send_encoder (float_at 0 d) c)
       else Some (send_bad_input CHR ''E'' c) }
      else Some c)"

definition case_b :: "car \<Rightarrow> car option" where
  "case_b c =
     (if complete CHR ''b'' c then
       (let (_, c) = take_byte c in Some (set_once mf_send_battery c))
      else Some c)"

definition case_B :: "car \<Rightarrow> car option" where
  "case_B c =
     (if complete CHR ''B'' c then do {
       let (_, c) = take_byte c;
       (d, c) \<leftarrow> read_struct 4 c;
       if f_lt 0 (float_at 0 d) then Some (set_periodic mf_send_battery (float_at 0 d) c)
       else Some (send_bad_input CHR ''B'' c) }
      else Some c)"

definition case_q :: "car \<Rightarrow> car option" where
  "case_q c =
     (if complete CHR ''q'' c then
       (let (_, c) = take_byte c in Some (set_once mf_sys_data c))
      else Some c)"

definition case_Q :: "car \<Rightarrow> car option" where
  "case_Q c =
     (if complete CHR ''Q'' c then do {
       let (_, c) = take_byte c;
       (d, c) \<leftarrow> read_struct 4 c;
       if f_lt 0 (float_at 0 d) then Some (set_periodic mf_sys_data (float_at 0 d) c)
       else Some (send_bad_input CHR ''Q'' c) }
      else Some c)"

definition case_i :: "car \<Rightarrow> car option" where
  "case_i c =
     (if complete CHR ''i'' c then
       (let (_, c) = take_byte c in Some (set_once mf_ir_proximity c))
      else Some c)"

definition case_I :: "car \<Rightarrow> car option" where
  "case_I c =
     (if complete CHR ''I'' c then do {
       let (_, c) = take_byte c;
       (d, c) \<leftarrow> read_struct 4 c;
       if f_lt 0 (float_at 0 d) then Some (set_periodic mf_ir_proximity (float_at 0 d) c)
       else Some (send_bad_input CHR ''I'' c) }
      else Some c)"

section \<open>Duty cycle commands\<close>

text \<open>In these two handlers a voltage between 3.5 and 4.75 is reported as low, less as switched off.\<close>

definition pwm_refuse :: "float32 \<Rightarrow> car \<Rightarrow> car" where
  "pwm_refuse v c = (if f_lt (f_lit 35 10) v then send_battery_low v c else send_power_off v c)"

definition case_p :: "car \<Rightarrow> car option" where
  "case_p c =
     (if complete CHR ''p'' c then do {
       let (_, c) = take_byte c;
       (d, c) \<leftarrow> read_struct 4 c;
       let v = Battery_Voltage (bat c);
       if battery_good v then do {
         c \<leftarrow> Motor_Left (int_at 0 d) c;
         c \<leftarrow> Motor_Right (int_at 2 d) c;
         let c = Motor_Enable True c;
         let c = set_active mf_motor_dist_control False c;
         let c = set_active mf_motor_vel_control False c;
         let c = set_active mf_motor_stop False c;
         Some (set_active mf_timed_pwm False c) }
       else Some (pwm_refuse v c) }
      else Some c)"

definition case_P :: "car \<Rightarrow> car option" where
  "case_P c =
     (if complete CHR ''P'' c then do {
       let (_, c) = take_byte c;
       (d, c) \<leftarrow> read_struct 8 c;
       let v = Battery_Voltage (bat c);
       if battery_good v then
         (if f_lt 0 (float_at 4 d) then do {
            c \<leftarrow> Motor_Left (int_at 0 d) c;
            c \<leftarrow> Motor_Right (int_at 2 d) c;
            let c = Motor_Enable True c;
            let c = set_active mf_timed_pwm True c;
            let c = set_trigger mf_timed_pwm (GetTime_c c) c;
            let c = set_duration mf_timed_pwm (seconds_to_ms (float_at 4 d)) c;
            let c = set_active mf_motor_dist_control False c;
            let c = set_active mf_motor_vel_control False c;
            Some (set_active mf_motor_stop False c) }
          else Some (send_bad_input CHR ''P'' c))
       else Some (pwm_refuse v c) }
      else Some c)"

text \<open>\<open>'s'\<close> and \<open>'S'\<close> share this case.\<close>

definition case_s :: "car \<Rightarrow> car option" where
  "case_s c =
     (if complete CHR ''s'' c then do {
       let c = Reset_Drive_Flags c;
       let (_, c) = take_byte c;
       let c = Motor_Enable False c;
       c \<leftarrow> Motor_Left 0 c;
       c \<leftarrow> Motor_Right 0 c;
       let c = Set_Target_Position 0 0 c;
       Some (Set_Target_Velocity 0 0 c) }
      else Some c)"

section \<open>Driving commands\<close>

text \<open>In these handlers a voltage below 3.0 is reported as low, more as switched off.\<close>

definition drive_refuse :: "float32 \<Rightarrow> car \<Rightarrow> car" where
  "drive_refuse v c = (if f_lt v (f_lit 30 10) then send_battery_low v c else send_power_off v c)"

definition is_straight :: "float32 \<Rightarrow> bool" where
  "is_straight angular \<longleftrightarrow> f_lt angular (f_lit 1 100) \<and> f_lt (f_lit (-1) 100) angular"

definition send_go_straight :: "char \<Rightarrow> car \<Rightarrow> car" where
  "send_go_straight cmd = send_msg ''ccccccc'' (chr cmd) (cstr ''Go Str'')"

definition send_turn :: "char \<Rightarrow> car \<Rightarrow> car" where
  "send_turn cmd = send_msg ''ccccc'' (chr cmd) (cstr ''Turn'')"

text \<open>The distances and velocities of the two tracks for a distance command.\<close>

record plan =
  distance_left :: float32
  distance_right :: float32
  velocity_left :: float32
  velocity_right :: float32

definition plan_straight :: "float32 \<Rightarrow> plan" where
  "plan_straight lin = \<lparr>distance_left = lin, distance_right = lin,
     velocity_left = DutyCycle_to_Velocity_Left 75, velocity_right = DutyCycle_to_Velocity_Right 75\<rparr>"

definition plan_spin :: "float32 \<Rightarrow> plan" where
  "plan_spin angular =
     (let d = f_div (f_mul HALF_WHEEL_BASE angular) (f_of_int 2);
          (dl, dr) = (if f_lt 0 angular then (f_mul (f_of_int (-1)) d, d) else (d, f_mul (f_of_int (-1)) d))
      in \<lparr>distance_left = dl, distance_right = dr,
          velocity_left = DutyCycle_to_Velocity_Left SPIN_DUTYCYLE,
          velocity_right = DutyCycle_to_Velocity_Right SPIN_DUTYCYLE\<rparr>)"

definition plan_arc :: "float32 \<Rightarrow> float32 \<Rightarrow> plan" where
  "plan_arc lin angular =
     (if f_lt 0 angular then
        (let dl = lin;
             r = f_div lin angular;
             dr = f_mul angular (f_add r WHEEL_BASE);
             dt = f_div dl TURN_VELOCITY
         in \<lparr>distance_left = dl, distance_right = dr, velocity_left = TURN_VELOCITY, velocity_right = f_div dr dt\<rparr>)
      else
        (let angular = f_mul angular (f_of_int (-1));
             dr = lin;
             r = f_div lin angular;
             dl = f_mul angular (f_add r WHEEL_BASE);
             dt = f_div dr TURN_VELOCITY
         in \<lparr>distance_left = dl, distance_right = dr, velocity_left = f_div dl dt, velocity_right = TURN_VELOCITY\<rparr>))"

definition plan_turn :: "float32 \<Rightarrow> float32 \<Rightarrow> plan" where
  "plan_turn lin angular =
     (let lin = (if f_lt lin 0 then f_mul lin (f_of_int (-1)) else lin)
      in if f_lt lin MIN_TURN_ARC then plan_spin angular else plan_arc lin angular)"

definition apply_plan :: "plan \<Rightarrow> car \<Rightarrow> car" where
  "apply_plan p c =
     (let c = Set_Target_Position (distance_left p) (distance_right p) c;
          c = Set_Target_Velocity (velocity_left p) (velocity_right p) c
      in Zero_Encoders_c c)"

definition drive_distance :: "char \<Rightarrow> float32 \<Rightarrow> float32 \<Rightarrow> car \<Rightarrow> car" where
  "drive_distance cmd lin angular c =
     (let c = Reset_Drive_Flags c;
          (p, c) = (if is_straight angular then (plan_straight lin, send_go_straight cmd c)
                    else (plan_turn lin angular, send_turn cmd c));
          c = apply_plan p c;
          c = set_active mf_motor_dist_control True c
      in set_duration mf_motor_dist_control (update_period (ctr_LeftMotor c)) c)"

definition set_stop_timer :: "float32 \<Rightarrow> car \<Rightarrow> car" where
  "set_stop_timer dur c =
     (let c = set_active mf_motor_stop True c;
          c = set_duration mf_motor_stop (seconds_to_ms dur) c
      in set_trigger mf_motor_stop (GetTime_c c) c)"

definition case_d :: "car \<Rightarrow> car option" where
  "case_d c =
     (if complete CHR ''d'' c then do {
       let (_, c) = take_byte c;
       (d, c) \<leftarrow> read_struct 8 c;
       let v = Battery_Voltage (bat c);
       if battery_good v then Some (drive_distance CHR ''d'' (float_at 0 d) (float_at 4 d) c)
       else Some (drive_refuse v c) }
      else Some c)"

definition case_D :: "car \<Rightarrow> car option" where
  "case_D c =
     (if complete CHR ''D'' c then do {
       let (_, c) = take_byte c;
       (d, c) \<leftarrow> read_struct 12 c;
       let v = Battery_Voltage (bat c);
       if battery_good v
       then Some (set_stop_timer (float_at 8 d) (drive_distance CHR ''D'' (float_at 0 d) (float_at 4 d) c))
       else Some (drive_refuse v c) }
      else Some c)"

definition plan_velocity :: "float32 \<Rightarrow> float32 \<Rightarrow> plan" where
  "plan_velocity velocity angular =
     (let (vl, vr) =
        (if is_straight angular then (velocity, velocity)
         else if f_lt 0 angular then (velocity, f_add velocity (f_mul WHEEL_BASE angular))
         else (f_add velocity (f_mul WHEEL_BASE angular), velocity))
      in \<lparr>distance_left = 0, distance_right = 0, velocity_left = vl, velocity_right = vr\<rparr>)"

definition drive_velocity :: "char \<Rightarrow> float32 \<Rightarrow> float32 \<Rightarrow> car \<Rightarrow> car" where
  "drive_velocity cmd velocity angular c =
     (let c = Reset_Drive_Flags c;
          c = (if is_straight angular then send_go_straight cmd c else send_turn cmd c);
          c = apply_plan (plan_velocity velocity angular) c;
          c = set_active mf_motor_vel_control True c
      in set_duration mf_motor_vel_control (update_period (ctr_LeftMotor c)) c)"

definition case_v :: "car \<Rightarrow> car option" where
  "case_v c =
     (if complete CHR ''v'' c then do {
       let (_, c) = take_byte c;
       (d, c) \<leftarrow> read_struct 8 c;
       let v = Battery_Voltage (bat c);
       if battery_good v then Some (drive_velocity CHR ''v'' (float_at 0 d) (float_at 4 d) c)
       else Some (drive_refuse v c) }
      else Some c)"

definition case_V :: "car \<Rightarrow> car option" where
  "case_V c =
     (if complete CHR ''V'' c then do {
       let (_, c) = take_byte c;
       (d, c) \<leftarrow> read_struct 12 c;
       let v = Battery_Voltage (bat c);
       if battery_good v
       then Some (set_stop_timer (float_at 8 d) (drive_velocity CHR ''V'' (float_at 0 d) (float_at 4 d) c))
       else Some (drive_refuse v c) }
      else Some c)"

section \<open>Gripper, obstacle avoidance, unknown commands\<close>

definition case_G :: "car \<Rightarrow> car option" where
  "case_G c =
     (if complete CHR ''G'' c then do {
       let (_, c) = take_byte c;
       (d, c) \<leftarrow> read_struct 1 c;
       if d ! 0 = chr CHR ''O'' then
         (let (s, r) = Servo_PWM_Init OPEN (srv c) (regs c) in Some (c\<lparr>srv := s, regs := r\<rparr>))
       else if d ! 0 = chr CHR ''C'' then
         (let (s, r) = Servo_PWM_Init CLOSE (srv c) (regs c) in Some (c\<lparr>srv := s, regs := r\<rparr>))
       else Some (send_bad_input CHR ''G'' c) }
      else Some c)"

definition case_O :: "car \<Rightarrow> car option" where
  "case_O c =
     (if complete CHR ''O'' c then do {
       let (_, c) = take_byte c;
       (d, c) \<leftarrow> read_struct 4 c;
       let v = Battery_Voltage (bat c);
       if battery_good v then
         (if f_lt 0 (float_at 0 d) then
            (let c = Reset_Drive_Flags c;
                 c = Init_Obstacle_Avoidance c;
                 c = set_active mf_obj_avoidance True c
             in Some (set_duration mf_obj_avoidance (seconds_to_ms (float_at 0 d)) c))
          else Some (send_bad_input CHR ''O'' c))
       else Some (drive_refuse v c) }
      else Some c)"

definition case_default :: "byte \<Rightarrow> car \<Rightarrow> car option" where
  "case_default cmd c =
     (let c = c\<lparr>ser := usb_flush_input_buffer (ser c)\<rparr>
      in Some (send_msg ''cc'' cmd [chr CHR ''?''] c))"

definition Message_Handling_Task :: "car \<Rightarrow> car option" where
  "Message_Handling_Task c =
     (if usb_msg_length (ser c) = 0 then Some c
      else let cmd = usb_msg_peek (ser c) in
        if cmd = chr CHR ''*'' then case_mul c
        else if cmd = chr CHR ''/'' then case_div c
        else if cmd = chr CHR ''+'' then case_add c
        else if cmd = chr CHR ''-'' then case_sub c
        else if cmd = chr CHR ''~'' then case_restart c
        else if cmd = chr CHR ''t'' then case_t c
        else if cmd = chr CHR ''T'' then case_T c
        else if cmd = chr CHR ''e'' then case_e c
        else if cmd = chr CHR ''E'' then case_E c
        else if cmd = chr CHR ''b'' then case_b c
        else if cmd = chr CHR ''B'' then case_B c
        else if cmd = chr CHR ''p'' then case_p c
        else if cmd = chr CHR ''P'' then case_P c
        else if cmd = chr CHR ''s'' then case_s c
        else if cmd = chr CHR ''S'' then case_s c
        else if cmd = chr CHR ''q'' then case_q c
        else if cmd = chr CHR ''Q'' then case_Q c
        else if cmd = chr CHR ''d'' then case_d c
        else if cmd = chr CHR ''D'' then case_D c
        else if cmd = chr CHR ''v'' then case_v c
        else if cmd = chr CHR ''V'' then case_V c
        else if cmd = chr CHR ''i'' then case_i c
        else if cmd = chr CHR ''I'' then case_I c
        else if cmd = chr CHR ''G'' then case_G c
        else if cmd = chr CHR ''O'' then case_O c
        else case_default cmd c)"

end
