(* ===== verification/Message_Proofs.thy ===== *)
theory Message_Proofs
  imports Message_Handling
begin

text \<open>
  What the message handlers do to the serial link. \<open>talks c c'\<close> says that the step from \<open>c\<close> to \<open>c'\<close>
  keeps the input queue and the well-formedness of the car and appends only messages the host
  accepts. It is reflexive and transitive and holds of every driver call, so it holds of every
  handler once its arguments are read. The locale \<open>command_handler\<close> is the contract of a handler.
\<close>

section \<open>Messages the host accepts\<close>

text \<open>
  The sizes of the format characters the firmware uses, in the standard (unpadded) mode of Python's
  \<open>struct\<close>. The host drops a message whose remaining length differs from the size of its format
  (\<^verbatim>\<open>User/serial_monitor_lib.py\<close>).
\<close>

definition fsize :: "char \<Rightarrow> nat" where
  "fsize k = (if k = CHR ''c'' then 1 else if k = CHR ''h'' then 2 else if k = CHR ''f'' then 4 else 0)"

definition calcsize :: "string \<Rightarrow> nat" where
  "calcsize f = sum_list (map fsize f)"

type_synonym msg = "string \<times> byte \<times> byte list"

fun msg_ok :: "msg \<Rightarrow> bool" where
  "msg_ok (f, cmd, d) \<longleftrightarrow> list_all (\<lambda>k. fsize k \<noteq> 0) f \<and> calcsize f = 1 + length d \<and> length f + length d < 254"

fun encode :: "msg \<Rightarrow> byte list" where
  "encode (f, cmd, d) = msg_frame (cstr f) cmd d"

definition encodes :: "msg list \<Rightarrow> byte list" where
  "encodes ms = concat (map encode ms)"

lemma fsize_chr: "0 < fsize k \<Longrightarrow> chr k \<noteq> 0"
  by (auto simp: fsize_def chr_def split: if_splits)

lemma msg_ok_no_null: "msg_ok (f, cmd, d) \<Longrightarrow> 0 \<notin> set (cstr f)"
  by (auto simp: cstr_def list_all_iff) (metis fsize_chr)

text \<open>A well-formed car.\<close>

definition car_ok :: "car \<Rightarrow> bool" where
  "car_ok c \<longleftrightarrow> usb_wf (ser c) \<and> uint (ICR1 (mot c)) \<le> 32767"

definition talks :: "car \<Rightarrow> car \<Rightarrow> bool" where
  "talks c c' \<longleftrightarrow> (car_ok c \<longrightarrow> car_ok c' \<and> in_bytes (ser c') = in_bytes (ser c) \<and>
     (\<exists>ms. list_all msg_ok ms \<and> out_bytes (ser c') = newest 63 (out_bytes (ser c) @ encodes ms)))"

lemma out_bytes_short: "usb_wf u \<Longrightarrow> length (out_bytes u) \<le> 63"
  using rbC.deque.length_abs by (fastforce simp: usb_wf_def out_bytes_def)

lemma talksI:
  assumes "ser c' = ser c" "ICR1 (mot c') = ICR1 (mot c)"
  shows "talks c c'"
  using assms out_bytes_short by (auto simp: talks_def car_ok_def encodes_def intro!: exI [of _ "[]"])

lemma talks_refl [intro, simp]: "talks c c"
  by (rule talksI) simp_all

lemma talks_trans [trans]: "talks a b \<Longrightarrow> talks b c \<Longrightarrow> talks a c"
proof -
  assume ab: "talks a b" and bc: "talks b c"
  show "talks a c" unfolding talks_def
  proof
    assume "car_ok a"
    then obtain ms where ms: "car_ok b" "in_bytes (ser b) = in_bytes (ser a)" "list_all msg_ok ms"
      "out_bytes (ser b) = newest 63 (out_bytes (ser a) @ encodes ms)" using ab unfolding talks_def by blast
    then obtain ns where ns: "car_ok c" "in_bytes (ser c) = in_bytes (ser b)" "list_all msg_ok ns"
      "out_bytes (ser c) = newest 63 (out_bytes (ser b) @ encodes ns)" using bc unfolding talks_def by blast
    have "out_bytes (ser c) = newest 63 (out_bytes (ser a) @ encodes (ms @ ns))"
      unfolding ns(4) ms(4) newest_append by (simp add: encodes_def)
    then show "car_ok c \<and> in_bytes (ser c) = in_bytes (ser a) \<and>
      (\<exists>ms. list_all msg_ok ms \<and> out_bytes (ser c) = newest 63 (out_bytes (ser a) @ encodes ms))"
      using ms ns by (metis list_all_append)
  qed
qed

named_theorems talk "calls that only append messages the host accepts"

lemma send_msg_link:
  assumes "msg_ok (f, cmd, d)" "usb_wf (ser c)"
  shows "usb_wf (ser (send_msg f cmd d c))" "in_bytes (ser (send_msg f cmd d c)) = in_bytes (ser c)"
    "out_bytes (ser (send_msg f cmd d c)) = newest 63 (out_bytes (ser c) @ encode (f, cmd, d))"
proof -
  have "unat (of_nat (length d) :: uint8) = length d" using assms(1) by (intro unat_of_nat8) simp
  then have "length d = unat (of_nat (length d) :: uint8)" by simp
  then show "usb_wf (ser (send_msg f cmd d c))" "in_bytes (ser (send_msg f cmd d c)) = in_bytes (ser c)"
    "out_bytes (ser (send_msg f cmd d c)) = newest 63 (out_bytes (ser c) @ encode (f, cmd, d))"
    using link.send [OF assms(2) msg_ok_no_null [OF assms(1)]] by (simp_all add: send_msg_def)
qed

lemma talks_send_msg: "msg_ok (f, cmd, d) \<Longrightarrow> talks c (send_msg f cmd d c)"
  using send_msg_link [of f cmd d c] unfolding talks_def car_ok_def
  by (auto simp: send_msg_def encodes_def intro!: exI [of _ "[(f, cmd, d)]"])

lemma talks_set_flag [talk]:
  "talks c (set_flag k f c)" "talks c (set_active k b c)" "talks c (set_duration k d c)" "talks c (set_trigger k t c)"
  by (rule talksI; simp add: set_flag_def set_active_def set_duration_def set_trigger_def)+

lemma talks_LED [talk]: "talks c (LED l b c)"
  by (rule talksI) (simp_all add: LED_def)

lemma talks_targets [talk]: "talks c (Set_Target_Position l r c)" "talks c (Set_Target_Velocity l r c)"
  by (rule talksI; simp add: Set_Target_Position_def Set_Target_Velocity_def)+

lemma talks_Zero_Encoders [talk]: "talks c (Zero_Encoders_c c)"
  by (rule talksI) (simp_all add: Zero_Encoders_c_def split: prod.split)

lemma talks_Motor_Enable [talk]: "talks c (Motor_Enable b c)"
  by (rule talksI) (simp_all add: Motor_Enable_def Motor_PWM_Enable_def)

lemma talks_Motor_Left: "Motor_Left p c = Some c' \<Longrightarrow> talks c c'"
  by (rule talksI) (auto simp: Motor_Left_def Motor_PWM_Left_unfold bind_eq_Some_iff split: if_splits)

lemma talks_Motor_Right: "Motor_Right p c = Some c' \<Longrightarrow> talks c c'"
  by (rule talksI) (auto simp: Motor_Right_def Motor_PWM_Right_unfold bind_eq_Some_iff split: if_splits)

lemma talks_bad_input [talk]: "talks c (send_bad_input ch c)"
  unfolding send_bad_input_def by (rule talks_send_msg) (simp add: fsize_def calcsize_def)

lemma talks_battery [talk]: "talks c (send_battery_low v c)" "talks c (send_power_off v c)"
  unfolding send_battery_low_def send_power_off_def by (rule talks_send_msg, simp add: fsize_def calcsize_def)+

lemma talks_go [talk]: "talks c (send_go_straight ch c)" "talks c (send_turn ch c)"
  unfolding send_go_straight_def send_turn_def by (rule talks_send_msg, simp add: fsize_def calcsize_def)+

lemma talks_Send_Time [talk]: "talks c (Send_Time_Message cmd a t c)"
  unfolding Send_Time_Message_def by (rule talks_send_msg) (simp add: fsize_def calcsize_def)

lemma talks_result [talk]: "talks c (send_msg ''cf'' cmd (le32 x) c)"
  by (rule talks_send_msg) (simp add: fsize_def calcsize_def)

lemmas talk_step = talk [THEN [2] talks_trans]

section \<open>The contract of a handler\<close>

text \<open>
  A handler of a command with \<open>n\<close> argument bytes does nothing until all have arrived; then it takes
  the command and its arguments off the input queue. Its effect is defined for the arguments that
  satisfy \<open>pre\<close>.
\<close>

text \<open>What is left of the input after one command: an unknown command clears it, \<open>'~'\<close> stays in it.\<close>

fun consumed :: "byte list \<Rightarrow> byte list" where
  "consumed [] = []"
| "consumed (b # bs) =
     (if MEGN540_Message_Len b = 0 then []
      else if b = chr CHR ''~'' then b # bs
      else if unat (MEGN540_Message_Len b) \<le> length (b # bs) then drop (unat (MEGN540_Message_Len b)) (b # bs)
      else b # bs)"

definition task_post :: "car \<Rightarrow> car \<Rightarrow> bool" where
  "task_post c c' \<longleftrightarrow> car_ok c' \<and> in_bytes (ser c') = consumed (in_bytes (ser c)) \<and>
     (\<exists>ms. list_all msg_ok ms \<and> out_bytes (ser c') = newest 63 (out_bytes (ser c) @ encodes ms))"

locale command_handler =
  fixes ch :: char and n :: nat and pre :: "byte list \<Rightarrow> bool" and h :: "car \<Rightarrow> car option"
  assumes len: "unat (MEGN540_Message_Len (chr ch)) = 1 + n"
    and wait: "\<not> complete ch c \<Longrightarrow> h c = Some c"
    and act: "car_ok c \<Longrightarrow> in_bytes (ser c) = chr ch # d @ rest \<Longrightarrow> length d = n \<Longrightarrow> h c = Some c'
      \<Longrightarrow> \<exists>u. usb_wf u \<and> in_bytes u = rest \<and> out_bytes u = out_bytes (ser c) \<and> talks (c\<lparr>ser := u\<rparr>) c'"
    and total: "car_ok c \<Longrightarrow> in_bytes (ser c) = chr ch # d @ rest \<Longrightarrow> length d = n \<Longrightarrow> pre d \<Longrightarrow> h c \<noteq> None"
begin

lemma complete_iff:
  "car_ok c \<Longrightarrow> complete ch c \<longleftrightarrow> 1 + n \<le> length (in_bytes (ser c))"
  using len by (simp add: complete_def word_le_nat_alt usb_msg_length_ok car_ok_def)

text \<open>All or nothing: the handler leaves the car as it is, or it consumes the whole command.\<close>

lemma consumes:
  assumes "car_ok c" "in_bytes (ser c) = chr ch # bs" "h c = Some c'"
  shows "car_ok c' \<and> (if n \<le> length bs then in_bytes (ser c') = drop n bs else c' = c) \<and>
    (\<exists>ms. list_all msg_ok ms \<and> out_bytes (ser c') = newest 63 (out_bytes (ser c) @ encodes ms))"
proof (cases "n \<le> length bs")
  case True
  then have "in_bytes (ser c) = chr ch # take n bs @ drop n bs" "length (take n bs) = n" using assms(2) by simp_all
  then obtain u where u: "usb_wf u" "in_bytes u = drop n bs" "out_bytes u = out_bytes (ser c)" "talks (c\<lparr>ser := u\<rparr>) c'"
    using act [OF assms(1)] assms(3) by blast
  then have "car_ok (c\<lparr>ser := u\<rparr>)" using assms(1) by (simp add: car_ok_def)
  then show ?thesis using u True by (auto simp: talks_def)
next
  case False
  then have "c' = c" using wait complete_iff [OF assms(1)] assms(2,3) by simp
  then show ?thesis using False assms(1) out_bytes_short [of "ser c"]
    by (auto simp: car_ok_def encodes_def intro!: exI [of _ "[]"])
qed

lemma post:
  assumes "chr ch \<noteq> chr CHR ''~''" "car_ok c" "in_bytes (ser c) = chr ch # bs" "h c = Some c'"
  shows "task_post c c'"
  using consumes [OF assms(2-4)] assms(1,3) len by (auto simp: task_post_def)

lemma defined:
  assumes "car_ok c" "in_bytes (ser c) = chr ch # bs" "n \<le> length bs \<longrightarrow> pre (take n bs)"
  shows "h c \<noteq> None"
proof (cases "n \<le> length bs")
  case True
  then show ?thesis using total [OF assms(1), of "take n bs" "drop n bs"] assms(2,3) by simp
next
  case False
  then show ?thesis using wait complete_iff [OF assms(1)] assms(2) by simp
qed

end

text \<open>Reading the arguments, as the handlers do it.\<close>

lemma read_args:
  assumes "car_ok c" "in_bytes (ser c) = b # d @ rest" "length d < 256"
  shows "\<exists>u. read_struct (length d) (snd (take_byte c)) = Some (d, c\<lparr>ser := u\<rparr>) \<and>
    usb_wf u \<and> in_bytes u = rest \<and> out_bytes u = out_bytes (ser c)"
proof -
  have n: "unat (of_nat (length d) :: uint8) = length d" using assms(3) by (rule unat_of_nat8)
  obtain v where v: "usb_msg_read_into (replicate (length d) 0) (of_nat (length d)) (snd (usb_msg_get (ser c))) = (True, d, v)"
    "usb_wf v" "in_bytes v = rest" "out_bytes v = out_bytes (ser c)"
    using link.take_command [of "ser c" b d rest "of_nat (length d)" "replicate (length d) 0"] assms n
    by (auto simp: car_ok_def)
  then show ?thesis by (auto simp: read_struct_def take_byte_def split: prod.split)
qed

lemma take_one:
  assumes "car_ok c" "in_bytes (ser c) = b # rest"
  shows "\<exists>u. take_byte c = (b, c\<lparr>ser := u\<rparr>) \<and> usb_wf u \<and> in_bytes u = rest \<and> out_bytes u = out_bytes (ser c)"
  using link.get [of "ser c" b rest] assms by (auto simp: take_byte_def car_ok_def)

lemma complete_if:
  "car_ok c \<Longrightarrow> in_bytes (ser c) = chr ch # d @ rest \<Longrightarrow> unat (MEGN540_Message_Len (chr ch)) = 1 + length d \<Longrightarrow> complete ch c"
  by (simp add: complete_def word_le_nat_alt usb_msg_length_ok car_ok_def)

text \<open>The shape of most handlers: wait for the arguments, take them, act on them.\<close>

lemma handler_shape:
  assumes h: "\<And>c. h c = (if complete ch c then do { let (_, c) = take_byte c; (d, c) \<leftarrow> read_struct n c; body d c } else Some c)"
    and len: "unat (MEGN540_Message_Len (chr ch)) = 1 + n" and n: "n < 256"
    and body: "\<And>d c c'. length d = n \<Longrightarrow> body d c = Some c' \<Longrightarrow> talks c c'"
    and total: "\<And>d c. car_ok c \<Longrightarrow> pre d \<Longrightarrow> body d c \<noteq> None"
  shows "command_handler ch n pre h"
proof
  show "unat (MEGN540_Message_Len (chr ch)) = 1 + n" by (rule len)
  show "h c = Some c" if "\<not> complete ch c" for c using that by (simp add: h)
  fix c d rest
  assume c: "car_ok c" "in_bytes (ser c) = chr ch # d @ rest" "length d = n"
  obtain u where u: "read_struct n (snd (take_byte c)) = Some (d, c\<lparr>ser := u\<rparr>)"
    "usb_wf u" "in_bytes u = rest" "out_bytes u = out_bytes (ser c)"
    using read_args [OF c(1,2)] c(3) n by auto
  have "complete ch c" using complete_if [OF c(1,2)] len c(3) by simp
  then have hc: "h c = body d (c\<lparr>ser := u\<rparr>)" using u(1) by (cases "take_byte c") (simp add: h)
  show "\<exists>u. usb_wf u \<and> in_bytes u = rest \<and> out_bytes u = out_bytes (ser c) \<and> talks (c\<lparr>ser := u\<rparr>) c'" if "h c = Some c'" for c'
    using body [OF c(3)] that hc u by auto
  show "h c \<noteq> None" if "pre d" using total that hc u(2) c(1) by (simp add: car_ok_def)
qed

lemma msg_len [simp]:
  "MEGN540_Message_Len (chr CHR ''*'') = 9" "MEGN540_Message_Len (chr CHR ''/'') = 9" "MEGN540_Message_Len (chr CHR ''+'') = 9"
  "MEGN540_Message_Len (chr CHR ''-'') = 9" "MEGN540_Message_Len (chr CHR ''~'') = 1" "MEGN540_Message_Len (chr CHR ''t'') = 2"
  "MEGN540_Message_Len (chr CHR ''T'') = 6" "MEGN540_Message_Len (chr CHR ''e'') = 1" "MEGN540_Message_Len (chr CHR ''E'') = 5"
  "MEGN540_Message_Len (chr CHR ''b'') = 1" "MEGN540_Message_Len (chr CHR ''B'') = 5" "MEGN540_Message_Len (chr CHR ''p'') = 5"
  "MEGN540_Message_Len (chr CHR ''P'') = 9" "MEGN540_Message_Len (chr CHR ''s'') = 1" "MEGN540_Message_Len (chr CHR ''S'') = 1"
  "MEGN540_Message_Len (chr CHR ''q'') = 1" "MEGN540_Message_Len (chr CHR ''Q'') = 5" "MEGN540_Message_Len (chr CHR ''d'') = 9"
  "MEGN540_Message_Len (chr CHR ''D'') = 13" "MEGN540_Message_Len (chr CHR ''v'') = 9" "MEGN540_Message_Len (chr CHR ''V'') = 13"
  "MEGN540_Message_Len (chr CHR ''i'') = 1" "MEGN540_Message_Len (chr CHR ''I'') = 5" "MEGN540_Message_Len (chr CHR ''G'') = 2"
  "MEGN540_Message_Len (chr CHR ''O'') = 5"
  by code_simp+

lemma talks_Reset [talk]: "talks c (Reset_Drive_Flags c)"
  unfolding Reset_Drive_Flags_def Let_def by (intro talk_step talks_refl)

lemma talks_set_once [talk]: "talks c (set_once k c)" "talks c (set_periodic k s c)"
  unfolding set_once_def set_periodic_def by (intro talk_step talks_refl)+

section \<open>The handlers keep the contract\<close>

lemma talks_plan [talk]: "talks c (apply_plan p c)"
  unfolding apply_plan_def Let_def by (intro talk [THEN [2] talks_trans] talks_refl)

lemma talks_refuse [talk]: "talks c (drive_refuse v c)" "talks c (pwm_refuse v c)"
  by (simp_all add: drive_refuse_def pwm_refuse_def talk)

lemma talks_stop_timer [talk]: "talks c (set_stop_timer d c)"
  unfolding set_stop_timer_def Let_def by (intro talk [THEN [2] talks_trans] talks_refl)

lemma talks_drive [talk]: "talks c (drive_distance ch x a c)" "talks c (drive_velocity ch x a c)"
  unfolding drive_distance_def drive_velocity_def Let_def
  by (cases "is_straight a"; simp; intro talk [THEN [2] talks_trans] talks_refl)+

lemma talks_motors: "Motor_Left l c = Some a \<Longrightarrow> Motor_Right r a = Some b \<Longrightarrow> talks c b"
  using talks_Motor_Left talks_Motor_Right talks_trans by metis

lemma talks_Init_OA [talk]: "talks c (Init_Obstacle_Avoidance c)"
  by (rule talksI) (simp_all add: Init_Obstacle_Avoidance_def)

lemma talks_gripper [talk]: "talks c (c\<lparr>srv := s, regs := r\<rparr>)"
  by (rule talksI) simp_all

text \<open>Undefined: the negation of \<open>INT16_MIN\<close>.\<close>

definition pwm_args :: "byte list \<Rightarrow> bool" where
  "pwm_args d \<longleftrightarrow> sint (int_at 0 d) \<noteq> - 32768 \<and> sint (int_at 2 d) \<noteq> - 32768"

lemma Motor_Left_defined:
  assumes "car_ok c" "sint p \<noteq> - 32768"
  shows "\<exists>c'. Motor_Left p c = Some c' \<and> car_ok c'"
  using Motor_PWM_Left_ok [of "mot c" p "regs c"] talks_Motor_Left [of p c] assms
  by (fastforce simp: Motor_Left_def car_ok_def talks_def)

lemma Motor_Right_defined:
  assumes "car_ok c" "sint p \<noteq> - 32768"
  shows "\<exists>c'. Motor_Right p c = Some c' \<and> car_ok c'"
  using Motor_PWM_Right_ok [of "mot c" p "regs c"] talks_Motor_Right [of p c] assms
  by (fastforce simp: Motor_Right_def car_ok_def talks_def)

lemma motors_defined:
  assumes "car_ok c" "sint l \<noteq> - 32768" "sint r \<noteq> - 32768"
  shows "\<exists>a b. Motor_Left l c = Some a \<and> Motor_Right r a = Some b \<and> car_ok b"
  using Motor_Left_defined Motor_Right_defined assms by blast

lemmas talk_more = talk [THEN [2] talks_trans] talks_refl

interpretation h_mul: command_handler "CHR ''*''" 8 "\<lambda>d. True" case_mul
  by (rule handler_shape [OF case_mul_def]) (auto simp: Let_def talk_more split: if_splits)

interpretation h_div: command_handler "CHR ''/''" 8 "\<lambda>d. True" case_div
  by (rule handler_shape [OF case_div_def]) (auto simp: Let_def talk_more split: if_splits)

interpretation h_add: command_handler "CHR ''+''" 8 "\<lambda>d. True" case_add
  by (rule handler_shape [OF case_add_def]) (auto simp: Let_def talk_more split: if_splits)

interpretation h_sub: command_handler "CHR ''-''" 8 "\<lambda>d. True" case_sub
  by (rule handler_shape [OF case_sub_def]) (auto simp: Let_def talk_more split: if_splits)

interpretation h_T: command_handler "CHR ''T''" 5 "\<lambda>d. True" case_T
  by (rule handler_shape [OF case_T_def]) (auto simp: Let_def talk_more split: if_splits)

interpretation h_E: command_handler "CHR ''E''" 4 "\<lambda>d. True" case_E
  by (rule handler_shape [OF case_E_def]) (auto simp: Let_def talk_more split: if_splits)

interpretation h_B: command_handler "CHR ''B''" 4 "\<lambda>d. True" case_B
  by (rule handler_shape [OF case_B_def]) (auto simp: Let_def talk_more split: if_splits)

interpretation h_Q: command_handler "CHR ''Q''" 4 "\<lambda>d. True" case_Q
  by (rule handler_shape [OF case_Q_def]) (auto simp: Let_def talk_more split: if_splits)

interpretation h_I: command_handler "CHR ''I''" 4 "\<lambda>d. True" case_I
  by (rule handler_shape [OF case_I_def]) (auto simp: Let_def talk_more split: if_splits)

interpretation h_d: command_handler "CHR ''d''" 8 "\<lambda>d. True" case_d
  by (rule handler_shape [OF case_d_def]) (auto simp: Let_def talk_more split: if_splits)

interpretation h_D: command_handler "CHR ''D''" 12 "\<lambda>d. True" case_D
  by (rule handler_shape [OF case_D_def]) (auto simp: Let_def talk_more split: if_splits)

interpretation h_v: command_handler "CHR ''v''" 8 "\<lambda>d. True" case_v
  by (rule handler_shape [OF case_v_def]) (auto simp: Let_def talk_more split: if_splits)

interpretation h_V: command_handler "CHR ''V''" 12 "\<lambda>d. True" case_V
  by (rule handler_shape [OF case_V_def]) (auto simp: Let_def talk_more split: if_splits)

interpretation h_p: command_handler "CHR ''p''" 4 pwm_args case_p
proof (rule handler_shape [OF case_p_def], goal_cases)
  case (4 d c)
  then obtain a b where "Motor_Left (int_at 0 d) c = Some a" "Motor_Right (int_at 2 d) a = Some b"
    using motors_defined [of c "int_at 0 d" "int_at 2 d"] by (auto simp: pwm_args_def)
  then show ?case by (auto simp: Let_def)
qed (auto simp: Let_def bind_eq_Some_iff talk_more dest: talks_motors split: if_splits)

interpretation h_P: command_handler "CHR ''P''" 8 pwm_args case_P
proof (rule handler_shape [OF case_P_def], goal_cases)
  case (4 d c)
  then obtain a b where "Motor_Left (int_at 0 d) c = Some a" "Motor_Right (int_at 2 d) a = Some b"
    using motors_defined [of c "int_at 0 d" "int_at 2 d"] by (auto simp: pwm_args_def)
  then show ?case by (auto simp: Let_def)
qed (auto simp: Let_def bind_eq_Some_iff talk_more dest: talks_motors split: if_splits)

interpretation h_O: command_handler "CHR ''O''" 4 "\<lambda>d. True" case_O
  by (rule handler_shape [OF case_O_def]) (auto simp: Let_def talk_more split: if_splits)

interpretation h_G: command_handler "CHR ''G''" 1 "\<lambda>d. True" case_G
  by (rule handler_shape [OF case_G_def]) (auto simp: Let_def talk_more split: if_splits prod.splits)

lemma handler_shape0:
  assumes h: "\<And>c. h c = (if complete ch c then (let (_, c) = take_byte c in body c) else Some c)"
    and len: "unat (MEGN540_Message_Len (chr ch)) = 1"
    and body: "\<And>c c'. body c = Some c' \<Longrightarrow> talks c c'"
    and total: "\<And>c. car_ok c \<Longrightarrow> body c \<noteq> None"
  shows "command_handler ch 0 (\<lambda>d. True) h"
proof
  show "unat (MEGN540_Message_Len (chr ch)) = 1 + 0" by (simp add: len)
  show "h c = Some c" if "\<not> complete ch c" for c using that by (simp add: h)
  fix c and d rest :: "byte list"
  assume c: "car_ok c" "in_bytes (ser c) = chr ch # d @ rest" "length d = 0"
  obtain u where u: "take_byte c = (chr ch, c\<lparr>ser := u\<rparr>)" "usb_wf u" "in_bytes u = rest" "out_bytes u = out_bytes (ser c)"
    using take_one [OF c(1), of "chr ch" rest] c(2,3) by auto
  have "complete ch c" using complete_if [OF c(1,2)] len c(3) by simp
  then have hc: "h c = body (c\<lparr>ser := u\<rparr>)" using u(1) by (simp add: h)
  show "\<exists>u. usb_wf u \<and> in_bytes u = rest \<and> out_bytes u = out_bytes (ser c) \<and> talks (c\<lparr>ser := u\<rparr>) c'" if "h c = Some c'" for c'
    using body that hc u by auto
  show "h c \<noteq> None" using total hc u(2) c(1) by (simp add: car_ok_def)
qed

interpretation h_e: command_handler "CHR ''e''" 0 "\<lambda>d. True" case_e
  by (rule handler_shape0 [OF case_e_def]) (auto simp: talk_more)

interpretation h_b: command_handler "CHR ''b''" 0 "\<lambda>d. True" case_b
  by (rule handler_shape0 [OF case_b_def]) (auto simp: talk_more)

interpretation h_q: command_handler "CHR ''q''" 0 "\<lambda>d. True" case_q
  by (rule handler_shape0 [OF case_q_def]) (auto simp: talk_more)

interpretation h_i: command_handler "CHR ''i''" 0 "\<lambda>d. True" case_i
  by (rule handler_shape0 [OF case_i_def]) (auto simp: talk_more)

text \<open>The stop command resets the flags before it takes its byte; the two orders have the same effect.\<close>

lemma ser_Reset [simp]: "ser (Reset_Drive_Flags c) = ser c"
  by (simp add: Reset_Drive_Flags_def Let_def LED_def set_active_def set_flag_def)

lemma Reset_ser: "(Reset_Drive_Flags c)\<lparr>ser := u\<rparr> = Reset_Drive_Flags (c\<lparr>ser := u\<rparr>)"
  by (simp add: Reset_Drive_Flags_def Let_def LED_def set_active_def set_flag_def)

lemma case_s_shape:
  "case_s c = (if complete CHR ''s'' c then (let (_, c) = take_byte c in do {
     c \<leftarrow> Motor_Left 0 (Motor_Enable False (Reset_Drive_Flags c));
     c \<leftarrow> Motor_Right 0 c;
     Some (Set_Target_Velocity 0 0 (Set_Target_Position 0 0 c)) }) else Some c)"
proof -
  obtain b u where "usb_msg_get (ser c) = (b, u)" by fastforce
  then show ?thesis by (simp add: case_s_def take_byte_def Let_def Reset_ser)
qed

lemma case_s_body:
  assumes "Motor_Left 0 (Motor_Enable False (Reset_Drive_Flags c)) = Some a" "Motor_Right 0 a = Some b"
  shows "talks c b"
proof -
  have "talks c (Motor_Enable False (Reset_Drive_Flags c))" by (simp add: talk_more)
  then show ?thesis using talks_motors [OF assms] talks_trans by blast
qed

lemma case_s_total:
  assumes "car_ok c"
  obtains a b where "Motor_Left 0 (Motor_Enable False (Reset_Drive_Flags c)) = Some a" "Motor_Right 0 a = Some b"
proof -
  have "talks c (Motor_Enable False (Reset_Drive_Flags c))" by (simp add: talk_more)
  then show ?thesis using motors_defined [of "Motor_Enable False (Reset_Drive_Flags c)" 0 0] that assms by (auto simp: talks_def)
qed

interpretation h_s: command_handler "CHR ''s''" 0 "\<lambda>d. True" case_s
  by (rule handler_shape0 [OF case_s_shape]) (auto simp: bind_eq_Some_iff talk_more dest: case_s_body elim: case_s_total)

lemma complete_S: "complete CHR ''s'' c = complete CHR ''S'' c"
  by (simp add: complete_def)

interpretation h_S: command_handler "CHR ''S''" 0 "\<lambda>d. True" case_s
  by (rule handler_shape0 [OF case_s_shape [unfolded complete_S]]) (auto simp: bind_eq_Some_iff talk_more dest: case_s_body elim: case_s_total)

interpretation h_t: command_handler "CHR ''t''" 1 "\<lambda>d. True" case_t
proof
  show "unat (MEGN540_Message_Len (chr CHR ''t'')) = 1 + 1" by simp
  show "case_t c = Some c" if "\<not> complete CHR ''t'' c" for c using that by (simp add: case_t_def)
  fix c and d rest :: "byte list"
  assume c: "car_ok c" "in_bytes (ser c) = chr CHR ''t'' # d @ rest" "length d = 1"
  then obtain a where d: "d = [a]" by (auto simp: length_Suc_conv)
  obtain u where u: "take_byte c = (chr CHR ''t'', c\<lparr>ser := u\<rparr>)" "usb_wf u" "in_bytes u = a # rest" "out_bytes u = out_bytes (ser c)"
    using take_one [OF c(1), of "chr CHR ''t''" "a # rest"] c(2) d by auto
  then have "car_ok (c\<lparr>ser := u\<rparr>)" using c(1) by (simp add: car_ok_def)
  then obtain v where v: "take_byte (c\<lparr>ser := u\<rparr>) = (a, c\<lparr>ser := v\<rparr>)" "usb_wf v" "in_bytes v = rest" "out_bytes v = out_bytes (ser c)"
    using take_one [of "c\<lparr>ser := u\<rparr>" a rest] u by auto
  have cp: "complete CHR ''t'' c" using complete_if [OF c(1,2)] c(3) by simp
  then show "case_t c \<noteq> None" using u(1) v(1) by (simp add: case_t_def)
  fix c' assume "case_t c = Some c'"
  then have "talks (c\<lparr>ser := v\<rparr>) c'" using cp u(1) v(1) by (auto simp: case_t_def talk_more split: if_splits)
  then show "\<exists>u. usb_wf u \<and> in_bytes u = rest \<and> out_bytes u = out_bytes (ser c) \<and> talks (c\<lparr>ser := u\<rparr>) c'"
    using v by blast
qed

section \<open>The message handling task\<close>

lemma task_nonempty:
  assumes "car_ok c" "in_bytes (ser c) = b # bs"
  shows "usb_msg_length (ser c) \<noteq> 0" "usb_msg_peek (ser c) = b"
  using assms usb_msg_length_0 [of "ser c"] link.peek [of "ser c" b bs] by (auto simp: car_ok_def)

text \<open>The commands with their handlers, as a table.\<close>

definition handlers :: "(char \<times> (car \<Rightarrow> car option)) list" where
  "handlers =
    [(CHR ''*'', case_mul), (CHR ''/'', case_div), (CHR ''+'', case_add), (CHR ''-'', case_sub),
     (CHR ''t'', case_t), (CHR ''T'', case_T), (CHR ''e'', case_e), (CHR ''E'', case_E),
     (CHR ''b'', case_b), (CHR ''B'', case_B), (CHR ''p'', case_p), (CHR ''P'', case_P),
     (CHR ''s'', case_s), (CHR ''S'', case_s), (CHR ''q'', case_q), (CHR ''Q'', case_Q),
     (CHR ''d'', case_d), (CHR ''D'', case_D), (CHR ''v'', case_v), (CHR ''V'', case_V),
     (CHR ''i'', case_i), (CHR ''I'', case_I), (CHR ''G'', case_G), (CHR ''O'', case_O)]"

definition command_pre :: "char \<Rightarrow> byte list \<Rightarrow> bool" where
  "command_pre ch = (if ch = CHR ''p'' \<or> ch = CHR ''P'' then pwm_args else (\<lambda>d. True))"

lemmas handler_facts = h_mul.command_handler_axioms h_div.command_handler_axioms h_add.command_handler_axioms
  h_sub.command_handler_axioms h_t.command_handler_axioms h_T.command_handler_axioms h_e.command_handler_axioms
  h_E.command_handler_axioms h_b.command_handler_axioms h_B.command_handler_axioms h_p.command_handler_axioms
  h_P.command_handler_axioms h_s.command_handler_axioms h_S.command_handler_axioms h_q.command_handler_axioms
  h_Q.command_handler_axioms h_d.command_handler_axioms h_D.command_handler_axioms h_v.command_handler_axioms
  h_V.command_handler_axioms h_i.command_handler_axioms h_I.command_handler_axioms h_G.command_handler_axioms
  h_O.command_handler_axioms

lemma handlers_contract: "list_all (\<lambda>(ch, h). (\<exists>n. command_handler ch n (command_pre ch) h) \<and> ch \<noteq> CHR ''~'') handlers"
  by (simp add: handlers_def command_pre_def) (intro conjI; rule exI; rule handler_facts)

lemma task_handlers:
  assumes "car_ok c" "in_bytes (ser c) = chr ch # bs"
  shows "Message_Handling_Task c = (case map_of handlers ch of Some h \<Rightarrow> h c
    | None \<Rightarrow> if ch = CHR ''~'' then case_restart c else case_default (chr ch) c)"
  using task_nonempty [OF assms] by (simp add: Message_Handling_Task_def handlers_def)

lemma restart_post:
  assumes "car_ok c" "in_bytes (ser c) = chr CHR ''~'' # bs" "case_restart c = Some c'"
  shows "task_post c c'"
proof -
  have "complete CHR ''~'' c" using complete_if [of c "CHR ''~''" "[]" bs] assms(1,2) by simp
  then have "c' = set_active mf_restart True c" using assms(3) by (simp add: case_restart_def)
  then have "talks c c'" by (simp add: talk)
  then show ?thesis using assms(1,2) by (simp add: talks_def task_post_def)
qed

lemma default_post:
  assumes "car_ok c" "in_bytes (ser c) = b # bs" "MEGN540_Message_Len b = 0" "case_default b c = Some c'"
  shows "task_post c c'"
proof -
  let ?c = "c\<lparr>ser := usb_flush_input_buffer (ser c)\<rparr>"
  have m: "msg_ok (''cc'', b, [chr CHR ''?''])" by (simp add: fsize_def calcsize_def)
  have "talks ?c c'" using assms(4) talks_send_msg [OF m, of ?c] by (simp add: case_default_def)
  moreover have "car_ok ?c" "in_bytes (ser ?c) = []" "out_bytes (ser ?c) = out_bytes (ser c)"
    using assms(1) by (simp_all add: car_ok_def usb_flush_ok)
  ultimately show ?thesis using assms(2,3) by (simp add: talks_def task_post_def)
qed

text \<open>Every byte is the code of a character.\<close>

lemma byte_chr: "\<exists>ch. b = chr ch"
proof
  have "(of_char (char_of (unat b)) :: nat) = unat b" by (simp add: of_char_of)
  then have "(of_nat (of_char (char_of (unat b))) :: byte) = b" by simp
  then show "b = chr (char_of (unat b))" by (simp only: chr_def of_nat_of_char)
qed

lemma unknown_len:
  "map_of handlers ch = None \<Longrightarrow> ch \<noteq> CHR ''~'' \<Longrightarrow> MEGN540_Message_Len (chr ch) = 0"
  by (simp add: handlers_def MEGN540_Message_Len_def split: if_splits)

lemma Message_Handling_Task_post:
  assumes "car_ok c" "Message_Handling_Task c = Some c'"
  shows "task_post c c'"
proof (cases "in_bytes (ser c)")
  case Nil
  then have "c' = c" using assms usb_msg_length_0 [of "ser c"] by (simp add: Message_Handling_Task_def car_ok_def)
  then show ?thesis using Nil assms(1) talks_refl [of c] by (simp add: talks_def task_post_def del: talks_refl)
next
  case (Cons b bs)
  obtain ch where "b = chr ch" using byte_chr by blast
  then have ib: "in_bytes (ser c) = chr ch # bs" using Cons by simp
  note t = task_handlers [OF assms(1) ib]
  show ?thesis
  proof (cases "map_of handlers ch")
    case None
    then show ?thesis using t assms(2) restart_post [OF assms(1)] default_post [OF assms(1) ib unknown_len] ib
      by (auto split: if_splits)
  next
    case (Some h)
    then have "(ch, h) \<in> set handlers" by (rule map_of_SomeD)
    then obtain n where "command_handler ch n (command_pre ch) h" "ch \<noteq> CHR ''~''"
      using handlers_contract by (auto simp: list_all_iff)
    then show ?thesis using command_handler.post [of ch n _ h c bs c'] ib assms t Some by simp
  qed
qed

lemma of_le16_take: "2 \<le> n \<Longrightarrow> of_le16 (take n d) = of_le16 d"
  by (cases d rule: of_le16.cases) (auto simp: take_Cons split: nat.split)

lemma pwm_args_take: "4 \<le> n \<Longrightarrow> pwm_args (take n d) = pwm_args d"
  by (simp add: pwm_args_def int_at_def drop_take of_le16_take)

lemma Message_Handling_Task_defined:
  assumes "car_ok c" "\<And>ch bs. in_bytes (ser c) = chr ch # bs \<Longrightarrow> command_pre ch bs"
  shows "Message_Handling_Task c \<noteq> None"
proof (cases "in_bytes (ser c)")
  case Nil
  then show ?thesis using assms usb_msg_length_0 [of "ser c"] by (simp add: Message_Handling_Task_def car_ok_def)
next
  case (Cons b bs)
  obtain ch where "b = chr ch" using byte_chr by blast
  then have ib: "in_bytes (ser c) = chr ch # bs" using Cons by simp
  note t = task_handlers [OF assms(1) ib]
  show ?thesis
  proof (cases "map_of handlers ch")
    case None
    then show ?thesis using t by (simp add: case_restart_def case_default_def)
  next
    case (Some h)
    then have "(ch, h) \<in> set handlers" by (rule map_of_SomeD)
    then obtain n where n: "command_handler ch n (command_pre ch) h" using handlers_contract by (auto simp: list_all_iff)
    have "command_pre ch (take n bs)" using assms(2) [OF ib] command_handler.len [OF n]
      by (auto simp: command_pre_def pwm_args_take)
    then show ?thesis using command_handler.defined [OF n assms(1) ib] t Some by simp
  qed
qed

end
