(* ===== verification/Main_Loop.thy ===== *)
theory Main_Loop
  imports Message_Proofs
begin

text \<open>
  \<^verbatim>\<open>Application/Main.c\<close>: \<open>InitializeSystem\<close> and the endless loop of \<open>main\<close>, one definition for each block
  of the loop body. A block is a function of the environment and the car; it fails (\<^const>\<open>None\<close>) where
  the C code is undefined or never returns.
\<close>

definition DEBUG :: bool where "DEBUG = False"
definition CNTRL_SYS :: bool where "CNTRL_SYS = False"

definition KP_L :: float32 where "KP_L = f_lit 1875335 10000000"
definition KP_R :: float32 where "KP_R = f_lit 1728258 10000000"
definition num_left :: "float32 list" where "num_left = [f_lit 187533508705 1000000000000, f_lit 124897316798 1000000000000]"
definition num_right :: "float32 list" where "num_right = [f_lit 172825818795 1000000000000, f_lit 130440286735 1000000000000]"
definition den_left :: "float32 list" where "den_left = [f_lit 1 1, f_lit (-1) 1]"
definition den_right :: "float32 list" where "den_right = [f_lit 1 1, f_lit (-1) 1]"

section \<open>Initialisation\<close>

definition InitializeSystem :: "env \<Rightarrow> car \<Rightarrow> car option" where
  "InitializeSystem e c = do {
     let (t, r) = SetupTimer0 (tim c) (regs c);
     let c = c\<lparr>tim := t, regs := r\<rparr>;
     let c = c\<lparr>enc := Encoders_Init (inputs e) (enc c)\<rparr>;
     b \<leftarrow> Battery_Monitor_Init (adc e) (bat c);
     let c = c\<lparr>bat := b\<rparr>;
     let c = c\<lparr>regs := LED_Init (regs c)\<rparr>;
     let (m, r) = Motor_PWM_Init 0x190 (mot c) (regs c);
     let c = c\<lparr>mot := m, regs := r\<rparr>;
     let c = c\<lparr>prx := Proxy_Init (prx c)\<rparr>;
     let (s, r) = Servo_PWM_Init OPEN (srv c) (regs c);
     let c = c\<lparr>srv := s, regs := r\<rparr>;
     u \<leftarrow> USB_SetupHardware (ser c);
     let c = c\<lparr>ser := u\<rparr>;
     l \<leftarrow> Controller_Init (ctr_LeftMotor c) KP_L num_left den_left 1 (f_of_int 10);
     let c = c\<lparr>ctr_LeftMotor := l\<rparr>;
     k \<leftarrow> Controller_Init (ctr_RightMotor c) KP_R num_right den_right 1 (f_of_int 10);
     let c = c\<lparr>ctr_RightMotor := k\<rparr>;
     let c = Message_Handling_Init c;
     let c = Init_Obstacle_Avoidance c;
     Some (c\<lparr>regs := sei (regs c)\<rparr>) }"

definition main_init :: "env \<Rightarrow> car \<Rightarrow> car option" where
  "main_init e c = do {
     let c = c\<lparr>bat_val := 0, first_time := True, proxy_first := True\<rparr>;
     c \<leftarrow> InitializeSystem e c;
     let c = set_duration mf_battery_task (f_of_int 2) c;
     Some (set_active mf_battery_task True c) }"

section \<open>The blocks of the loop\<close>

text \<open>Seconds of a time stamp, as the blocks compute them.\<close>

definition time_seconds :: "Time_t \<Rightarrow> float32" where
  "time_seconds t =
     f_div (f_add (f_of_int (uint (millisec t))) (f_div (f_of_int (uint (microsec t))) (f_of_int 1000))) (f_of_int 1000)"

definition CountsL :: "car \<Rightarrow> int32 \<times> car" where
  "CountsL c = (let (n, r) = Counts_Left (enc c) (regs c) in (n, c\<lparr>regs := r\<rparr>))"

definition CountsR :: "car \<Rightarrow> int32 \<times> car" where
  "CountsR c = (let (n, r) = Counts_Right (enc c) (regs c) in (n, c\<lparr>regs := r\<rparr>))"

definition block_usb :: "env \<Rightarrow> car \<Rightarrow> car option" where
  "block_usb e c = do { u \<leftarrow> USB_Upkeep_Task (bus e) (ser c); Some (c\<lparr>ser := u\<rparr>) }"

definition block_message :: "env \<Rightarrow> car \<Rightarrow> car option" where
  "block_message e c = Message_Handling_Task c"

definition block_restart :: "env \<Rightarrow> car \<Rightarrow> car option" where
  "block_restart e c = (if MSG_FLAG_Execute mf_restart c then Some (Message_Handling_Init c) else Some c)"

definition block_battery_task :: "env \<Rightarrow> car \<Rightarrow> car option" where
  "block_battery_task e c =
     (if MSG_FLAG_Execute mf_battery_task c then do {
        (v, b) \<leftarrow> Battery_Voltage_Task (adc e) (bat c);
        let c = c\<lparr>bat := b, bat_val := v\<rparr>;
        let c = (if f_lt (bat_val c) (f_lit 475 100) \<and> f_lt (f_lit 3 1) (bat_val c)
                 then set_duration mf_low_battery (f_of_int 1000) (set_active mf_low_battery True c)
                 else set_active mf_low_battery False c);
        Some (set_trigger mf_battery_task (GetTime_c c) c) }
      else Some c)"

definition block_send_time :: "env \<Rightarrow> car \<Rightarrow> car option" where
  "block_send_time e c =
     (if MSG_FLAG_Execute mf_send_time c then
        (let ret_val = time_seconds (GetTime_c c)
         in if f_lt (duration (flag c mf_send_time)) 0
            then Some (Send_Time_Message (chr CHR ''t'') 0 ret_val (set_active mf_send_time False c))
            else (let c = Send_Time_Message (chr CHR ''T'') 0 ret_val c
                  in Some (set_trigger mf_send_time (GetTime_c c) c)))
      else Some c)"

definition block_time_float :: "env \<Rightarrow> car \<Rightarrow> car option" where
  "block_time_float e c =
     (if MSG_FLAG_Execute mf_time_float_send c then
        (if \<not> trip_float c then
           (let c = c\<lparr>start_time_float := GetTime_c c\<rparr>;
                c = send_msg ''cf'' (chr CHR ''f'') (le32 (f_lit 12345 1000)) c
            in Some (c\<lparr>trip_float := True\<rparr>))
         else if usb_out_msg_length (ser c) = 0 then
           (let ret_val = time_seconds (SecondsSince (tim c) (start_time_float c));
                c = (if f_lt (duration (flag c mf_time_float_send)) 0
                     then Send_Time_Message (chr CHR ''t'') 1 ret_val (set_active mf_time_float_send False c)
                     else Send_Time_Message (chr CHR ''T'') 1 ret_val (set_trigger mf_time_float_send (GetTime_c c) c))
            in Some (c\<lparr>trip_float := False\<rparr>))
         else Some c)
      else Some c)"

definition block_loop_timer :: "env \<Rightarrow> car \<Rightarrow> car option" where
  "block_loop_timer e c =
     (if MSG_FLAG_Execute mf_loop_timer c then
        (if \<not> trip_loop c then Some (c\<lparr>start_time_loop := GetTime_c c, trip_loop := True\<rparr>)
         else
           (let ret_val = time_seconds (SecondsSince (tim c) (start_time_loop c));
                c = (if f_lt (duration (flag c mf_loop_timer)) 0
                     then Send_Time_Message (chr CHR ''t'') 2 ret_val (set_active mf_loop_timer False c)
                     else Send_Time_Message (chr CHR ''T'') 2 ret_val (set_trigger mf_loop_timer (GetTime_c c) c))
            in Some (c\<lparr>trip_loop := False\<rparr>)))
      else Some c)"

definition block_encoder :: "env \<Rightarrow> car \<Rightarrow> car option" where
  "block_encoder e c =
     (if MSG_FLAG_Execute mf_send_encoder c then
        (let (l, c) = CountsL c;
             (r, c) = CountsR c;
             d = le32 (f_of_int (sint l)) @ le32 (f_of_int (sint r))
         in if f_le (duration (flag c mf_send_encoder)) 0
            then Some (send_msg ''cff'' (chr CHR ''e'') d (set_active mf_send_encoder False c))
            else Some (send_msg ''cff'' (chr CHR ''E'') d (set_trigger mf_send_encoder (GetTime_c c) c)))
      else Some c)"

definition block_send_battery :: "env \<Rightarrow> car \<Rightarrow> car option" where
  "block_send_battery e c =
     (if MSG_FLAG_Execute mf_send_battery c then
        (let ret_val = Battery_Voltage (bat c)
         in if f_le (duration (flag c mf_send_battery)) 0
            then Some (send_msg ''cf'' (chr CHR ''b'') (le32 ret_val) (set_active mf_send_battery False c))
            else Some (send_msg ''cf'' (chr CHR ''B'') (le32 ret_val) (set_trigger mf_send_battery (GetTime_c c) c)))
      else Some c)"

definition block_low_battery :: "env \<Rightarrow> car \<Rightarrow> car option" where
  "block_low_battery e c =
     (if MSG_FLAG_Execute mf_low_battery c then
        (let c = send_battery_low (bat_val c) c
         in Some (set_trigger mf_low_battery (GetTime_c c) c))
      else Some c)"

text \<open>Switching the motors off: duty cycle zero on both sides, then the outputs disconnected.\<close>

definition motors_off :: "car \<Rightarrow> car option" where
  "motors_off c = do {
     c \<leftarrow> Motor_Left 0 c;
     c \<leftarrow> Motor_Right 0 c;
     Some (Motor_Enable False c) }"

definition block_timed_pwm :: "env \<Rightarrow> car \<Rightarrow> car option" where
  "block_timed_pwm e c =
     (if MSG_FLAG_Execute mf_timed_pwm c then do {
        c \<leftarrow> motors_off c;
        Some (set_active mf_timed_pwm False c) }
      else Some c)"

definition block_sys_data :: "env \<Rightarrow> car \<Rightarrow> car option" where
  "block_sys_data e c =
     (if MSG_FLAG_Execute mf_sys_data c then do {
        let time = time_seconds (GetTime_c c);
        pl \<leftarrow> Get_Motor_PWM_Left (mot c);
        pr \<leftarrow> Get_Motor_PWM_Right (mot c);
        let (l, c) = CountsL c;
        let (r, c) = CountsR c;
        let d = le32 time @ le16 pl @ le16 pr @ le16 (ucast l) @ le16 (ucast r);
        if f_le (duration (flag c mf_sys_data)) 0
        then Some (send_msg ''cfhhhh'' (chr CHR ''q'') d (set_active mf_sys_data False c))
        else Some (send_msg ''cfhhhh'' (chr CHR ''Q'') d (set_trigger mf_sys_data (GetTime_c c) c)) }
      else Some c)"

text \<open>The first pass of a drive records where it starts.\<close>

definition start_measuring :: "car \<Rightarrow> car" where
  "start_measuring c =
     (let (l, c) = CountsL c; c = c\<lparr>ticksL_old := f_of_int (sint l)\<rparr>;
          (r, c) = CountsR c; c = c\<lparr>ticksR_old := f_of_int (sint r)\<rparr>
      in c\<lparr>time_old := GetTimeSec (tim c), first_time := False\<rparr>)"

definition read_ticks :: "car \<Rightarrow> car" where
  "read_ticks c =
     (let (l, c) = CountsL c; c = c\<lparr>ticksL_new := f_of_int (sint l)\<rparr>;
          (r, c) = CountsR c
      in c\<lparr>ticksR_new := f_of_int (sint r)\<rparr>)"

text \<open>The distances of the two tracks since the last pass; the difference must fit an \<open>int\<close>.\<close>

definition measure_tracks :: "car \<Rightarrow> (float32 \<times> float32) option" where
  "measure_tracks c = do {
     l \<leftarrow> f_to_s16 (f_sub (ticksL_new c) (ticksL_old c));
     r \<leftarrow> f_to_s16 (f_sub (ticksR_new c) (ticksR_old c));
     Some (ECount_to_Distance l, ECount_to_Distance r) }"

definition reached :: "float32 \<Rightarrow> float32 \<Rightarrow> bool" where
  "reached target measured = (if f_lt 0 target then f_le target measured else f_le measured target)"

definition f_abs_neg :: "float32 \<Rightarrow> float32" where
  "f_abs_neg m = (if f_lt m 0 then f_mul (f_of_int (-1)) m else m)"

text \<open>The controller of each motor on the measured distance; \<open>CNTRL_SYS\<close> switches it off.\<close>

definition controller_duty :: "float32 \<Rightarrow> float32 \<Rightarrow> float32 \<Rightarrow> car \<Rightarrow> (int16 \<times> int16 \<times> car) option" where
  "controller_duty measured_left measured_right dt c = do {
     let (new_speedL, cl) = Controller_Update (ctr_LeftMotor c) (f_abs_neg measured_left) dt;
     let c = c\<lparr>ctr_LeftMotor := cl\<rparr>;
     let (new_speedR, cr) = Controller_Update (ctr_RightMotor c) (f_abs_neg measured_right) dt;
     let c = c\<lparr>ctr_RightMotor := cr\<rparr>;
     pwmL \<leftarrow> Velocity_to_DutyCycle_Left new_speedL;
     pwmR \<leftarrow> Velocity_to_DutyCycle_Right new_speedR;
     Some (pwmL, pwmR, c) }"

definition target_duty :: "car \<Rightarrow> (int16 \<times> int16 \<times> car) option" where
  "target_duty c = do {
     pwmL \<leftarrow> Velocity_to_DutyCycle_Left (target_vel (ctr_LeftMotor c));
     pwmR \<leftarrow> Velocity_to_DutyCycle_Right (target_vel (ctr_RightMotor c));
     Some (pwmL, pwmR, c) }"

definition signed_duty :: "float32 \<Rightarrow> int16 \<Rightarrow> int16 option" where
  "signed_duty target pwm = (if f_lt 0 target then Some pwm else checked_s16 (- 1 * sint pwm))"

definition drive_motors :: "int16 \<Rightarrow> int16 \<Rightarrow> car \<Rightarrow> car option" where
  "drive_motors pwmL pwmR c = do {
     c \<leftarrow> Motor_Left pwmL c;
     c \<leftarrow> Motor_Right pwmR c;
     Some (Motor_Enable True c) }"

definition next_pass :: "mf \<Rightarrow> car \<Rightarrow> car" where
  "next_pass k c =
     (let c = c\<lparr>ticksL_old := ticksL_new c, ticksR_old := ticksR_new c, time_old := time_new c\<rparr>
      in set_trigger k (GetTime_c c) c)"

definition dist_done :: "car \<Rightarrow> car option" where
  "dist_done c = do {
     c \<leftarrow> motors_off c;
     let c = Set_Target_Position 0 0 c;
     let c = Set_Target_Velocity 0 0 c;
     let c = set_active mf_motor_dist_control False c;
     Some (c\<lparr>first_time := True\<rparr>) }"

definition dist_continue :: "float32 \<Rightarrow> float32 \<Rightarrow> car \<Rightarrow> car option" where
  "dist_continue measured_left measured_right c = do {
     let c = c\<lparr>time_new := GetTimeSec (tim c)\<rparr>;
     let dt = f_sub (time_new c) (time_old c);
     let c = Set_Target_Position (f_sub (target_pos (ctr_LeftMotor c)) measured_left)
               (f_sub (target_pos (ctr_RightMotor c)) measured_right) c;
     (pwmL, pwmR, c) \<leftarrow> (if CNTRL_SYS then controller_duty measured_left measured_right dt c else target_duty c);
     pwmL \<leftarrow> signed_duty (target_pos (ctr_LeftMotor c)) pwmL;
     pwmR \<leftarrow> signed_duty (target_pos (ctr_RightMotor c)) pwmR;
     c \<leftarrow> drive_motors pwmL pwmR c;
     let c = (if DEBUG then send_msg ''cffhh'' (chr CHR ''!'') (le32 measured_left @ le32 measured_right @ le16 pwmL @ le16 pwmR) c
              else c);
     Some (next_pass mf_motor_dist_control c) }"

definition block_dist_control :: "env \<Rightarrow> car \<Rightarrow> car option" where
  "block_dist_control e c =
     (if MSG_FLAG_Execute mf_motor_dist_control c then
        (if first_time c then Some (start_measuring c)
         else do {
           let c = read_ticks c;
           (measured_left, measured_right) \<leftarrow> measure_tracks c;
           if reached (target_pos (ctr_LeftMotor c)) measured_left \<or> reached (target_pos (ctr_RightMotor c)) measured_right
           then dist_done c
           else dist_continue measured_left measured_right c })
      else Some c)"

definition negate_targets :: "car \<Rightarrow> car" where
  "negate_targets c =
     c\<lparr>ctr_RightMotor := (ctr_RightMotor c)\<lparr>target_vel := f_mul (f_of_int (-1)) (target_vel (ctr_RightMotor c))\<rparr>,
       ctr_LeftMotor := (ctr_LeftMotor c)\<lparr>target_vel := f_mul (f_of_int (-1)) (target_vel (ctr_LeftMotor c))\<rparr>\<rparr>"

definition vel_duty :: "float32 \<Rightarrow> float32 \<Rightarrow> car \<Rightarrow> (int16 \<times> int16 \<times> car) option" where
  "vel_duty measured_left measured_right c =
     (let dt = f_sub (time_new c) (time_old c) in
      if f_lt (target_vel (ctr_LeftMotor c)) 0 then
        (if CNTRL_SYS then do {
           (pwmL, pwmR, c) \<leftarrow> controller_duty measured_left measured_right dt (negate_targets c);
           pwmL \<leftarrow> checked_s16 (- 1 * sint pwmL);
           pwmR \<leftarrow> checked_s16 (- 1 * sint pwmR);
           Some (pwmL, pwmR, negate_targets c) }
         else target_duty c)
      else if CNTRL_SYS then controller_duty measured_left measured_right dt c
      else target_duty c)"

definition block_vel_control :: "env \<Rightarrow> car \<Rightarrow> car option" where
  "block_vel_control e c =
     (if MSG_FLAG_Execute mf_motor_vel_control c then
        (if first_time c then Some (start_measuring c)
         else do {
           let c = c\<lparr>time_new := GetTimeSec (tim c)\<rparr>;
           let c = read_ticks c;
           (measured_left, measured_right) \<leftarrow> measure_tracks c;
           (pwmL, pwmR, c) \<leftarrow> vel_duty measured_left measured_right c;
           c \<leftarrow> drive_motors pwmL pwmR c;
           let c = (if DEBUG then send_msg ''chh'' (chr CHR ''!'') (le16 pwmL @ le16 pwmR) c else c);
           Some (next_pass mf_motor_vel_control c) })
      else Some c)"

definition block_motor_stop :: "env \<Rightarrow> car \<Rightarrow> car option" where
  "block_motor_stop e c =
     (if MSG_FLAG_Execute mf_motor_stop c then do {
        c \<leftarrow> motors_off c;
        let c = Set_Target_Position 0 0 c;
        let c = Set_Target_Velocity 0 0 c;
        let c = set_active mf_motor_stop False c;
        let c = set_active mf_motor_dist_control False c;
        let c = set_active mf_motor_vel_control False c;
        Some (set_active mf_timed_pwm False c) }
      else Some c)"

definition block_proximity :: "env \<Rightarrow> car \<Rightarrow> car option" where
  "block_proximity e c =
     (if MSG_FLAG_Execute mf_ir_proximity c then
        (if proxy_first c then Some ((IRRead_c LEFT e c)\<lparr>proxy_first := False\<rparr>)
         else
           (let c = IRRead_c RIGHT e c;
                prox_out = IR_Counts (prx c);
                d = le16 (m_nCount prox_out) @ [if m_eSide prox_out = LEFT then chr CHR ''L'' else chr CHR ''R''];
                c = (if f_le (duration (flag c mf_ir_proximity)) 0
                     then send_msg ''chc'' (chr CHR ''i'') d (set_active mf_ir_proximity False c)
                     else send_msg ''chc'' (chr CHR ''I'') d (set_trigger mf_ir_proximity (GetTime_c c) c))
            in Some (c\<lparr>proxy_first := True\<rparr>)))
      else Some c)"

definition block_obj_avoidance :: "env \<Rightarrow> car \<Rightarrow> car option" where
  "block_obj_avoidance e c =
     (if MSG_FLAG_Execute mf_obj_avoidance c then
        (let (again, c) = Run_OA_Task e c
         in if \<not> again then Some (set_trigger mf_obj_avoidance (GetTime_c c) c) else Some c)
      else Some c)"

definition main_blocks :: "(env \<Rightarrow> car \<Rightarrow> car option) list" where
  "main_blocks = [block_usb, block_message, block_restart, block_battery_task, block_send_time, block_time_float,
     block_loop_timer, block_encoder, block_send_battery, block_low_battery, block_timed_pwm, block_sys_data,
     block_dist_control, block_vel_control, block_motor_stop, block_proximity, block_obj_avoidance]"

definition main_pass :: "env \<Rightarrow> car \<Rightarrow> car option" where
  "main_pass e = fold_opt (\<lambda>b. b e) main_blocks"

end
