(* ===== verification/Main_Proofs.thy ===== *)
theory Main_Proofs
  imports Main_Loop
begin

text \<open>
  The main loop as a transition system. A state is the block to run next and the car; a transition
  runs that block, an interrupt service routine between two blocks (timer, encoders, USB control
  requests), or is an event of the USB bus (\<open>bus_step\<close>). The locale \<open>loop_invariant\<close> is the contract of an invariant of this system.
\<close>

section \<open>Frame rules\<close>

lemma flag_frame [simp, frame]:
  "flag (LED l b c) = flag c" "flag (send_msg f cmd d c) = flag c" "flag (Motor_Enable b c) = flag c"
  "flag (Set_Target_Position x y c) = flag c" "flag (Set_Target_Velocity x y c) = flag c"
  "flag (Zero_Encoders_c c) = flag c" "flag (IRRead_c side e c) = flag c" "flag (apply_plan p c) = flag c"
  "flag (Init_Obstacle_Avoidance c) = flag c" "flag (send_bad_input ch c) = flag c" "flag (drive_refuse v c) = flag c"
  "flag (pwm_refuse v c) = flag c" "flag (send_go_straight ch c) = flag c" "flag (send_turn ch c) = flag c"
  "flag (send_battery_low v c) = flag c" "flag (Send_Time_Message k n t c) = flag c"
  "flag (start_measuring c) = flag c" "flag (read_ticks c) = flag c" "flag (snd (take_byte c)) = flag c"
  by (simp_all add: LED_def send_msg_def Motor_Enable_def Set_Target_Position_def Set_Target_Velocity_def
      Zero_Encoders_c_def IRRead_c_def apply_plan_def Init_Obstacle_Avoidance_def send_bad_input_def drive_refuse_def
      pwm_refuse_def send_go_straight_def send_turn_def send_battery_low_def send_power_off_def Send_Time_Message_def
      start_measuring_def read_ticks_def CountsL_def CountsR_def take_byte_def Let_def split: prod.split)

lemma flag_Motor [dest, frame]: "Motor_Left p c = Some c' \<Longrightarrow> flag c' = flag c" "Motor_Right p c = Some c' \<Longrightarrow> flag c' = flag c"
  by (auto simp: Motor_Left_def Motor_Right_def bind_eq_Some_iff)

lemma flag_read_struct [dest, frame]: "read_struct n c = Some (d, c') \<Longrightarrow> flag c' = flag c"
  by (auto simp: read_struct_def split: prod.splits if_splits)

lemma flag_Counts [simp, frame]: "flag (snd (CountsL c)) = flag c" "flag (snd (CountsR c)) = flag c"
  by (simp_all add: CountsL_def CountsR_def split: prod.split)

lemma flag_motors_off [dest, frame]: "motors_off c = Some c' \<Longrightarrow> flag c' = flag c"
  by (auto simp: motors_off_def bind_eq_Some_iff dest!: flag_Motor)

lemma flag_drive_motors [dest, frame]: "drive_motors l r c = Some c' \<Longrightarrow> flag c' = flag c"
  by (auto simp: drive_motors_def bind_eq_Some_iff dest!: flag_Motor)

lemma flag_duty [dest, frame]:
  "controller_duty x y dt c = Some (l, r, c') \<Longrightarrow> flag c' = flag c"
  "target_duty c = Some (l, r, c') \<Longrightarrow> flag c' = flag c"
  "vel_duty x y c = Some (l, r, c') \<Longrightarrow> flag c' = flag c"
  by (auto simp: controller_duty_def target_duty_def vel_duty_def CNTRL_SYS_def bind_eq_Some_iff Let_def
      split: prod.splits if_splits)

section \<open>One way of driving at a time\<close>

text \<open>Distance control excludes velocity control, obstacle avoidance and a timed duty cycle.\<close>

definition drive_excl :: "car \<Rightarrow> bool" where
  "drive_excl c \<longleftrightarrow> (active (flag c mf_motor_dist_control) \<longrightarrow>
     \<not> active (flag c mf_motor_vel_control) \<and> \<not> active (flag c mf_obj_avoidance) \<and> \<not> active (flag c mf_timed_pwm))"

lemma Reset_flags: "active (flag (Reset_Drive_Flags c) k) =
    (active (flag c k) \<and> k \<notin> {mf_obj_avoidance, mf_motor_dist_control, mf_motor_vel_control, mf_motor_stop, mf_timed_pwm})"
  by (auto simp: Reset_Drive_Flags_def Let_def)

lemma drive_distance_flags:
  "active (flag (drive_distance ch x a c) k) = (if k = mf_motor_dist_control then True else active (flag (Reset_Drive_Flags c) k))"
  by (auto simp: drive_distance_def Let_def)

lemma drive_velocity_flags:
  "active (flag (drive_velocity ch x a c) k) = (if k = mf_motor_vel_control then True else active (flag (Reset_Drive_Flags c) k))"
  by (auto simp: drive_velocity_def Let_def)

lemma set_flags_active [simp]:
  "active (flag (set_once k c) j) = (if j = k then True else active (flag c j))"
  "active (flag (set_periodic k s c) j) = (if j = k then True else active (flag c j))"
  "active (flag (set_stop_timer d c) j) = (if j = mf_motor_stop then True else active (flag c j))"
  by (simp_all add: set_once_def set_periodic_def set_stop_timer_def Let_def)

lemmas handler_defs = case_mul_def case_div_def case_add_def case_sub_def case_t_def case_T_def case_e_def case_E_def
  case_b_def case_B_def case_p_def case_P_def case_s_def case_q_def case_Q_def case_d_def case_D_def case_v_def case_V_def
  case_i_def case_I_def case_G_def case_O_def

lemma excl_simple:
  assumes "drive_excl c" "h \<in> {case_mul, case_div, case_add, case_sub, case_t, case_T, case_e, case_E, case_b, case_B, case_q, case_Q,
     case_i, case_I, case_G}" "h c = Some c'"
  shows "drive_excl c'"
  using assms
  by (auto simp: handler_defs Let_def bind_eq_Some_iff drive_excl_def take_byte_def split: prod.splits if_splits dest!: flag_read_struct)

lemma excl_drive:
  assumes "drive_excl c" "h \<in> {case_p, case_P, case_s, case_d, case_D, case_v, case_V, case_O}" "h c = Some c'"
  shows "drive_excl c'"
  using assms
  by (auto simp: handler_defs Let_def bind_eq_Some_iff drive_excl_def take_byte_def Reset_flags drive_distance_flags
      drive_velocity_flags split: prod.splits if_splits dest!: flag_read_struct flag_Motor)

lemma task_cases:
  assumes "Message_Handling_Task c = Some c'"
  shows "c' = c \<or> (\<exists>h \<in> snd ` set handlers. h c = Some c') \<or> case_restart c = Some c' \<or> case_default (usb_msg_peek (ser c)) c = Some c'"
  using assms by (simp add: Message_Handling_Task_def handlers_def Let_def split: if_split_asm)

lemma excl_task:
  assumes "drive_excl c" "Message_Handling_Task c = Some c'"
  shows "drive_excl c'"
proof -
  have "drive_excl c'" if "h \<in> snd ` set handlers" "h c = Some c'" for h
  proof -
    have "h \<in> {case_mul, case_div, case_add, case_sub, case_t, case_T, case_e, case_E, case_b, case_B, case_q, case_Q,
        case_i, case_I, case_G} \<or> h \<in> {case_p, case_P, case_s, case_d, case_D, case_v, case_V, case_O}"
      using that(1) by (auto simp: handlers_def)
    then show ?thesis using excl_simple excl_drive assms(1) that(2) by blast
  qed
  then show ?thesis using task_cases [OF assms(2)] assms(1)
    by (auto simp: case_restart_def case_default_def drive_excl_def Let_def split: if_splits)
qed

lemma Message_Handling_Init_flags:
  "active (flag (Message_Handling_Init c) k) =
     (active (flag c k) \<and> k \<in> {mf_battery_task, mf_motor_vel_control, mf_obj_avoidance})"
  by (cases k) (simp_all add: Message_Handling_Init_def Let_def)

lemma Run_State_Machine_flags:
  "active (flag (Run_State_Machine r c) k) = (if k = mf_motor_vel_control \<and> OA_state c = INIT then True else active (flag c k))"
  by (simp add: Run_State_Machine_def Let_def split: eOADSM.split)

lemma excl_blocks:
  assumes "drive_excl c" "b \<in> set main_blocks" "b e c = Some c'"
  shows "drive_excl c'"
proof -
  have r: "drive_excl c'" if "block_restart e c = Some c'"
    using assms(1) that by (auto simp: block_restart_def drive_excl_def Message_Handling_Init_flags split: if_splits)
  have o: "drive_excl c'" if "block_obj_avoidance e c = Some c'"
    using assms(1) that by (auto simp: block_obj_avoidance_def MSG_FLAG_Execute_iff Run_OA_Task_def drive_excl_def
        Run_State_Machine_flags split: if_splits eOAReadState.splits)
  have m: "drive_excl c'" if "block_message e c = Some c'"
    using assms(1) that excl_task by (simp add: block_message_def)
  have report: "drive_excl c'" if "b \<in> {block_usb, block_battery_task, block_send_time, block_time_float, block_loop_timer,
      block_encoder, block_send_battery, block_low_battery, block_sys_data, block_proximity}"
    using assms(1,3) that
    by (auto simp: drive_excl_def block_usb_def block_battery_task_def block_send_time_def block_time_float_def
        block_loop_timer_def block_encoder_def block_send_battery_def block_low_battery_def block_sys_data_def
        block_proximity_def CountsL_def CountsR_def Let_def bind_eq_Some_iff split: if_splits prod.splits)
  have drive: "drive_excl c'" if "b \<in> {block_timed_pwm, block_dist_control, block_vel_control, block_motor_stop}"
    using assms(1,3) that
    by (auto simp: drive_excl_def block_timed_pwm_def block_dist_control_def block_vel_control_def block_motor_stop_def
        dist_done_def dist_continue_def next_pass_def CNTRL_SYS_def DEBUG_def Let_def bind_eq_Some_iff
        split: if_splits prod.splits dest!: flag_motors_off flag_drive_motors flag_duty)
  show ?thesis using assms(2,3) r o m report drive by (auto simp: main_blocks_def)
qed

section \<open>The loop with interrupts\<close>

text \<open>The events of the bus that the general interrupt service routine handles.\<close>

fun interrupts :: "bus_event \<Rightarrow> bool" where
  "interrupts (Bus_interrupt f) = True"
| "interrupts (VBUS_change b) = True"
| "interrupts _ = False"

inductive step :: "nat \<times> car \<Rightarrow> nat \<times> car \<Rightarrow> bool" where
  block: "pc < length main_blocks \<Longrightarrow> (main_blocks ! pc) e c = Some c'
    \<Longrightarrow> step (pc, c) (Suc pc mod length main_blocks, c')"
| timer: "bit (SREG (regs c)) 7 \<Longrightarrow> step (pc, c) (pc, c\<lparr>tim := TIMER0_COMPB_vect (tim c)\<rparr>)"
| count: "TCNT0 (tim c) < 249 \<Longrightarrow> step (pc, c) (pc, c\<lparr>tim := (tim c)\<lparr>TCNT0 := TCNT0 (tim c) + 1\<rparr>\<rparr>)"
| left_edge: "bit (SREG (regs c)) 7 \<Longrightarrow> PCINT0_vect i (enc c) = Some x \<Longrightarrow> step (pc, c) (pc, c\<lparr>enc := x\<rparr>)"
| right_edge: "bit (SREG (regs c)) 7 \<Longrightarrow> INT6_vect i (enc c) = Some x \<Longrightarrow> step (pc, c) (pc, c\<lparr>enc := x\<rparr>)"
| usb_request: "bit (SREG (regs c)) 7 \<Longrightarrow> UEINTX (eps (ser c) 0) AND RXSTPI \<noteq> 0 \<Longrightarrow> UEIENX (eps (ser c) 0) AND RXSTPE \<noteq> 0
    \<Longrightarrow> USB_COM_vect evs (ser c) = Some u \<Longrightarrow> step (pc, c) (pc, c\<lparr>ser := u\<rparr>)"
| usb_bus: "(interrupts ev \<longrightarrow> bit (SREG (regs c)) 7) \<Longrightarrow> bus_step ev (ser c) = Some u \<Longrightarrow> step (pc, c) (pc, c\<lparr>ser := u\<rparr>)"

inductive reachable :: "car \<Rightarrow> nat \<times> car \<Rightarrow> bool" for c0 where
  start: "reachable c0 (0, c0)"
| step: "reachable c0 s \<Longrightarrow> step s t \<Longrightarrow> reachable c0 t"

inductive_cases stepE: "step (pc, c) t"
inductive_simps reachable_start: "reachable c0 (0, c)"

locale loop_invariant =
  fixes I :: "car \<Rightarrow> bool"
  assumes keeps_block: "b \<in> set main_blocks \<Longrightarrow> I c \<Longrightarrow> b e c = Some c' \<Longrightarrow> I c'"
    and keeps_tim: "I c \<Longrightarrow> I (c\<lparr>tim := t\<rparr>)"
    and keeps_enc: "I c \<Longrightarrow> I (c\<lparr>enc := x\<rparr>)"
    and keeps_lib: "I c \<Longrightarrow> driver u = driver (ser c) \<Longrightarrow> I (c\<lparr>ser := u\<rparr>)"
begin

lemma keeps_step: "step s t \<Longrightarrow> I (snd s) \<Longrightarrow> I (snd t)"
  by (induction rule: step.induct) 
    (auto intro: keeps_block [OF nth_mem] keeps_tim keeps_enc keeps_lib dest: driver_tasks driver_bus_step)

lemma always: "reachable c0 s \<Longrightarrow> I c0 \<Longrightarrow> I (snd s)"
  by (induction rule: reachable.induct) (auto intro: keeps_step)

lemma fold_blocks:
  "I c \<Longrightarrow> set bs \<subseteq> set main_blocks \<Longrightarrow> fold_opt (\<lambda>b. b e) bs c = Some c' \<Longrightarrow> I c'"
  by (induction bs arbitrary: c) (auto simp: bind_eq_Some_iff intro: keeps_block)

lemma main_pass: "I c \<Longrightarrow> main_pass e c = Some c' \<Longrightarrow> I c'"
  using fold_blocks by (auto simp: main_pass_def)

end

interpretation excl: loop_invariant drive_excl
proof
  show "drive_excl c'" if "b \<in> set main_blocks" "drive_excl c" "b e c = Some c'" for b e c c'
    using excl_blocks that by blast
qed (simp_all add: drive_excl_def)

section \<open>The serial link and the motor registers\<close>

text \<open>The motor timer as \<open>main\<close> configures it: the top value is 400 and no compare value exceeds it.\<close>

definition motor_ok :: "motor \<Rightarrow> bool" where
  "motor_ok m \<longleftrightarrow> ICR1 m = 400 \<and> OCR1A m \<le> 400 \<and> OCR1B m \<le> 400"

definition frame_ok :: "car \<Rightarrow> bool" where
  "frame_ok c \<longleftrightarrow> usb_wf (ser c) \<and> motor_ok (mot c)"

lemma Motor_Left_motor_ok:
  assumes "Motor_Left p c = Some c'" "motor_ok (mot c)"
  shows "motor_ok (mot c')"
proof -
  have "sint p \<noteq> - 32768" using assms(1) by (auto simp: Motor_Left_def Motor_PWM_Left_unfold)
  then obtain m r where m: "Motor_PWM_Left p (mot c) (regs c) = Some (m, r)" "OCR1B m \<le> ICR1 m" "m = (mot c)\<lparr>OCR1B := OCR1B m\<rparr>"
    using Motor_PWM_Left_ok [of "mot c" p "regs c"] assms(2) by (auto simp: motor_ok_def)
  then have "ICR1 m = ICR1 (mot c)" "OCR1A m = OCR1A (mot c)" by (metis motor.select_convs motor.update_convs motor.surjective)+
  then show ?thesis using m(1,2) assms by (auto simp: Motor_Left_def motor_ok_def)
qed

lemma Motor_Right_motor_ok:
  assumes "Motor_Right p c = Some c'" "motor_ok (mot c)"
  shows "motor_ok (mot c')"
proof -
  have "sint p \<noteq> - 32768" using assms(1) by (auto simp: Motor_Right_def Motor_PWM_Right_unfold)
  then obtain m r where m: "Motor_PWM_Right p (mot c) (regs c) = Some (m, r)" "OCR1A m \<le> ICR1 m" "m = (mot c)\<lparr>OCR1A := OCR1A m\<rparr>"
    using Motor_PWM_Right_ok [of "mot c" p "regs c"] assms(2) by (auto simp: motor_ok_def)
  then have "ICR1 m = ICR1 (mot c)" "OCR1B m = OCR1B (mot c)" by (metis motor.select_convs motor.update_convs motor.surjective)+
  then show ?thesis using m(1,2) assms by (auto simp: Motor_Right_def motor_ok_def)
qed

lemma Motor_Enable_motor_ok [simp]: "motor_ok (mot (Motor_Enable b c)) = motor_ok (mot c)"
  by (simp add: Motor_Enable_def motor_ok_def Motor_PWM_Enable_ok)

lemma mot_frame [simp, frame]:
  "mot (LED l b c) = mot c" "mot (send_msg f cmd d c) = mot c" "mot (set_active k b c) = mot c"
  "mot (set_duration k x c) = mot c" "mot (set_trigger k t c) = mot c" "mot (MSG_FLAG_Init k c) = mot c"
  "mot (Set_Target_Position x y c) = mot c" "mot (Set_Target_Velocity x y c) = mot c"
  "mot (Zero_Encoders_c c) = mot c" "mot (IRRead_c side e c) = mot c" "mot (apply_plan p c) = mot c"
  "mot (Init_Obstacle_Avoidance c) = mot c" "mot (send_bad_input ch c) = mot c" "mot (drive_refuse v c) = mot c"
  "mot (pwm_refuse v c) = mot c" "mot (send_go_straight ch c) = mot c" "mot (send_turn ch c) = mot c"
  "mot (send_battery_low v c) = mot c" "mot (Send_Time_Message m n x c) = mot c"
  "mot (start_measuring c) = mot c" "mot (read_ticks c) = mot c" "mot (snd (take_byte c)) = mot c"
  "mot (set_once k c) = mot c" "mot (set_periodic k s c) = mot c" "mot (set_stop_timer s c) = mot c"
  "mot (Reset_Drive_Flags c) = mot c" "mot (drive_distance ch v x c) = mot c" "mot (drive_velocity ch v x c) = mot c"
  "mot (Message_Handling_Init c) = mot c" "mot (next_pass k c) = mot c"
  by (simp_all add: LED_def send_msg_def set_active_def set_duration_def set_trigger_def set_flag_def MSG_FLAG_Init_def
      Set_Target_Position_def Set_Target_Velocity_def Zero_Encoders_c_def IRRead_c_def apply_plan_def
      Init_Obstacle_Avoidance_def send_bad_input_def drive_refuse_def
      pwm_refuse_def send_go_straight_def send_turn_def send_battery_low_def send_power_off_def Send_Time_Message_def
      start_measuring_def read_ticks_def CountsL_def CountsR_def take_byte_def set_once_def set_periodic_def
      set_stop_timer_def Reset_Drive_Flags_def drive_distance_def drive_velocity_def Message_Handling_Init_def
      next_pass_def Let_def split: prod.split)

lemma mot_read_struct: "read_struct n c = Some (d, c') \<Longrightarrow> mot c' = mot c"
  by (auto simp: read_struct_def split: prod.splits if_splits)

lemma handlers_motor_ok:
  assumes "motor_ok (mot c)" "h \<in> snd ` set handlers" "h c = Some c'"
  shows "motor_ok (mot c')"
proof -
  have quiet: "motor_ok (mot c')" if "h \<in> {case_mul, case_div, case_add, case_sub, case_t, case_T, case_e, case_E, case_b,
      case_B, case_q, case_Q, case_i, case_I, case_G, case_d, case_D, case_v, case_V, case_O}"
    using assms(1,3) that
    by (auto simp: handler_defs Let_def bind_eq_Some_iff take_byte_def split: prod.splits if_splits dest!: mot_read_struct)
  have pwm: "motor_ok (mot c')" if "h \<in> {case_p, case_P, case_s}"
    using assms(1,3) that
    by (auto simp: handler_defs Let_def bind_eq_Some_iff take_byte_def split: prod.splits if_splits
        dest!: mot_read_struct Motor_Left_motor_ok Motor_Right_motor_ok)
  show ?thesis using quiet pwm assms(2) by (auto simp: handlers_def)
qed

lemma task_motor_ok:
  assumes "motor_ok (mot c)" "Message_Handling_Task c = Some c'"
  shows "motor_ok (mot c')"
  using task_cases [OF assms(2)] handlers_motor_ok [OF assms(1)] assms(1)
  by (auto simp: case_restart_def case_default_def Let_def split: if_splits)

lemma motors_off_motor_ok: "motors_off c = Some c' \<Longrightarrow> motor_ok (mot c) \<Longrightarrow> motor_ok (mot c')"
  by (auto simp: motors_off_def bind_eq_Some_iff dest!: Motor_Left_motor_ok Motor_Right_motor_ok)

lemma drive_motors_motor_ok: "drive_motors l r c = Some c' \<Longrightarrow> motor_ok (mot c) \<Longrightarrow> motor_ok (mot c')"
  by (auto simp: drive_motors_def bind_eq_Some_iff dest!: Motor_Left_motor_ok Motor_Right_motor_ok)

lemma duty_mot: "target_duty c = Some (l, r, c') \<Longrightarrow> mot c' = mot c" "vel_duty x y c = Some (l, r, c') \<Longrightarrow> mot c' = mot c"
  by (auto simp: target_duty_def vel_duty_def CNTRL_SYS_def bind_eq_Some_iff Let_def split: if_splits)

lemma Run_OA_mot [simp]: "mot (snd (Run_OA_Task e c)) = mot c"
  by (simp add: Run_OA_Task_def Run_State_Machine_def Let_def split: eOAReadState.split eOADSM.split)

lemma blocks_motor_ok:
  assumes "motor_ok (mot c)" "b \<in> set main_blocks" "b e c = Some c'"
  shows "motor_ok (mot c')"
proof -
  have m: "motor_ok (mot c')" if "block_message e c = Some c'"
    using assms(1) that task_motor_ok by (simp add: block_message_def)
  have o: "motor_ok (mot c')" if "block_obj_avoidance e c = Some c'"
    using assms(1) that Run_OA_mot [of e c] by (auto simp: block_obj_avoidance_def split: if_splits prod.splits simp del: Run_OA_mot)
  have report: "motor_ok (mot c')" if "b \<in> {block_usb, block_restart, block_battery_task, block_send_time, block_time_float,
      block_loop_timer, block_encoder, block_send_battery, block_low_battery, block_sys_data, block_proximity}"
    using assms(1,3) that
    by (auto simp: block_usb_def block_restart_def block_battery_task_def block_send_time_def block_time_float_def
        block_loop_timer_def block_encoder_def block_send_battery_def block_low_battery_def block_sys_data_def
        block_proximity_def CountsL_def CountsR_def Let_def bind_eq_Some_iff split: if_splits prod.splits)
  have drive: "motor_ok (mot c')" if "b \<in> {block_timed_pwm, block_dist_control, block_vel_control, block_motor_stop}"
    using assms(1,3) that
    by (auto simp: block_timed_pwm_def block_dist_control_def block_vel_control_def block_motor_stop_def
        dist_done_def dist_continue_def CNTRL_SYS_def DEBUG_def Let_def bind_eq_Some_iff
        split: if_splits prod.splits dest!: motors_off_motor_ok drive_motors_motor_ok duty_mot)
  show ?thesis using assms(2,3) m o report drive by (auto simp: main_blocks_def)
qed

section \<open>Messages of the blocks\<close>

lemma talks_reports [talk]:
  "talks c (send_msg ''cff'' cmd (le32 x @ le32 y) c)"
  "talks c (send_msg ''cfhhhh'' cmd (le32 x @ le16 p @ le16 q @ le16 r @ le16 s) c)"
  "talks c (send_msg ''chc'' cmd (le16 p @ [k]) c)"
  by (rule talks_send_msg, simp add: fsize_def calcsize_def)+

lemma talks_other [talk]:
  "talks c (c\<lparr>start_time_float := t\<rparr>)" "talks c (c\<lparr>trip_float := b\<rparr>)" "talks c (c\<lparr>start_time_loop := t\<rparr>)"
  "talks c (c\<lparr>trip_loop := b\<rparr>)" "talks c (c\<lparr>proxy_first := b\<rparr>)" "talks c (c\<lparr>first_time := b\<rparr>)" "talks c (c\<lparr>bat := x, bat_val := v\<rparr>)"
  "talks c (c\<lparr>start_time_loop := t, trip_loop := b\<rparr>)" "talks c (c\<lparr>time_new := w\<rparr>)" "talks c (snd (CountsL c))" "talks c (snd (CountsR c))"
  "talks c (start_measuring c)" "talks c (read_ticks c)" "talks c (IRRead_c side e c)" "talks c (next_pass k c)"
  "talks c (Message_Handling_Init c)" "talks c (Run_State_Machine r c)" "talks c (c\<lparr>read_state := z\<rparr>)"
  by (rule talksI; simp add: CountsL_def CountsR_def start_measuring_def read_ticks_def IRRead_c_def next_pass_def set_trigger_def
      set_flag_def Message_Handling_Init_def MSG_FLAG_Init_def Run_State_Machine_def Set_Target_Velocity_def LED_def
      set_active_def set_duration_def Let_def split: prod.split eOADSM.split)+

lemmas talk_all = talk [THEN [2] talks_trans] talks_refl

lemma talks_motors_off: "motors_off c = Some c' \<Longrightarrow> talks c c'"
  by (auto simp: motors_off_def bind_eq_Some_iff talk_all dest: talks_motors)

lemma talks_drive_motors: "drive_motors l r c = Some c' \<Longrightarrow> talks c c'"
  by (auto simp: drive_motors_def bind_eq_Some_iff talk_all dest: talks_motors)

lemma Counts_eq [simp]: "CountsL c = (left_counts (enc c), c)" "CountsR c = (right_counts (enc c), c)"
  by (simp_all add: CountsL_def CountsR_def Counts_simps)

lemma Run_OA_talks: "talks c (snd (Run_OA_Task e c))"
  by (simp add: Run_OA_Task_def talk_all split: eOAReadState.split)

lemma duty_same: "target_duty c = Some (l, r, c') \<Longrightarrow> c' = c" "vel_duty x y c = Some (l, r, c') \<Longrightarrow> c' = c"
  by (auto simp: target_duty_def vel_duty_def CNTRL_SYS_def bind_eq_Some_iff Let_def split: if_splits)

lemma dist_done_talks: "dist_done c = Some c' \<Longrightarrow> talks c c'"
  by (auto simp: dist_done_def bind_eq_Some_iff Let_def talk_all dest!: talks_motors_off)

lemma dist_continue_talks:
  assumes "dist_continue x y c = Some c'"
  shows "talks c c'"
proof -
  let ?d = "Set_Target_Position (f_sub (target_pos (ctr_LeftMotor c)) x) (f_sub (target_pos (ctr_RightMotor c)) y)
      (c\<lparr>time_new := GetTimeSec (tim c)\<rparr>)"
  obtain l r d where "drive_motors l r ?d = Some d" "c' = next_pass mf_motor_dist_control d"
    using assms by (auto simp: dist_continue_def CNTRL_SYS_def DEBUG_def bind_eq_Some_iff Let_def dest!: duty_same)
  moreover have "talks c ?d" by (simp add: talk_all)
  ultimately show ?thesis using talks_drive_motors talks_trans by (metis talk_all(1) talks_other(15))
qed

lemma dist_control_talks: "block_dist_control e c = Some c' \<Longrightarrow> talks c c'"
  by (auto simp: block_dist_control_def Let_def bind_eq_Some_iff talk_all split: if_splits
      dest!: dist_done_talks dist_continue_talks intro: talks_trans [OF talks_other(13)])

lemma vel_control_talks:
  assumes "block_vel_control e c = Some c'"
  shows "talks c c'"
proof (cases "MSG_FLAG_Execute mf_motor_vel_control c \<and> \<not> first_time c")
  case True
  let ?d = "read_ticks (c\<lparr>time_new := GetTimeSec (tim c)\<rparr>)"
  obtain l r d where "drive_motors l r ?d = Some d" "c' = next_pass mf_motor_vel_control d"
    using assms True by (auto simp: block_vel_control_def DEBUG_def bind_eq_Some_iff Let_def dest!: duty_same)
  moreover have "talks c ?d" by (simp add: talk_all)
  ultimately show ?thesis using talks_drive_motors talks_trans by (metis talk_all(1) talks_other(15))
next
  case False
  then show ?thesis using assms by (auto simp: block_vel_control_def talk_all split: if_splits)
qed

text \<open>Every block but the message handler and the link itself only appends messages.\<close>

lemma blocks_talk:
  assumes "b \<in> set (drop 2 main_blocks)" "b e c = Some c'"
  shows "talks c c'"
proof -
  have o: "talks c c'" if "block_obj_avoidance e c = Some c'"
    using that Run_OA_talks [of c e] by (auto simp: block_obj_avoidance_def talk_all split: if_splits prod.splits)
  have report1: "talks c c'" if "b \<in> {block_restart, block_battery_task, block_send_time, block_time_float,
      block_loop_timer}"
    using assms(2) that
    by (auto simp: block_restart_def block_battery_task_def block_send_time_def block_time_float_def
        block_loop_timer_def talk_all Let_def bind_eq_Some_iff split: if_splits prod.splits)
  have report2: "talks c c'" if "b \<in> {block_encoder, block_send_battery, block_low_battery, block_sys_data, block_proximity}"
    using assms(2) that
    by (auto simp: block_encoder_def block_send_battery_def block_low_battery_def block_sys_data_def
        block_proximity_def talk_all Let_def bind_eq_Some_iff split: if_splits)
  have stop: "talks c c'" if "b \<in> {block_timed_pwm, block_motor_stop}"
    using assms(2) that
    by (auto simp: block_timed_pwm_def block_motor_stop_def talk_all Let_def bind_eq_Some_iff
        split: if_splits dest!: talks_motors_off)
  show ?thesis using assms o report1 report2 stop dist_control_talks vel_control_talks by (auto simp: main_blocks_def)
qed

lemma endpoint_wf:
  "usb_wf (Endpoint_SelectEndpoint n u) = usb_wf u" "usb_wf (Endpoint_ClearIN u) = usb_wf u"
  "usb_wf (Endpoint_ClearOUT u) = usb_wf u" "usb_wf (Endpoint_Write_8 b u) = usb_wf u"
  by (rule driver_queues(1), simp add: usb_frame)+

lemma usb_read_next_byte_wf: "usb_wf u \<Longrightarrow> usb_wf (usb_read_next_byte u)"
  using endpoint_wf
  by (auto simp: usb_read_next_byte_def Let_def usb_wf_def Endpoint_SelectEndpoint_def Endpoint_Read_8_def set_cur_def
      rbC.deque.inv_push_back split: list.split)

lemma usb_write_next_byte_wf:
  assumes "usb_wf u"
  shows "usb_wf (usb_write_next_byte u)"
proof -
  have "rb_wf 64 (snd (rb_pop_front_C (usb_send_buffer u)))" using assms by (simp add: usb_wf_def rbC.deque.inv_pop_front)
  then have "usb_wf (v\<lparr>usb_send_buffer := snd (rb_pop_front_C (usb_send_buffer u))\<rparr>)" if "usb_wf v" for v
    using that by (simp add: usb_wf_def)
  moreover have "usb_wf (v\<lparr>sending := s\<rparr>) = usb_wf v" "usb_wf (v\<lparr>UENUM := n\<rparr>) = usb_wf v" for v s n by (simp_all add: usb_wf_def)
  ultimately show ?thesis using assms
    by (simp add: usb_write_next_byte_def Let_def case_prod_beta endpoint_wf Endpoint_SelectEndpoint_def)
qed

lemma usb_upkeep_wf: "USB_Upkeep_Task evs u = Some v \<Longrightarrow> usb_wf u \<Longrightarrow> usb_wf v"
  by (auto simp: USB_Upkeep_Task_def Let_def bind_eq_Some_iff usb_read_next_byte_wf usb_write_next_byte_wf
      dest: driver_tasks [THEN driver_queues(1)] split: if_splits)

lemma blocks_frame_ok:
  assumes "frame_ok c" "b \<in> set main_blocks" "b e c = Some c'"
  shows "frame_ok c'"
proof -
  have ok: "car_ok c" using assms(1) by (simp add: frame_ok_def car_ok_def motor_ok_def)
  have "motor_ok (mot c')" using blocks_motor_ok [OF _ assms(2,3)] assms(1) by (simp add: frame_ok_def)
  moreover have "usb_wf (ser c')"
  proof (cases "b \<in> set (drop 2 main_blocks)")
    case False
    then have "b = block_usb \<or> b = block_message" using assms(2) by (simp add: main_blocks_def)
    then show ?thesis using assms usb_upkeep_wf Message_Handling_Task_post [OF ok]
      by (auto simp: block_usb_def block_message_def frame_ok_def task_post_def car_ok_def bind_eq_Some_iff)
  next
    case True
    then show ?thesis using blocks_talk [of b e c c'] assms(3) ok by (simp add: talks_def car_ok_def)
  qed
  ultimately show ?thesis by (simp add: frame_ok_def)
qed

interpretation frame_inv: loop_invariant frame_ok
proof
  show "frame_ok c'" if "b \<in> set main_blocks" "frame_ok c" "b e c = Some c'" for b e c c'
    using blocks_frame_ok that by blast
  show "frame_ok (c\<lparr>ser := u\<rparr>)" if "frame_ok c" "driver u = driver (ser c)" for c u
    using that(1) driver_queues(1) [OF that(2)] by (simp add: frame_ok_def)
qed (simp_all add: frame_ok_def)

end
