(* ===== verification/Drive_Behaviour.thy ===== *)
theory Drive_Behaviour
  imports Main_Proofs
begin

text \<open>
  Functional behaviour of single commands and blocks: replies of the arithmetic commands, refusal at
  a low battery, the plans of the driving commands, the distance control, the periodic flags and the
  cycle of the obstacle avoidance.
\<close>

section \<open>Commands\<close>

lemma two_floats:
  assumes "car_ok c" "in_bytes (ser c) = b # le32 x @ le32 y @ rest"
  shows "\<exists>u d. read_struct 8 (snd (take_byte c)) = Some (d, c\<lparr>ser := u\<rparr>) \<and> float_at 0 d = x \<and> float_at 4 d = y \<and>
    usb_wf u \<and> in_bytes u = rest \<and> out_bytes u = out_bytes (ser c)"
proof -
  have "float_at 0 (le32 x @ le32 y) = x" "float_at 4 (le32 x @ le32 y) = y"
    using of_le32_le32 [of y "[]"] by (simp_all add: float_at_def)
  then show ?thesis using read_args [OF assms(1), of b "le32 x @ le32 y" rest] assms(2) by auto
qed

lemma multiply_reply:
  assumes "car_ok c" "in_bytes (ser c) = chr CHR ''*'' # le32 x @ le32 y @ rest"
  shows "\<exists>c'. Message_Handling_Task c = Some c' \<and> in_bytes (ser c') = rest \<and>
    out_bytes (ser c') = newest 63 (out_bytes (ser c) @ msg_frame (cstr ''cf'') (chr CHR ''*'') (le32 (f_mul x y)))"
proof -
  obtain u d where u: "read_struct 8 (snd (take_byte c)) = Some (d, c\<lparr>ser := u\<rparr>)" "float_at 0 d = x" "float_at 4 d = y"
    "usb_wf u" "in_bytes u = rest" "out_bytes u = out_bytes (ser c)" using two_floats [OF assms] by blast
  have "complete CHR ''*'' c" using complete_if [OF assms(1), of "CHR ''*''" "le32 x @ le32 y"] assms(2) by simp
  then have "Message_Handling_Task c = Some (send_msg ''cf'' (chr CHR ''*'') (le32 (f_mul x y)) (c\<lparr>ser := u\<rparr>))"
    using task_handlers [OF assms(1,2)] u(1-3) by (cases "take_byte c") (simp add: handlers_def case_mul_def Let_def)
  then show ?thesis using send_msg_link [of "''cf''" "chr CHR ''*''" "le32 (f_mul x y)" "c\<lparr>ser := u\<rparr>"] u(4-6)
    by (simp add: fsize_def calcsize_def)
qed

lemma divide_by_zero_reply:
  assumes "car_ok c" "in_bytes (ser c) = chr CHR ''/'' # le32 x @ le32 y @ rest" "\<not> f_ne y 0"
  shows "\<exists>c'. Message_Handling_Task c = Some c' \<and> in_bytes (ser c') = rest \<and>
    out_bytes (ser c') = newest 63 (out_bytes (ser c) @ msg_frame (cstr ''cc'') (chr CHR ''/'') [chr CHR ''?''])"
proof -
  obtain u d where u: "read_struct 8 (snd (take_byte c)) = Some (d, c\<lparr>ser := u\<rparr>)" "float_at 0 d = x" "float_at 4 d = y"
    "usb_wf u" "in_bytes u = rest" "out_bytes u = out_bytes (ser c)" using two_floats [OF assms(1,2)] by blast
  have "complete CHR ''/'' c" using complete_if [OF assms(1), of "CHR ''/''" "le32 x @ le32 y"] assms(2) by simp
  then have "Message_Handling_Task c = Some (send_msg ''cc'' (chr CHR ''/'') [chr CHR ''?''] (c\<lparr>ser := u\<rparr>))"
    using task_handlers [OF assms(1,2)] u(1-3) assms(3)
    by (cases "take_byte c") (simp add: handlers_def case_div_def send_bad_input_def Let_def)
  then show ?thesis using send_msg_link [of "''cc''" "chr CHR ''/''" "[chr CHR ''?'']" "c\<lparr>ser := u\<rparr>"] u(4-6)
    by (simp add: fsize_def calcsize_def)
qed

text \<open>The parts of the car that make it move.\<close>

definition same_drive :: "car \<Rightarrow> car \<Rightarrow> bool" where
  "same_drive c c' \<longleftrightarrow> mot c' = mot c \<and> flag c' = flag c \<and> ctr_LeftMotor c' = ctr_LeftMotor c \<and>
     ctr_RightMotor c' = ctr_RightMotor c \<and> enc c' = enc c \<and> regs c' = regs c"

lemma same_drive_send: "same_drive c (send_msg f cmd d c)"
  by (simp add: same_drive_def send_msg_def)

lemma same_drive_refuse: "same_drive c (drive_refuse v c)" "same_drive c (pwm_refuse v c)"
  by (simp_all add: drive_refuse_def pwm_refuse_def send_battery_low_def send_power_off_def same_drive_send)

lemma same_drive_trans: "same_drive a b \<Longrightarrow> same_drive b c \<Longrightarrow> same_drive a c"
  by (simp add: same_drive_def)

lemma read_same: "read_struct n c = Some (d, c') \<Longrightarrow> same_drive c c' \<and> bat c' = bat c"
  by (auto simp: read_struct_def same_drive_def split: prod.splits if_splits)

lemma take_same: "take_byte c = (b, c') \<Longrightarrow> same_drive c c' \<and> bat c' = bat c"
  by (auto simp: take_byte_def same_drive_def split: prod.splits)

lemma refuse_shape:
  assumes h: "\<And>c. h c = (if complete ch c then do { let (_, c) = take_byte c; (d, c) \<leftarrow> read_struct n c;
      let v = Battery_Voltage (bat c); if battery_good v then act d v c else Some (ref v c) } else Some c)"
    and ref: "\<And>v c. same_drive c (ref v c)" and bad: "\<not> battery_good (Battery_Voltage (bat c))" and res: "h c = Some c'"
  shows "same_drive c c'"
proof (cases "complete ch c")
  case True
  obtain b a where a: "take_byte c = (b, a)" by fastforce
  obtain d x where x: "read_struct n a = Some (d, x)" using True res a by (auto simp: h bind_eq_Some_iff)
  note s = take_same [OF a] read_same [OF x]
  have "c' = ref (Battery_Voltage (bat x)) x" using True res a x s bad by (simp add: h)
  then show ?thesis using s ref same_drive_trans by metis
next
  case False
  then show ?thesis using res by (simp add: h same_drive_def)
qed

lemma battery_refuses:
  assumes "h \<in> {case_p, case_P, case_d, case_D, case_v, case_V, case_O}" "\<not> battery_good (Battery_Voltage (bat c))" "h c = Some c'"
  shows "same_drive c c'"
  using assms refuse_shape [OF case_p_def same_drive_refuse(2)] refuse_shape [OF case_P_def same_drive_refuse(2)]
    refuse_shape [OF case_d_def same_drive_refuse(1)] refuse_shape [OF case_D_def same_drive_refuse(1)]
    refuse_shape [OF case_v_def same_drive_refuse(1)] refuse_shape [OF case_V_def same_drive_refuse(1)]
    refuse_shape [OF case_O_def same_drive_refuse(1)]
  by blast

section \<open>Signs of products and quotients\<close>

lemma f_mul_sgn:
  assumes "f_fin x" "f_mag x \<noteq> 0" "\<not> f_nan y"
  shows "f_sgn (f_mul x y) = (f_sgn x \<noteq> f_sgn y)" "\<not> f_nan (f_mul x y)"
proof -
  have x: "\<not> f_nan x" "\<not> f_inf x" using assms(1) by (simp_all add: f_fin_def f_nan_def f_inf_def)
  have i: "f_inf y \<Longrightarrow> f_mag y \<noteq> 0" by (simp add: f_inf_def F_INF_def)
  have b: "f_sgn (f_make s F_INF) = s" "\<not> f_nan (f_make s F_INF)" "f_sgn (f_make s 0) = s" "\<not> f_nan (f_make s 0)" for s
    by (simp_all add: f_nan_def F_INF_def)
  show "f_sgn (f_mul x y) = (f_sgn x \<noteq> f_sgn y)" "\<not> f_nan (f_mul x y)"
    using x i assms b by (auto simp: f_mul_def Let_def)
qed

lemma f_div_sgn:
  assumes "\<not> f_nan x" "f_fin y" "f_mag y \<noteq> 0" "f_val y \<noteq> 0"
  shows "f_sgn (f_div x y) = (f_sgn x \<noteq> f_sgn y)" "\<not> f_nan (f_div x y)"
proof -
  have y: "\<not> f_nan y" "\<not> f_inf y" using assms(2) by (simp_all add: f_fin_def f_nan_def f_inf_def)
  have b: "f_sgn (f_make s F_INF) = s" "\<not> f_nan (f_make s F_INF)" "f_sgn (f_make s 0) = s" "\<not> f_nan (f_make s 0)" for s
    by (simp_all add: f_nan_def F_INF_def)
  show "f_sgn (f_div x y) = (f_sgn x \<noteq> f_sgn y)" "\<not> f_nan (f_div x y)"
    using y assms b by (auto simp: f_div_def Let_def)
qed

lemma f_lt_sgn:
  "f_lt 0 a \<Longrightarrow> \<not> f_sgn a \<and> \<not> f_nan a" "f_lt a 0 \<Longrightarrow> f_sgn a \<and> \<not> f_nan a \<and> \<not> f_lt 0 a"
proof -
  have z: "f_val 0 = 0" "\<not> f_nan 0" by (simp_all add: f_val_def f_mag_def f_nan_def F_INF_def)
  have "0 \<le> mag_val (f_mag a)" by (rule mag_val_nonneg) (simp add: f_mag_def)
  then show "f_lt 0 a \<Longrightarrow> \<not> f_sgn a \<and> \<not> f_nan a" "f_lt a 0 \<Longrightarrow> f_sgn a \<and> \<not> f_nan a \<and> \<not> f_lt 0 a"
    using z by (auto simp: f_lt_def f_val_def split: if_splits)
qed

lemma spin_constants:
  "f_fin HALF_WHEEL_BASE" "f_mag HALF_WHEEL_BASE \<noteq> 0" "\<not> f_sgn HALF_WHEEL_BASE"
  "f_fin (f_of_int 2)" "f_mag (f_of_int 2) \<noteq> 0" "f_val (f_of_int 2) \<noteq> 0" "\<not> f_sgn (f_of_int 2)"
  "f_fin (f_of_int (-1))" "f_mag (f_of_int (-1)) \<noteq> 0" "f_sgn (f_of_int (-1))"
  by code_simp+

text \<open>Both branches of the spin move the left track backwards and the right track forwards.\<close>

lemma plan_spin_signs:
  assumes "f_lt 0 a \<or> f_lt a 0"
  shows "f_sgn (distance_left (plan_spin a))" "\<not> f_sgn (distance_right (plan_spin a))"
proof -
  have a: "\<not> f_nan a" "f_sgn a = (\<not> f_lt 0 a)" using assms f_lt_sgn by blast+
  let ?d = "f_div (f_mul HALF_WHEEL_BASE a) (f_of_int 2)"
  have m: "f_sgn (f_mul HALF_WHEEL_BASE a) = f_sgn a" "\<not> f_nan (f_mul HALF_WHEEL_BASE a)"
    using f_mul_sgn [of HALF_WHEEL_BASE a] spin_constants a by auto
  have d: "f_sgn ?d = f_sgn a" "\<not> f_nan ?d"
    using f_div_sgn [of "f_mul HALF_WHEEL_BASE a" "f_of_int 2"] spin_constants m by auto
  have n: "f_sgn (f_mul (f_of_int (-1)) ?d) = (\<not> f_sgn a)"
    using f_mul_sgn [of "f_of_int (-1)" ?d] spin_constants d by auto
  show "f_sgn (distance_left (plan_spin a))" "\<not> f_sgn (distance_right (plan_spin a))"
    using a(2) d(1) n by (cases "f_lt 0 a"; simp add: plan_spin_def Let_def)+
qed

section \<open>Restart\<close>

lemma restart_stays:
  assumes "car_ok c" "in_bytes (ser c) = chr CHR ''~'' # bs"
  shows "\<exists>c'. ((\<lambda>x. x \<bind> Message_Handling_Task) ^^ n) (Some c) = Some c' \<and> car_ok c' \<and> in_bytes (ser c') = chr CHR ''~'' # bs"
proof (induction n)
  case (Suc n)
  then obtain d where d: "((\<lambda>x. x \<bind> Message_Handling_Task) ^^ n) (Some c) = Some d" "car_ok d" "in_bytes (ser d) = chr CHR ''~'' # bs"
    by blast
  have "Message_Handling_Task d = case_restart d" using task_handlers [OF d(2,3)] by (simp add: handlers_def)
  then obtain e where e: "Message_Handling_Task d = Some e" by (cases "complete CHR ''~'' d") (auto simp: case_restart_def)
  then have "task_post d e" by (rule Message_Handling_Task_post [OF d(2)])
  then show ?case using d e by (simp add: task_post_def)
qed (use assms in simp)

section \<open>Timers\<close>

lemma period_after_ticks:
  assumes "active (flag c k)" "duration (flag c k) = f_of_int d" "0 \<le> d" "d < 16777216"
    "last_trigger_time (flag c k) = GetTime_c c" "n < 2 ^ 32"
  shows "MSG_FLAG_Execute k (c\<lparr>tim := (TIMER0_COMPB_vect ^^ n) (tim c)\<rparr>) \<longleftrightarrow> d \<le> int n"
proof -
  have "uint (of_nat n :: uint32) = int n" using assms(6) by (simp add: uint_nat unat_of_nat take_bit_eq_mod)
  then show ?thesis using assms(1-5)
    by (subst MSG_FLAG_Execute_period) (simp_all add: count_ms_isr_n GetTime_c_def)
qed

section \<open>Battery\<close>

lemma battery_task_flag:
  assumes "MSG_FLAG_Execute mf_battery_task c" "adc e = Some v" "battery_wf (bat c)"
  shows "\<exists>c'. block_battery_task e c = Some c' \<and> battery_wf (bat c') \<and> bat_val c' = Battery_Voltage (bat c') \<and>
    active (flag c' mf_low_battery) = (f_lt (bat_val c') (f_lit 475 100) \<and> f_lt (f_lit 3 1) (bat_val c')) \<and>
    last_trigger_time (flag c' mf_battery_task) = GetTime_c c"
proof -
  obtain b where b: "Battery_Voltage_Task (Some v) (bat c) = Some (Battery_Voltage b, b)" "battery_wf b"
    using Battery_Voltage_Task_ok [OF assms(3), of v] by blast
  have t: "GetTime_c (c\<lparr>bat := x, bat_val := y\<rparr>) = GetTime_c c" "GetTime_c (set_duration k z c') = GetTime_c c'"
    "GetTime_c (set_active k w c') = GetTime_c c'" for x y k z w c'
    by (simp_all add: GetTime_c_def set_duration_def set_active_def set_flag_def)
  show ?thesis using assms(1,2) b
    by (auto simp: block_battery_task_def Let_def t) (auto simp: set_duration_def set_active_def set_trigger_def set_flag_def)
qed

end
