(* ===== verification/System_Behaviour.thy ===== *)
theory System_Behaviour
  imports Drive_Behaviour
begin

text \<open>
  Behaviour that crosses components: what initialisation establishes, how the motors are switched
  off, which commands the battery refuses, how the timers and the drive blocks act on the car.
\<close>

section \<open>Initialisation\<close>

text \<open>
  Power-on: static storage is zero, the ring buffers are empty. The local variables of \<open>main\<close> and
  the pins are arbitrary.
\<close>

definition filter_rbs :: "Filter_Data_t \<Rightarrow> bool" where
  "filter_rbs f \<longleftrightarrow> rb_wf 8 (numerator f) \<and> rb_wf 8 (denominator f) \<and> rb_wf 8 (in_list f) \<and> rb_wf 8 (out_list f)"

definition power_on :: "car \<Rightarrow> bool" where
  "power_on c \<longleftrightarrow> filter_rbs (battery_filter (bat c)) \<and> filter_rbs (controller (ctr_LeftMotor c)) \<and>
     filter_rbs (controller (ctr_RightMotor c)) \<and> usb_wf (ser c) \<and> OCR1A (mot c) = 0 \<and> OCR1B (mot c) = 0 \<and>
     (\<forall>k. \<not> active (flag c k))"

lemma Controller_Init_ok:
  assumes "filter_rbs (controller k)" "length num = 2" "length den = 2"
  shows "\<exists>k'. Controller_Init k g num den 1 per = Some k' \<and> controller_wf 2 k' \<and> update_period k' = per \<and>
    target_pos k' = 0 \<and> target_vel k' = 0 \<and> kp k' = g \<and>
    rb_list 8 (numerator (controller k')) = num \<and> rb_list 8 (denominator (controller k')) = den"
  using Filter_Init_ok [of "controller k" 1 num den] assms
  by (auto simp: Controller_Init_def filter_rbs_def controller_wf_def numeral_2_eq_2)

lemma USB_SetupHardware_ok:
  assumes "usb_wf u"
  shows "\<exists>v. USB_SetupHardware u = Some v \<and> usb_wf v \<and> in_bytes v = [] \<and> out_bytes v = [] \<and> \<not> clear_buffer v"
proof -
  let ?u = "u\<lparr>MCUSR := MCUSR u AND NOT 0x08, WDTCSR := 0, CLKPR := 0\<rparr>"
  obtain w where w: "USB_Init ?u = Some w" using USB_Init_returns by blast
  then have "usb_wf w" using driver_queues(1) [OF driver_Init [OF w]] assms by (simp add: usb_wf_def)
  then show ?thesis using w
    by (simp add: USB_SetupHardware_def Let_def usb_init_buffers_def usb_wf_def in_bytes_def out_bytes_def
        rbC.deque.inv_init rbC.deque.abs_init)
qed

lemma sei_bit [simp]: "bit (SREG (sei r)) 7"
  by (simp add: sei_def bit_simps)

lemma LED_Init_frame [simp]: "SREG (LED_Init r) = SREG r"
  by (simp add: LED_Init_def Let_def)

lemma coefficient_lengths [simp]: "length num_left = 2" "length num_right = 2" "length den_left = 2" "length den_right = 2"
  by (simp_all add: num_left_def num_right_def den_left_def den_right_def)

text \<open>A controller with its gain and coefficients, an update period of 10 ms and no targets.\<close>

definition controller_set :: "float32 \<Rightarrow> float32 list \<Rightarrow> float32 list \<Rightarrow> Controller_t \<Rightarrow> bool" where
  "controller_set g num den k \<longleftrightarrow> controller_wf 2 k \<and> kp k = g \<and> rb_list 8 (numerator (controller k)) = num \<and>
     rb_list 8 (denominator (controller k)) = den \<and> update_period k = f_of_int 10 \<and> target_pos k = 0 \<and> target_vel k = 0"

text \<open>A battery filter with its coefficients and the first measurement as its history.\<close>

definition battery_set :: "uint16 \<Rightarrow> battery \<Rightarrow> bool" where
  "battery_set v b \<longleftrightarrow> battery_wf b \<and> Battery_Voltage b = volts v \<and>
     rb_list 8 (numerator (battery_filter b)) = b_coeff \<and> rb_list 8 (denominator (battery_filter b)) = a_coeff \<and>
     rb_list 8 (in_list (battery_filter b)) = replicate 3 (volts v) \<and> rb_list 8 (out_list (battery_filter b)) = replicate 3 (volts v)"

text \<open>The car after \<open>InitializeSystem\<close>, up to the parts the calls compute.\<close>

lemma main_init_ok:
  assumes "power_on c" "adc e = Some v"
  shows "\<exists>c'. main_init e c = Some c' \<and> frame_ok c' \<and> drive_excl c' \<and> oa_inv c' \<and> battery_set v (bat c') \<and>
    controller_set KP_L num_left den_left (ctr_LeftMotor c') \<and> controller_set KP_R num_right den_right (ctr_RightMotor c') \<and>
    \<not> Is_Motor_PWM_Enabled (mot c') \<and> bit (SREG (regs c')) 7 \<and> first_time c' \<and> proxy_first c' \<and>
    OA_state c' = INIT \<and> alpha c' = 0 \<and> read_state c' = READ_L \<and>
    (\<forall>k. active (flag c' k) = (k = mf_battery_task)) \<and> count_ms (tim c') = 0 \<and> OCR4A (srv c') = 10 \<and>
    duration (flag c' mf_battery_task) = f_of_int 2 \<and> USB_SetupHardware (ser c) = Some (ser c')"
proof -
  obtain b where b: "Battery_Monitor_Init (Some v) (bat c) = Some b" "battery_set v b"
    using Battery_Monitor_Init_ok [of "bat c" v] assms(1) by (auto simp: power_on_def filter_rbs_def battery_set_def)
  obtain l where l: "Controller_Init (ctr_LeftMotor c) KP_L num_left den_left 1 (f_of_int 10) = Some l" "controller_set KP_L num_left den_left l"
    using Controller_Init_ok [of "ctr_LeftMotor c" num_left den_left KP_L "f_of_int 10"] assms(1)
    by (auto simp: power_on_def controller_set_def)
  obtain r where r: "Controller_Init (ctr_RightMotor c) KP_R num_right den_right 1 (f_of_int 10) = Some r" "controller_set KP_R num_right den_right r"
    using Controller_Init_ok [of "ctr_RightMotor c" num_right den_right KP_R "f_of_int 10"] assms(1)
    by (auto simp: power_on_def controller_set_def)
  obtain u where u: "USB_SetupHardware (ser c) = Some u" "usb_wf u"
    using USB_SetupHardware_ok [of "ser c"] assms(1) by (auto simp: power_on_def)
  let ?m = "Motor_PWM_Init 0x190 (mot c) (LED_Init (snd (SetupTimer0 (tim c) (regs c))))"
  have m: "motor_ok (fst ?m)" "\<not> Is_Motor_PWM_Enabled (fst ?m)"
    using Motor_PWM_Init_ok(1) assms(1) by (auto simp: motor_ok_def Motor_PWM_Init_def Let_def power_on_def)
  have s: "OCR4A (fst (Servo_PWM_Init OPEN (srv c) (snd ?m))) = 10" by (simp add: Servo_PWM_Init_ok(1))
  have f: "\<not> active (flag c k)" for k using assms(1) by (simp add: power_on_def)
  show ?thesis using b l r u m s f assms(2)
    by (simp add: main_init_def InitializeSystem_def case_prod_beta Let_def frame_ok_def drive_excl_def oa_inv_def
        Message_Handling_Init_def MSG_FLAG_Init_def set_flag_def set_active_def set_duration_def
        Init_Obstacle_Avoidance_def SetupTimer0_def)
qed

section \<open>Stopping\<close>

text \<open>The motors stand: both compare values at the top, the outputs disconnected.\<close>

definition motors_stand :: "motor \<Rightarrow> bool" where
  "motors_stand m \<longleftrightarrow> OCR1A m = ICR1 m \<and> OCR1B m = ICR1 m \<and> TCCR1A m AND 0xF0 = 0"

lemma Motor_zero:
  assumes "uint (ICR1 (mot c)) \<le> 32767"
  shows "Motor_Left 0 c = Some (c\<lparr>mot := (mot c)\<lparr>OCR1B := ICR1 (mot c)\<rparr>, regs := sei ((regs c)\<lparr>PORTB := PORTB (regs c) AND 0xFB\<rparr>)\<rparr>)"
    "Motor_Right 0 c = Some (c\<lparr>mot := (mot c)\<lparr>OCR1A := ICR1 (mot c)\<rparr>, regs := sei ((regs c)\<lparr>PORTB := PORTB (regs c) AND 0xFD\<rparr>)\<rparr>)"
  using duty_compare_0 [OF assms]
  by (simp_all add: Motor_Left_def Motor_Right_def Motor_PWM_Left_unfold Motor_PWM_Right_unfold duty_mag_def)

lemma regs_mot_commute: "c\<lparr>regs := r, mot := m\<rparr> = c\<lparr>mot := m, regs := r\<rparr>"
  by (cases c) simp

lemma motors_off_ok:
  assumes "uint (ICR1 (mot c)) \<le> 32767"
  shows "\<exists>m r. motors_off c = Some (c\<lparr>mot := m, regs := r\<rparr>) \<and> motors_stand m \<and> ICR1 m = ICR1 (mot c) \<and> \<not> Is_Motor_PWM_Enabled m"
proof -
  let ?a = "c\<lparr>mot := (mot c)\<lparr>OCR1B := ICR1 (mot c)\<rparr>, regs := sei ((regs c)\<lparr>PORTB := PORTB (regs c) AND 0xFB\<rparr>)\<rparr>"
  have "uint (ICR1 (mot ?a)) \<le> 32767" using assms by simp
  note r = Motor_zero(2) [OF this]
  let ?m = "Motor_PWM_Enable False ((mot c)\<lparr>OCR1B := ICR1 (mot c), OCR1A := ICR1 (mot c)\<rparr>)"
  have "\<exists>r. motors_off c = Some (c\<lparr>mot := ?m, regs := r\<rparr>)"
    by (auto simp: motors_off_def Motor_zero(1) [OF assms] r Motor_Enable_def regs_mot_commute)
  moreover have "motors_stand ?m" "ICR1 ?m = ICR1 (mot c)" "\<not> Is_Motor_PWM_Enabled ?m"
    by (simp_all add: motors_stand_def Motor_PWM_Enable_ok)
  ultimately show ?thesis by blast
qed

lemma stop_command:
  assumes "car_ok c" "in_bytes (ser c) = chr CHR ''s'' # bs" "Message_Handling_Task c = Some c'"
  shows "motors_stand (mot c') \<and> velocities c' = (0, 0) \<and> target_pos (ctr_LeftMotor c') = 0 \<and> target_pos (ctr_RightMotor c') = 0 \<and>
    \<not> led_on RED (regs c') \<and> in_bytes (ser c') = bs \<and>
    (\<forall>k \<in> {mf_obj_avoidance, mf_motor_dist_control, mf_motor_vel_control, mf_motor_stop, mf_timed_pwm}. \<not> active (flag c' k))"
proof -
  have h: "case_s c = Some c'" using task_handlers [OF assms(1,2)] assms(3) by (simp add: handlers_def)
  have cp: "complete CHR ''s'' c" using complete_if [OF assms(1), of "CHR ''s''" "[]" bs] assms(2) by simp
  obtain u where u: "take_byte c = (chr CHR ''s'', c\<lparr>ser := u\<rparr>)" using take_one [OF assms(1,2)] by blast
  define d where "d = Motor_Enable False (Reset_Drive_Flags (c\<lparr>ser := u\<rparr>))"
  have d: "uint (ICR1 (mot d)) \<le> 32767" "TCCR1A (mot d) AND 0xF0 = 0" "\<not> bit (PORTD (regs d)) 5"
    "\<And>k. active (flag d k) = active (flag (Reset_Drive_Flags c) k)"
    using assms(1)
    by (simp_all add: d_def car_ok_def Motor_Enable_def Motor_PWM_Enable_ok Reset_Drive_Flags_def LED_def set_active_def
        set_flag_def Let_def bit_simps)
  let ?r = "sei ((regs d)\<lparr>PORTB := PORTB (regs d) AND 0xFB\<rparr>)"
  let ?a = "d\<lparr>mot := (mot d)\<lparr>OCR1B := ICR1 (mot d)\<rparr>, regs := ?r\<rparr>"
  have top: "uint (ICR1 (mot ?a)) \<le> 32767" using d(1) by simp
  have c': "c' = Set_Target_Velocity 0 0 (Set_Target_Position 0 0
      (?a\<lparr>mot := (mot ?a)\<lparr>OCR1A := ICR1 (mot ?a)\<rparr>, regs := sei (?r\<lparr>PORTB := PORTB ?r AND 0xFD\<rparr>)\<rparr>))"
    using h cp u unfolding case_s_shape by (simp add: d_def [symmetric] Motor_zero(1) [OF d(1)] Motor_zero(2) [OF top])
  have m: "motors_stand (mot c')" "\<not> led_on RED (regs c')" "velocities c' = (0, 0)" "target_pos (ctr_LeftMotor c') = 0"
    "target_pos (ctr_RightMotor c') = 0" "\<And>k. active (flag c' k) = active (flag (Reset_Drive_Flags c) k)"
    unfolding c' using d
    by (simp_all add: Set_Target_Velocity_def Set_Target_Position_def motors_stand_def led_on_def sei_def velocities_def)
  have "in_bytes (ser c') = bs" using Message_Handling_Task_post [OF assms(1,3)] assms(2) by (simp add: task_post_def)
  then show ?thesis using m by (simp add: Reset_flags)
qed

lemma motor_stop_block:
  assumes "frame_ok c" "MSG_FLAG_Execute mf_motor_stop c"
  shows "\<exists>c'. block_motor_stop e c = Some c' \<and> motors_stand (mot c') \<and> \<not> Is_Motor_PWM_Enabled (mot c') \<and> velocities c' = (0, 0) \<and>
    target_pos (ctr_LeftMotor c') = 0 \<and> target_pos (ctr_RightMotor c') = 0 \<and>
    \<not> active (flag c' mf_motor_stop) \<and> \<not> active (flag c' mf_motor_dist_control) \<and> \<not> active (flag c' mf_motor_vel_control) \<and>
    \<not> active (flag c' mf_timed_pwm) \<and> active (flag c' mf_obj_avoidance) = active (flag c mf_obj_avoidance) \<and> first_time c' = first_time c"
proof -
  obtain m r where m: "motors_off c = Some (c\<lparr>mot := m, regs := r\<rparr>)" "motors_stand m" "\<not> Is_Motor_PWM_Enabled m"
    using motors_off_ok [of c] assms(1) by (auto simp: frame_ok_def motor_ok_def)
  then show ?thesis using assms(2)
    by (simp add: block_motor_stop_def Let_def velocities_def Set_Target_Velocity_def Set_Target_Position_def
        set_active_def set_flag_def)
qed

lemma timed_pwm_block:
  assumes "frame_ok c" "MSG_FLAG_Execute mf_timed_pwm c"
  shows "\<exists>c'. block_timed_pwm e c = Some c' \<and> motors_stand (mot c') \<and> \<not> Is_Motor_PWM_Enabled (mot c') \<and> \<not> active (flag c' mf_timed_pwm)"
proof -
  obtain m r where "motors_off c = Some (c\<lparr>mot := m, regs := r\<rparr>)" "motors_stand m" "\<not> Is_Motor_PWM_Enabled m"
    using motors_off_ok [of c] assms(1) by (auto simp: frame_ok_def motor_ok_def)
  then show ?thesis using assms(2) by (simp add: block_timed_pwm_def set_active_def set_flag_def)
qed

section \<open>Distance control\<close>

lemma read_ticks_frame [simp]:
  "mot (read_ticks c) = mot c" "target_pos (ctr_LeftMotor (read_ticks c)) = target_pos (ctr_LeftMotor c)"
  "target_pos (ctr_RightMotor (read_ticks c)) = target_pos (ctr_RightMotor c)"
  "ticksL_new (read_ticks c) = f_of_int (sint (left_counts (enc c)))" "ticksR_new (read_ticks c) = f_of_int (sint (right_counts (enc c)))"
  "ticksL_old (read_ticks c) = ticksL_old c" "ticksR_old (read_ticks c) = ticksR_old c"
  by (simp_all add: read_ticks_def Let_def)

lemma dist_done_ok:
  assumes "motor_ok (mot c)"
  shows "\<exists>c'. dist_done c = Some c' \<and> motors_stand (mot c') \<and> \<not> Is_Motor_PWM_Enabled (mot c') \<and> velocities c' = (0, 0) \<and>
    target_pos (ctr_LeftMotor c') = 0 \<and> target_pos (ctr_RightMotor c') = 0 \<and> \<not> active (flag c' mf_motor_dist_control) \<and> first_time c'"
proof -
  obtain m r where "motors_off c = Some (c\<lparr>mot := m, regs := r\<rparr>)" "motors_stand m" "\<not> Is_Motor_PWM_Enabled m"
    using motors_off_ok [of c] assms by (auto simp: motor_ok_def)
  then show ?thesis
    by (simp add: dist_done_def Let_def velocities_def Set_Target_Velocity_def Set_Target_Position_def set_active_def set_flag_def)
qed

lemma distance_reached:
  assumes "frame_ok c" "MSG_FLAG_Execute mf_motor_dist_control c" "\<not> first_time c"
    "measure_tracks (read_ticks c) = Some (ml, mr)"
    "reached (target_pos (ctr_LeftMotor c)) ml \<or> reached (target_pos (ctr_RightMotor c)) mr"
  shows "\<exists>c'. block_dist_control e c = Some c' \<and> motors_stand (mot c') \<and> \<not> Is_Motor_PWM_Enabled (mot c') \<and> velocities c' = (0, 0) \<and>
    target_pos (ctr_LeftMotor c') = 0 \<and> target_pos (ctr_RightMotor c') = 0 \<and> \<not> active (flag c' mf_motor_dist_control) \<and> first_time c'"
  using dist_done_ok [of "read_ticks c"] assms by (auto simp: block_dist_control_def Let_def frame_ok_def)

text \<open>
  While neither track has arrived the motors run, and the target distances shrink by the measured
  ones; the direction pins follow the signs of the remaining distances for nonnegative duty cycles.
\<close>

lemma signed_duty_defined:
  assumes "0 \<le> sint p"
  shows "\<exists>q. signed_duty t p = Some q \<and> sint q = (if f_lt 0 t then sint p else - sint p)"
proof (cases "f_lt 0 t")
  case False
  have c: "checked_s16 (- sint p) = Some (word_of_int (- sint p))"
    unfolding checked_s16_def by (rule if_P) (use assms sint16_bounds(2) [of p] in linarith)
  then show ?thesis using False sint_checked [OF c] by (simp add: signed_duty_def)
qed (simp add: signed_duty_def)

lemma drive_motors_ok:
  assumes "motor_ok (mot c)" "sint l \<noteq> - 32768" "sint r \<noteq> - 32768"
  shows "\<exists>c'. drive_motors l r c = Some c' \<and> Is_Motor_PWM_Enabled (mot c') \<and> motor_ok (mot c') \<and>
    bit (PORTB (regs c')) 2 = (sint l < 0) \<and> bit (PORTB (regs c')) 1 = (sint r < 0)"
proof -
  obtain m x where m: "Motor_PWM_Left l (mot c) (regs c) = Some (m, x)" "bit (PORTB x) 2 = (sint l < 0)"
    using Motor_PWM_Left_ok [of "mot c" l "regs c"] assms by (auto simp: motor_ok_def)
  have ml: "Motor_Left l c = Some (c\<lparr>mot := m, regs := x\<rparr>)" using m by (simp add: Motor_Left_def)
  then have mok: "motor_ok m" using Motor_Left_motor_ok [OF ml assms(1)] by simp
  obtain n y where n: "Motor_PWM_Right r m x = Some (n, y)" "bit (PORTB y) 1 = (sint r < 0)"
    using Motor_PWM_Right_ok [of m r x] assms(3) mok by (auto simp: motor_ok_def)
  have y: "bit (PORTB y) 2 = bit (PORTB x) 2"
    using n(1) by (auto simp: Motor_PWM_Right_unfold sei_def bit_simps split: if_splits)
  have mr: "Motor_Right r (c\<lparr>mot := m, regs := x\<rparr>) = Some (c\<lparr>mot := n, regs := y\<rparr>)" using n by (simp add: Motor_Right_def)
  then have "motor_ok n" using Motor_Right_motor_ok [OF mr] mok by simp
  moreover have "drive_motors l r c = Some (Motor_Enable True (c\<lparr>mot := n, regs := y\<rparr>))" using ml mr by (simp add: drive_motors_def)
  ultimately show ?thesis using m n y by (simp add: Motor_Enable_def motor_ok_def Motor_PWM_Enable_ok)
qed

lemma distance_continues:
  assumes "frame_ok c" "MSG_FLAG_Execute mf_motor_dist_control c" "\<not> first_time c"
    "measure_tracks (read_ticks c) = Some (ml, mr)"
    "\<not> reached (target_pos (ctr_LeftMotor c)) ml" "\<not> reached (target_pos (ctr_RightMotor c)) mr"
    "Velocity_to_DutyCycle_Left (target_vel (ctr_LeftMotor c)) = Some pl" "0 < sint pl"
    "Velocity_to_DutyCycle_Right (target_vel (ctr_RightMotor c)) = Some pr" "0 < sint pr"
  shows "\<exists>c'. block_dist_control e c = Some c' \<and> Is_Motor_PWM_Enabled (mot c') \<and>
    target_pos (ctr_LeftMotor c') = f_sub (target_pos (ctr_LeftMotor c)) ml \<and>
    target_pos (ctr_RightMotor c') = f_sub (target_pos (ctr_RightMotor c)) mr \<and>
    bit (PORTB (regs c')) 2 = (\<not> f_lt 0 (target_pos (ctr_LeftMotor c'))) \<and>
    bit (PORTB (regs c')) 1 = (\<not> f_lt 0 (target_pos (ctr_RightMotor c')))"
proof -
  let ?tl = "f_sub (target_pos (ctr_LeftMotor c)) ml" and ?tr = "f_sub (target_pos (ctr_RightMotor c)) mr"
  define d where "d = Set_Target_Position ?tl ?tr ((read_ticks c)\<lparr>time_new := GetTimeSec (tim (read_ticks c))\<rparr>)"
  have d: "mot d = mot c" "target_pos (ctr_LeftMotor d) = ?tl" "target_pos (ctr_RightMotor d) = ?tr"
    "target_vel (ctr_LeftMotor d) = target_vel (ctr_LeftMotor c)" "target_vel (ctr_RightMotor d) = target_vel (ctr_RightMotor c)"
    by (simp_all add: d_def Set_Target_Position_def read_ticks_def Let_def)
  obtain ql qr where q: "signed_duty ?tl pl = Some ql" "sint ql = (if f_lt 0 ?tl then sint pl else - sint pl)"
    "signed_duty ?tr pr = Some qr" "sint qr = (if f_lt 0 ?tr then sint pr else - sint pr)"
    using signed_duty_defined [of pl ?tl] signed_duty_defined [of pr ?tr] assms(8,10) by auto
  have "sint ql \<noteq> - 32768" "sint qr \<noteq> - 32768" using q assms(8,10) sint16_bounds [of pl] sint16_bounds [of pr] by auto
  then obtain x where x: "drive_motors ql qr d = Some x" "Is_Motor_PWM_Enabled (mot x)"
    "bit (PORTB (regs x)) 2 = (sint ql < 0)" "bit (PORTB (regs x)) 1 = (sint qr < 0)"
    using drive_motors_ok [of d ql qr] assms(1) d(1) by (auto simp: frame_ok_def)
  have ctr: "ctr_LeftMotor x = ctr_LeftMotor d" "ctr_RightMotor x = ctr_RightMotor d"
    using x(1) by (auto simp: drive_motors_def Motor_Left_def Motor_Right_def Motor_Enable_def bind_eq_Some_iff)
  have "target_duty d = Some (pl, pr, d)" using assms(7,9) d by (simp add: target_duty_def)
  then have "dist_continue ml mr (read_ticks c) = Some (next_pass mf_motor_dist_control x)"
    using q(1,3) x(1) d(2,3) by (simp add: dist_continue_def Let_def CNTRL_SYS_def DEBUG_def d_def [symmetric])
  then have b: "block_dist_control e c = Some (next_pass mf_motor_dist_control x)"
    using assms(2-6) by (simp add: block_dist_control_def Let_def)
  have n: "mot (next_pass k x) = mot x" "regs (next_pass k x) = regs x" "ctr_LeftMotor (next_pass k x) = ctr_LeftMotor x"
    "ctr_RightMotor (next_pass k x) = ctr_RightMotor x" for k
    by (simp_all add: next_pass_def Let_def set_trigger_def set_flag_def)
  show ?thesis using b x n ctr d q assms(8,10) by auto
qed

section \<open>A cycle of the obstacle avoidance\<close>

lemma IRRead_c_counts:
  "m_nLEDProxyCountLeft (prx (IRRead_c LEFT e c)) = hits (ir e)" "m_nLEDProxyCountRight (prx (IRRead_c LEFT e c)) = m_nLEDProxyCountRight (prx c)"
  "m_nLEDProxyCountRight (prx (IRRead_c RIGHT e c)) = hits (ir e)" "m_nLEDProxyCountLeft (prx (IRRead_c RIGHT e c)) = m_nLEDProxyCountLeft (prx c)"
  using IRRead_counts by (simp_all add: IRRead_c_def case_prod_beta)

lemma IRRead_c_oa: "oa_inv (IRRead_c side e c) = oa_inv c" "OA_state (IRRead_c side e c) = OA_state c" "alpha (IRRead_c side e c) = alpha c"
  by (simp_all add: IRRead_c_def oa_inv_def velocities_def case_prod_beta)

text \<open>The decision is taken on the left count of the first pass and the right count of the second.\<close>

definition reading_of :: "uint16 \<Rightarrow> uint16 \<Rightarrow> t_ProximityReturn" where
  "reading_of l r = \<lparr>m_nCount = max l r, m_eSide = (if r \<le> l then LEFT else RIGHT)\<rparr>"

lemma IR_Counts_reading: "IR_Counts x = reading_of (m_nLEDProxyCountLeft x) (m_nLEDProxyCountRight x)"
  by (auto simp: IR_Counts_def reading_of_def max_def)

lemma oa_inv_read_state [simp]: "oa_inv (c\<lparr>read_state := z\<rparr>) = oa_inv c"
  by (simp add: oa_inv_def velocities_def)

lemma oa_cycle:
  assumes "oa_inv c" "read_state c = READ_L"
    "Run_OA_Task e1 c = (a1, c1)" "Run_OA_Task e2 c1 = (a2, c2)" "Run_OA_Task e3 c2 = (a3, c3)"
  shows "a1 \<and> a2 \<and> \<not> a3 \<and> read_state c3 = READ_L \<and> oa_inv c3 \<and>
    (OA_state c3, unat (alpha c3)) = oa_next (OA_state c) (unat (alpha c)) (reading_of (hits (ir e1)) (hits (ir e2)))"
proof -
  have c1: "a1" "c1 = (IRRead_c LEFT e1 c)\<lparr>read_state := READ_R\<rparr>" using assms(2,3) by (simp_all add: Run_OA_Task_def)
  have c2: "a2" "c2 = (IRRead_c RIGHT e2 c1)\<lparr>read_state := RUN_DSM\<rparr>" using assms(4) c1 by (simp_all add: Run_OA_Task_def)
  have i2: "oa_inv c2" "OA_state c2 = OA_state c" "alpha c2 = alpha c" using assms(1) by (simp_all add: c2 c1 IRRead_c_oa)
  have r: "IR_Counts (prx c2) = reading_of (hits (ir e1)) (hits (ir e2))"
    by (simp add: IR_Counts_reading c2(2) c1(2) IRRead_c_counts)
  have c3: "\<not> a3" "c3 = (Run_State_Machine (IR_Counts (prx c2)) c2)\<lparr>read_state := READ_L\<rparr>"
    using assms(5) c2 by (simp_all add: Run_OA_Task_def)
  show ?thesis using Run_State_Machine_refines [OF i2(1), of "IR_Counts (prx c2)"] c1(1) c2(1) c3 i2 r by simp
qed

section \<open>A drive that starts on stale counts\<close>

text \<open>
  Only the end of a distance drive sets \<open>first_time\<close>. After any other stop the next distance drive
  measures from the counts of the previous one, although the encoders were zeroed.
\<close>

lemma stop_keeps:
  "case_s c = Some c' \<Longrightarrow> first_time c' = first_time c \<and> ticksL_old c' = ticksL_old c \<and> ticksR_old c' = ticksR_old c \<and> bat c' = bat c \<and>
    tim c' = tim c \<and> update_period (ctr_LeftMotor c') = update_period (ctr_LeftMotor c) \<and> last_trigger_time (flag c' k) = last_trigger_time (flag c k)"
  by (auto simp: case_s_def Motor_Left_def Motor_Right_def Motor_Enable_def take_byte_def Set_Target_Velocity_def Set_Target_Position_def
      set_active_def set_flag_def Reset_Drive_Flags_def LED_def Let_def bind_eq_Some_iff split: if_splits prod.splits)

definition distance_plan :: "float32 \<Rightarrow> float32 \<Rightarrow> plan" where
  "distance_plan x a = (if is_straight a then plan_straight x else plan_turn x a)"

lemma drive_distance_start:
  "first_time (drive_distance ch x a c) = first_time c" "ticksL_old (drive_distance ch x a c) = ticksL_old c"
  "ticksR_old (drive_distance ch x a c) = ticksR_old c"
  "left_counts (enc (drive_distance ch x a c)) = 0" "right_counts (enc (drive_distance ch x a c)) = 0"
  "target_pos (ctr_LeftMotor (drive_distance ch x a c)) = distance_left (distance_plan x a)"
  "target_pos (ctr_RightMotor (drive_distance ch x a c)) = distance_right (distance_plan x a)"
  "tim (drive_distance ch x a c) = tim c" "active (flag (drive_distance ch x a c) mf_motor_dist_control)"
  "last_trigger_time (flag (drive_distance ch x a c) k) = last_trigger_time (flag c k)"
  "duration (flag (drive_distance ch x a c) mf_motor_dist_control) = update_period (ctr_LeftMotor c)"
  by (simp_all add: drive_distance_def apply_plan_def Zero_Encoders_c_def Zero_Encoders_def send_go_straight_def send_turn_def send_msg_def
      Set_Target_Velocity_def Set_Target_Position_def set_active_def set_duration_def set_flag_def Reset_Drive_Flags_def LED_def
      distance_plan_def Let_def split: prod.splits)

lemma distance_command:
  assumes "car_ok c" "in_bytes (ser c) = chr CHR ''d'' # le32 x @ le32 a @ bs" "battery_good (Battery_Voltage (bat c))"
  shows "\<exists>u. Message_Handling_Task c = Some (drive_distance CHR ''d'' x a (c\<lparr>ser := u\<rparr>))"
proof -
  obtain u d where u: "read_struct 8 (snd (take_byte c)) = Some (d, c\<lparr>ser := u\<rparr>)" "float_at 0 d = x" "float_at 4 d = a"
    using two_floats [OF assms(1,2)] by blast
  have "complete CHR ''d'' c" using complete_if [OF assms(1), of "CHR ''d''" "le32 x @ le32 a"] assms(2) by simp
  then show ?thesis using task_handlers [OF assms(1,2)] u assms(3)
    by (intro exI [of _ u]) (simp add: handlers_def case_d_def Let_def case_prod_beta)
qed

text \<open>The stop command, then the distance command.\<close>

lemma stop_then_distance:
  assumes "frame_ok c" "in_bytes (ser c) = chr CHR ''s'' # chr CHR ''d'' # le32 x @ le32 a @ bs"
    "battery_good (Battery_Voltage (bat c))" "Message_Handling_Task c = Some c1" "Message_Handling_Task c1 = Some c2"
  shows "case_s c = Some c1 \<and> frame_ok c2 \<and> (\<exists>u. c2 = drive_distance CHR ''d'' x a (c1\<lparr>ser := u\<rparr>))"
proof -
  have ok: "car_ok c" using assms(1) by (simp add: frame_ok_def car_ok_def motor_ok_def)
  have f: "frame_ok c1" "frame_ok c2"
    using blocks_frame_ok [of c block_message] blocks_frame_ok [of c1 block_message] assms(1,4,5) by (auto simp: block_message_def main_blocks_def)
  have s: "case_s c = Some c1" using task_handlers [OF ok assms(2)] assms(4) by (simp add: handlers_def)
  then have "battery_good (Battery_Voltage (bat c1))" using stop_keeps assms(3) by metis
  moreover have "in_bytes (ser c1) = chr CHR ''d'' # le32 x @ le32 a @ bs" using stop_command [OF ok assms(2,4)] by blast
  moreover have "car_ok c1" using f(1) by (simp add: frame_ok_def car_ok_def motor_ok_def)
  ultimately show ?thesis using distance_command [of c1 x a bs] assms(5) s f(2) by auto
qed

text \<open>The flag of the distance control is due when its last trigger, in the drive before, is an update period ago.\<close>

lemma next_drive_due:
  assumes "case_s c = Some c1" "c2 = drive_distance CHR ''d'' x a (c1\<lparr>ser := u\<rparr>)"
  shows "MSG_FLAG_Execute mf_motor_dist_control c2 \<longleftrightarrow>
    f_le (update_period (ctr_LeftMotor c)) (f_of_int (uint (count_ms (tim c) - millisec (last_trigger_time (flag c mf_motor_dist_control)))))"
  using stop_keeps [OF assms(1), of mf_motor_dist_control] by (simp add: MSG_FLAG_Execute_iff assms(2) drive_distance_start)

lemma stale_start:
  assumes "frame_ok c" "\<not> first_time c" "in_bytes (ser c) = chr CHR ''s'' # chr CHR ''d'' # le32 x @ le32 a @ bs"
    "battery_good (Battery_Voltage (bat c))" "Message_Handling_Task c = Some c1" "Message_Handling_Task c1 = Some c2"
    "c3 = c2\<lparr>tim := (TIMER0_COMPB_vect ^^ n) (tim c2)\<rparr>" "MSG_FLAG_Execute mf_motor_dist_control c3"
    "f_to_s16 (f_sub (f_of_int 0) (ticksL_old c)) = Some l" "f_to_s16 (f_sub (f_of_int 0) (ticksR_old c)) = Some r"
    "reached (distance_left (distance_plan x a)) (ECount_to_Distance l) \<or> reached (distance_right (distance_plan x a)) (ECount_to_Distance r)"
  shows "left_counts (enc c3) = 0 \<and> right_counts (enc c3) = 0 \<and>
    (\<exists>c'. block_dist_control e c3 = Some c' \<and> motors_stand (mot c') \<and> \<not> active (flag c' mf_motor_dist_control))"
proof -
  obtain u where c2: "case_s c = Some c1" "frame_ok c2" "c2 = drive_distance CHR ''d'' x a (c1\<lparr>ser := u\<rparr>)"
    using stop_then_distance [OF assms(1,3-6)] by blast
  have s: "\<not> first_time c1" "ticksL_old c1 = ticksL_old c" "ticksR_old c1 = ticksR_old c" using stop_keeps [OF c2(1)] assms(2) by blast+
  have c3: "frame_ok c3" "\<not> first_time c3" "left_counts (enc c3) = 0" "right_counts (enc c3) = 0"
    "target_pos (ctr_LeftMotor c3) = distance_left (distance_plan x a)" "target_pos (ctr_RightMotor c3) = distance_right (distance_plan x a)"
    "ticksL_old c3 = ticksL_old c" "ticksR_old c3 = ticksR_old c"
    using c2(2) s by (simp_all add: assms(7) c2(3) drive_distance_start frame_ok_def)
  then have "measure_tracks (read_ticks c3) = Some (ECount_to_Distance l, ECount_to_Distance r)"
    using assms(9,10) by (simp add: measure_tracks_def)
  then show ?thesis using distance_reached [OF c3(1) assms(8) c3(2), of _ _ e] assms(11) c3(3-6) by auto
qed

lemma stale_numbers:
  "f_to_s16 (f_sub (f_of_int 0) (f_of_int 5000)) = Some 0xEC78"
  "reached (f_lit (-1) 10) (ECount_to_Distance 0xEC78)" "is_straight 0"
  by code_simp+

end
