(* ===== verification/Exchange.thy ===== *)
theory Exchange
  imports Link_Session System_Behaviour
begin

text \<open>
  The components together: a command that the host sends travels through the receiving endpoint, the receive buffer,
  the message task, the send buffer and the transmitting endpoint back to the host, one byte in each pass of the main
  loop. The clock runs: any number of timer interrupts falls before each block, and the battery is measured whenever its
  task is due. Shown for the four arithmetic commands, whose reply does not depend on the sensors, from power-on,
  for a battery that is never reported low.
\<close>

section \<open>Passes with a running clock\<close>

text \<open>\<open>n\<close> timer interrupts.\<close>

definition tick :: "nat \<Rightarrow> car \<Rightarrow> car" where
  "tick n c = c\<lparr>tim := (TIMER0_COMPB_vect ^^ n) (tim c)\<rparr>"

lemma tick_frame [simp]: "ser (tick n c) = ser c" "flag (tick n c) = flag c" "bat (tick n c) = bat c"
  "tick n (c\<lparr>ser := u\<rparr>) = (tick n c)\<lparr>ser := u\<rparr>"
  by (simp_all add: tick_def)

text \<open>Blocks of the loop, each after a number of timer interrupts.\<close>

definition timed_blocks :: "env \<Rightarrow> (nat \<times> (env \<Rightarrow> car \<Rightarrow> car option)) list \<Rightarrow> car \<Rightarrow> car option" where
  "timed_blocks e = fold_opt (\<lambda>(n, b) c. b e (tick n c))"

text \<open>
  A pass of the loop, before which the host polls the transmitting endpoint: its environment, and for each block the
  number of timer interrupts before it.
\<close>

definition polled_pass :: "env \<times> (nat \<Rightarrow> nat) \<Rightarrow> car \<Rightarrow> car option" where
  "polled_pass p c = do {
     u \<leftarrow> bus_step (IN_token 1) (ser c);
     timed_blocks (fst p) (zip (map (snd p) [0..<length main_blocks]) main_blocks) (c\<lparr>ser := u\<rparr>) }"

section \<open>Calm cars\<close>

text \<open>The voltages that the battery task reports, and a battery that is never reported, whatever of the readings \<open>A\<close> come.\<close>

definition low_voltage :: "float32 \<Rightarrow> bool" where
  "low_voltage y \<longleftrightarrow> f_lt y (f_lit 475 100) \<and> f_lt (f_lit 3 1) y"

coinductive never_low :: "uint16 set \<Rightarrow> battery \<Rightarrow> bool" for A where
  measured: "\<forall>v\<in>A. \<exists>y b'. Battery_Voltage_Task (Some v) b = Some (y, b') \<and> \<not> low_voltage y \<and> never_low A b' \<Longrightarrow> never_low A b"

inductive_simps never_low_measured: "never_low A b"

text \<open>Only the battery task is active, and it finds nothing to report.\<close>

definition calm :: "uint16 set \<Rightarrow> car \<Rightarrow> bool" where
  "calm A c \<longleftrightarrow> (\<forall>k. active (flag c k) \<longrightarrow> k = mf_battery_task) \<and> never_low A (bat c)"

lemma calm_frame [simp]: "calm A (c\<lparr>ser := u\<rparr>) = calm A c" "calm A (tick n c) = calm A c"
  by (simp_all add: calm_def)

lemma calm_battery:
  assumes "calm A c" "v \<in> A" "adc e = Some v"
  shows "\<exists>c'. block_battery_task e c = Some c' \<and> calm A c' \<and> ser c' = ser c"
proof (cases "MSG_FLAG_Execute mf_battery_task c")
  case True
  obtain y b where y: "Battery_Voltage_Task (Some v) (bat c) = Some (y, b)" "\<not> low_voltage y" "never_low A b"
    using assms(1,2) never_low_measured [of A "bat c"] by (auto simp: calm_def)
  let ?c = "set_trigger mf_battery_task (GetTime_c c) (set_active mf_low_battery False (c\<lparr>bat := b, bat_val := y\<rparr>))"
  have "block_battery_task e c = Some ?c"
    using True y(1,2) assms(3) by (auto simp: block_battery_task_def low_voltage_def GetTime_c_def set_active_def set_flag_def)
  moreover have "calm A ?c" "ser ?c = ser c"
    using assms(1) y(3) by (auto simp: calm_def set_active_def set_trigger_def set_flag_def)
  ultimately show ?thesis by blast
qed (use assms(1) in \<open>simp add: block_battery_task_def\<close>)

lemma calm_inactive: "calm A c \<Longrightarrow> k \<noteq> mf_battery_task \<Longrightarrow> \<not> MSG_FLAG_Execute k c"
  by (auto simp: calm_def MSG_FLAG_Execute_iff)

lemma calm_block:
  assumes "b \<in> set (drop 2 main_blocks)" "calm A c" "v \<in> A" "adc e = Some v"
  shows "\<exists>c'. b e c = Some c' \<and> calm A c' \<and> ser c' = ser c"
proof (cases "b = block_battery_task")
  case True
  then show ?thesis using calm_battery [OF assms(2-4)] by simp
next
  case False
  then have "b e c = Some c" using assms(1) calm_inactive [OF assms(2)]
    by (auto simp: main_blocks_def block_restart_def block_send_time_def block_time_float_def block_loop_timer_def
        block_encoder_def block_send_battery_def block_low_battery_def block_timed_pwm_def block_sys_data_def block_dist_control_def
        block_vel_control_def block_motor_stop_def block_proximity_def block_obj_avoidance_def)
  then show ?thesis using assms(2) by simp
qed

lemma calm_blocks:
  assumes "snd ` set nbs \<subseteq> set (drop 2 main_blocks)" "calm A c" "v \<in> A" "adc e = Some v"
  shows "\<exists>c'. timed_blocks e nbs c = Some c' \<and> calm A c' \<and> ser c' = ser c"
  using assms(1,2)
proof (induction nbs arbitrary: c)
  case (Cons nb nbs)
  obtain n b where nb: "nb = (n, b)" by (cases nb)
  have b: "b \<in> set (drop 2 main_blocks)" "snd ` set nbs \<subseteq> set (drop 2 main_blocks)"
    using Cons.prems(1) unfolding nb by simp_all
  obtain d where d: "b e (tick n c) = Some d" "calm A d" "ser d = ser c"
    using calm_block [OF b(1), of A "tick n c" v e] Cons.prems(2) assms(3,4) by auto
  then have "timed_blocks e (nb # nbs) c = timed_blocks e nbs d" by (simp add: timed_blocks_def nb)
  then show ?case using Cons.IH [OF b(2) d(2)] d(3) by simp
qed (simp add: timed_blocks_def)

text \<open>A pass: the link moves a byte each way, the message task runs, the other blocks leave the link alone.\<close>

definition samples :: "uint16 set \<Rightarrow> env \<times> (nat \<Rightarrow> nat) \<Rightarrow> bool" where
  "samples A p \<longleftrightarrow> (\<exists>v\<in>A. adc (fst p) = Some v)"

lemma polled_pass_task:
  assumes "calm A c" "samples A p" "link_at i d out s (ser c)" "length i < 63" "received i d = (i', d')"
    "\<And>u. link_at i' d' (tl out) (s @ take 1 out) u \<Longrightarrow> \<exists>v. Message_Handling_Task (tick (snd p 1) (tick (snd p 0) c)\<lparr>ser := u\<rparr>) =
      Some (tick (snd p 1) (tick (snd p 0) c)\<lparr>ser := v\<rparr>) \<and> P v"
  shows "\<exists>c'. polled_pass p c = Some c' \<and> calm A c' \<and> P (ser c')"
proof -
  obtain e ns where p: "p = (e, ns)" by (cases p)
  obtain r where r: "adc e = Some r" "r \<in> A" using assms(2) by (auto simp: samples_def p)
  obtain w u where u: "bus_step (IN_token 1) (ser c) = Some w" "USB_Upkeep_Task (bus e) w = Some u" "link_at i' d' (tl out) (s @ take 1 out) u"
    using link_at_upkeep [OF assms(3-5)] by blast
  let ?d = "tick (ns 1) (tick (ns 0) c)"
  obtain v where v: "Message_Handling_Task (?d\<lparr>ser := u\<rparr>) = Some (?d\<lparr>ser := v\<rparr>)" "P v" using assms(6) [OF u(3)] p by auto
  let ?rest = "zip (map ns [2..<length main_blocks]) (drop 2 main_blocks)"
  have "zip (map ns [0..<length main_blocks]) main_blocks = (ns 0, block_usb) # (ns 1, block_message) # ?rest"
    by (simp add: main_blocks_def upt_conv_Cons)
  then have pass: "polled_pass p c = timed_blocks e ?rest (?d\<lparr>ser := v\<rparr>)"
    using u(1,2) v(1) by (simp add: polled_pass_def p timed_blocks_def block_usb_def block_message_def)
  have "snd ` set ?rest \<subseteq> set (drop 2 main_blocks)" using set_zip_rightD by fastforce
  from calm_blocks [OF this, of A "?d\<lparr>ser := v\<rparr>" r e] show ?thesis using pass r assms(1) v(2) by auto
qed

section \<open>Requests and replies\<close>

definition arithmetic :: "char \<Rightarrow> bool" where
  "arithmetic ch \<longleftrightarrow> ch \<in> {CHR ''*'', CHR ''/'', CHR ''+'', CHR ''-''}"

definition request_bytes :: "char \<Rightarrow> float32 \<Rightarrow> float32 \<Rightarrow> byte list" where
  "request_bytes ch x y = chr ch # le32 x @ le32 y"

definition reply :: "char \<Rightarrow> float32 \<Rightarrow> float32 \<Rightarrow> byte list" where
  "reply ch x y =
     (if ch = CHR ''/'' \<and> \<not> f_ne y 0 then msg_frame (cstr ''cc'') (chr ch) [chr CHR ''?'']
      else msg_frame (cstr ''cf'') (chr ch) (le32
        (if ch = CHR ''*'' then f_mul x y else if ch = CHR ''/'' then f_div x y
         else if ch = CHR ''+'' then f_add x y else f_sub x y)))"

lemma reply_length: "length (reply ch x y) = (if ch = CHR ''/'' \<and> \<not> f_ne y 0 then 6 else 9)"
  by (simp add: reply_def length_msg_frame cstr_def)

lemma length_request [simp]: "length (request_bytes ch x y) = 9"
  by (simp add: request_bytes_def)

text \<open>The message task waits for the rest of a request.\<close>

lemma task_waits:
  assumes "usb_wf (ser c)" "arithmetic ch" "in_bytes (ser c) = take n (request_bytes ch x y)" "n < 9"
  shows "Message_Handling_Task c = Some c"
proof (cases n)
  case 0
  then show ?thesis using assms(1,3) usb_msg_length_0 by (simp add: Message_Handling_Task_def)
next
  case (Suc m)
  have len: "unat (usb_msg_length (ser c)) = n" using usb_msg_length_ok [OF assms(1)] assms(3,4) by simp
  then have l: "usb_msg_length (ser c) \<noteq> 0" "\<not> 9 \<le> usb_msg_length (ser c)" using Suc assms(4) by (auto simp: word_le_nat_alt)
  have p: "usb_msg_peek (ser c) = chr ch" using usb_msg_peek_ok [OF assms(1)] assms(3) Suc by (simp add: request_bytes_def)
  show ?thesis using assms(2) l p
    by (auto simp: arithmetic_def Message_Handling_Task_def complete_def case_mul_def case_div_def case_add_def case_sub_def chr_inj)
qed

text \<open>It takes the whole request off the link, touches nothing else of it, and sends the reply.\<close>

lemma take_request:
  assumes "usb_wf u" "in_bytes u = request_bytes ch x y"
  shows "\<exists>q d. usb_msg_read_into (replicate 8 0) 8 (snd (usb_msg_get u)) = (True, d, u\<lparr>usb_receive_buffer := q\<rparr>) \<and>
    float_at 0 d = x \<and> float_at 4 d = y \<and> rb_wf 64 q \<and> rb_list 64 q = []"
proof -
  obtain b r where g: "rb_pop_front_C (usb_receive_buffer u) = (b, r)" by fastforce
  have s: "snd (usb_msg_get u) = u\<lparr>usb_receive_buffer := r\<rparr>"
    using usb_msg_length_0 [OF assms(1)] assms(2) g by (simp add: usb_msg_get_def usb_msg_length_def request_bytes_def)
  have w: "usb_wf (u\<lparr>usb_receive_buffer := r\<rparr>)" "in_bytes (u\<lparr>usb_receive_buffer := r\<rparr>) = le32 x @ le32 y"
    using usb_msg_get_ok(2,3) [OF assms(1)] assms(2) s by (simp_all add: request_bytes_def)
  obtain q where "usb_msg_read_into (replicate 8 0) 8 (u\<lparr>usb_receive_buffer := r\<rparr>) = (True, le32 x @ le32 y, u\<lparr>usb_receive_buffer := q\<rparr>)"
    "rb_wf 64 q" "rb_list 64 q = []"
    using usb_msg_read_into_ok [OF w(1), of 8 "replicate 8 0"] w(2) by auto
  moreover have "float_at 0 (le32 x @ le32 y) = x" "float_at 4 (le32 x @ le32 y) = y"
    using of_le32_le32 [of y "[]"] by (simp_all add: float_at_def)
  ultimately show ?thesis using s by auto
qed

lemma task_replies:
  assumes "usb_wf (ser c)" "arithmetic ch" "in_bytes (ser c) = request_bytes ch x y"
  shows "\<exists>q. Message_Handling_Task c = Some (c\<lparr>ser := push_all (reply ch x y) ((ser c)\<lparr>usb_receive_buffer := q\<rparr>)\<rparr>) \<and>
    rb_wf 64 q \<and> rb_list 64 q = []"
proof -
  have len: "unat (usb_msg_length (ser c)) = 9" using usb_msg_length_ok [OF assms(1)] assms(3) by simp
  then have l: "usb_msg_length (ser c) = 9" by (simp add: word_unat_eq_iff)
  have p: "usb_msg_peek (ser c) = chr ch" using usb_msg_peek_ok [OF assms(1)] assms(3) by (simp add: request_bytes_def)
  obtain q d where q: "usb_msg_read_into (replicate 8 0) 8 (snd (usb_msg_get (ser c))) = (True, d, (ser c)\<lparr>usb_receive_buffer := q\<rparr>)"
    "float_at 0 d = x" "float_at 4 d = y" "rb_wf 64 q" "rb_list 64 q = []" using take_request [OF assms(1,3)] by blast
  have r: "read_struct 8 (snd (take_byte c)) = Some (d, c\<lparr>ser := (ser c)\<lparr>usb_receive_buffer := q\<rparr>\<rparr>)"
    using q(1) by (simp add: read_struct_def take_byte_def case_prod_beta)
  have "send_msg f (chr ch) a (c\<lparr>ser := u\<rparr>) = c\<lparr>ser := push_all (msg_frame (cstr f) (chr ch) a) u\<rparr>"
    if "f = ''cf'' \<or> f = ''cc''" "length a < 256" for f a u
  proof -
    have "0 \<notin> set (cstr ''cf'')" "0 \<notin> set (cstr ''cc'')" by code_simp+
    then have "0 \<notin> set (cstr f)" using that(1) by blast
    then show ?thesis using usb_send_msg_push [of "cstr f" a "of_nat (length a)"] that(2) by (simp add: send_msg_def unat_of_nat8)
  qed
  note s = this
  have "Message_Handling_Task c = Some (c\<lparr>ser := push_all (reply ch x y) ((ser c)\<lparr>usb_receive_buffer := q\<rparr>)\<rparr>)"
    using assms(2) unfolding arithmetic_def
  proof (elim insertE emptyE)
    assume "ch = CHR ''*''"
    then show ?thesis using l p r q(2,3) s
      by (simp add: Message_Handling_Task_def complete_def case_mul_def reply_def case_prod_beta Let_def)
  next
    assume "ch = CHR ''/''"
    then show ?thesis using l p r q(2,3) s
      by (simp add: Message_Handling_Task_def complete_def case_div_def send_bad_input_def reply_def case_prod_beta Let_def chr_inj)
  next
    assume "ch = CHR ''+''"
    then show ?thesis using l p r q(2,3) s
      by (simp add: Message_Handling_Task_def complete_def case_add_def reply_def case_prod_beta Let_def chr_inj)
  next
    assume "ch = CHR ''-''"
    then show ?thesis using l p r q(2,3) s
      by (simp add: Message_Handling_Task_def complete_def case_sub_def reply_def case_prod_beta Let_def chr_inj)
  qed
  then show ?thesis using q(4,5) by blast
qed

section \<open>One exchange\<close>

lemma pass_waits:
  assumes "calm A c" "samples A p" "arithmetic ch" "link_at i d out s (ser c)" "received i d = (take n (request_bytes ch x y), d')" "n < 9"
    "length i < 63"
  shows "\<exists>c'. polled_pass p c = Some c' \<and> calm A c' \<and> link_at (take n (request_bytes ch x y)) d' (tl out) (s @ take 1 out) (ser c')"
proof (rule polled_pass_task [OF assms(1,2,4,7,5)])
  fix u assume u: "link_at (take n (request_bytes ch x y)) d' (tl out) (s @ take 1 out) u"
  let ?d = "tick (snd p 1) (tick (snd p 0) c)"
  have "Message_Handling_Task (?d\<lparr>ser := u\<rparr>) = Some (?d\<lparr>ser := u\<rparr>)"
    using u by (intro task_waits [OF _ assms(3) _ assms(6)]) (simp_all add: link_at_def link_ok_def)
  then show "\<exists>v. Message_Handling_Task (?d\<lparr>ser := u\<rparr>) = Some (?d\<lparr>ser := v\<rparr>) \<and>
      link_at (take n (request_bytes ch x y)) d' (tl out) (s @ take 1 out) v" using u by blast
qed

text \<open>The first eight bytes arrive.\<close>

lemma request_arrives:
  assumes "calm A c" "list_all (samples A) ps" "arithmetic ch" "k + length ps \<le> 8"
    "link_at (take k (request_bytes ch x y)) (Some (drop k (request_bytes ch x y))) [] s (ser c)"
  shows "\<exists>c'. fold_opt polled_pass ps c = Some c' \<and> calm A c' \<and>
    link_at (take (k + length ps) (request_bytes ch x y)) (Some (drop (k + length ps) (request_bytes ch x y))) [] s (ser c')"
  using assms
proof (induction ps arbitrary: k c)
  case (Cons p ps)
  let ?r = "request_bytes ch x y"
  have k: "k < length ?r" using Cons.prems(4) by simp
  have "received (take k ?r) (Some (drop k ?r)) = (take (Suc k) ?r, Some (drop (Suc k) ?r))"
    using k by (simp add: Cons_nth_drop_Suc [symmetric] take_Suc_conv_app_nth)
  from pass_waits [OF Cons.prems(1) _ Cons.prems(3,5) this, where p = p] obtain d where
    "polled_pass p c = Some d" "calm A d" "link_at (take (Suc k) ?r) (Some (drop (Suc k) ?r)) [] s (ser d)"
    using Cons.prems(2,4) by auto
  then show ?case using Cons.IH [of d "Suc k"] Cons.prems by auto
qed simp

text \<open>The last byte completes the request; the message task answers in the same pass.\<close>

lemma request_answered:
  assumes "calm A c" "samples A p" "arithmetic ch" "link_at (take 8 (request_bytes ch x y)) (Some (drop 8 (request_bytes ch x y))) [] s (ser c)"
  shows "\<exists>c'. polled_pass p c = Some c' \<and> calm A c' \<and> link_at [] (Some []) (reply ch x y) s (ser c')"
proof -
  let ?r = "request_bytes ch x y" and ?d = "tick (snd p 1) (tick (snd p 0) c)"
  have r: "received (take 8 ?r) (Some (drop 8 ?r)) = (?r, Some [])"
    using take_Suc_conv_app_nth [of 8 ?r] Cons_nth_drop_Suc [of 8 ?r] by (simp add: Cons_nth_drop_Suc [symmetric])
  have "\<exists>v. Message_Handling_Task (?d\<lparr>ser := u\<rparr>) = Some (?d\<lparr>ser := v\<rparr>) \<and> link_at [] (Some []) (reply ch x y) s v"
    if u: "link_at ?r (Some []) [] s u" for u
  proof -
    obtain q where q: "Message_Handling_Task (?d\<lparr>ser := u\<rparr>) = Some (?d\<lparr>ser := push_all (reply ch x y) (u\<lparr>usb_receive_buffer := q\<rparr>)\<rparr>)"
      "rb_wf 64 q" "rb_list 64 q = []"
      using task_replies [OF _ assms(3), of "?d\<lparr>ser := u\<rparr>" x y] u by (auto simp: link_at_def link_ok_def)
    let ?v = "push_all (reply ch x y) (u\<lparr>usb_receive_buffer := q\<rparr>)"
    have w: "usb_wf (u\<lparr>usb_receive_buffer := q\<rparr>)" "in_bytes (u\<lparr>usb_receive_buffer := q\<rparr>) = []" "out_bytes (u\<lparr>usb_receive_buffer := q\<rparr>) = []"
      using u q(2,3) by (simp_all add: link_at_def link_ok_def usb_wf_def in_bytes_def out_bytes_def)
    have "out_bytes ?v = reply ch x y" using out_bytes_push_all [OF w(1)] w(3) by (simp add: reply_length)
    moreover have "reading ?v = reading u" by (simp add: push_all_def)
    ultimately have "link_at [] (Some []) (reply ch x y) s ?v"
      using u w push_all_frame [where xs = "reply ch x y" and u = "u\<lparr>usb_receive_buffer := q\<rparr>"] by (simp add: link_at_def link_ok_def sent_bytes_def)
    then show ?thesis using q(1) by blast
  qed
  then show ?thesis by (intro polled_pass_task [OF assms(1,2,4) _ r]) simp_all
qed

text \<open>The reply leaves byte by byte.\<close>

lemma reply_leaves:
  assumes "calm A c" "list_all (samples A) ps" "link_at [] None out s (ser c)"
  shows "\<exists>c'. fold_opt polled_pass ps c = Some c' \<and> calm A c' \<and> link_at [] None (drop (length ps) out) (s @ take (length ps) out) (ser c')"
  using assms
proof (induction ps arbitrary: c out s)
  case (Cons p ps)
  obtain d where "polled_pass p c = Some d" "calm A d" "link_at [] None (tl out) (s @ take 1 out) (ser d)"
    using pass_waits [OF Cons.prems(1) _ _ Cons.prems(3), of p "CHR ''*''" 0 0 0 None] Cons.prems(2) by (auto simp: arithmetic_def)
  then show ?case using Cons.IH [of d "tl out" "s @ take 1 out"] Cons.prems(2) by (cases out) auto
qed simp

text \<open>A request as one packet, then enough passes for its bytes and those of the reply.\<close>

type_synonym host_request = "char \<times> float32 \<times> float32 \<times> (env \<times> (nat \<Rightarrow> nat)) list"

definition exchange :: "host_request \<Rightarrow> car \<Rightarrow> car option" where
  "exchange q c = (case q of (ch, x, y, ps) \<Rightarrow> do {
     u \<leftarrow> bus_step (OUT_packet 2 (request_bytes ch x y)) (ser c);
     fold_opt polled_pass ps (c\<lparr>ser := u\<rparr>) })"

definition enough :: "uint16 set \<Rightarrow> host_request \<Rightarrow> bool" where
  "enough A q \<longleftrightarrow> (case q of (ch, x, y, ps) \<Rightarrow> arithmetic ch \<and> 9 + length (reply ch x y) \<le> length ps \<and> list_all (samples A) ps)"

definition reply_of :: "host_request \<Rightarrow> byte list" where
  "reply_of q = (case q of (ch, x, y, ps) \<Rightarrow> reply ch x y)"

lemma exchange_ok:
  assumes "calm A c" "link_at [] None [] s (ser c)" "enough A q"
  shows "\<exists>c'. exchange q c = Some c' \<and> calm A c' \<and> link_at [] None [] (s @ reply_of q) (ser c')"
proof -
  obtain ch x y ps where q: "q = (ch, x, y, ps)" "arithmetic ch" "9 + length (reply ch x y) \<le> length ps" "list_all (samples A) ps"
    using assms(3) by (auto simp: enough_def)
  let ?r = "request_bytes ch x y"
  obtain u where u: "bus_step (OUT_packet 2 ?r) (ser c) = Some u" "link_at [] (Some ?r) [] s u"
    using link_at_packet [OF assms(2), of ?r] by (auto simp: request_bytes_def)
  obtain e ps2 where ps: "ps = take 8 ps @ e # ps2" "length (reply ch x y) \<le> length ps2" "length (take 8 ps) = 8"
    using id_take_nth_drop [of 8 ps] q(3) by fastforce
  then obtain f ps3 where ps2: "ps2 = f # ps3" using reply_length [of ch x y] by (cases ps2) (auto split: if_splits)
  have m: "list_all (samples A) (take 8 ps)" "samples A e" "samples A f" "list_all (samples A) ps3"
    using q(4) ps(1) ps2 by (metis list_all_append list.pred_inject(2))+
  obtain c1 where c1: "fold_opt polled_pass (take 8 ps) (c\<lparr>ser := u\<rparr>) = Some c1" "calm A c1" "link_at (take 8 ?r) (Some (drop 8 ?r)) [] s (ser c1)"
    using request_arrives [of A "c\<lparr>ser := u\<rparr>" "take 8 ps" ch 0 x y s] assms(1) q(2) u(2) ps(3) m(1) by auto
  obtain c2 where c2: "polled_pass e c1 = Some c2" "calm A c2" "link_at [] (Some []) (reply ch x y) s (ser c2)"
    using request_answered [OF c1(2) m(2) q(2) c1(3)] by blast
  obtain c3 where c3: "polled_pass f c2 = Some c3" "calm A c3" "link_at [] None (tl (reply ch x y)) (s @ take 1 (reply ch x y)) (ser c3)"
    using pass_waits [OF c2(2) m(3) q(2) c2(3), of 0 x y None] by auto
  have n: "drop (length ps3) (tl (reply ch x y)) = []" "take 1 (reply ch x y) @ take (length ps3) (tl (reply ch x y)) = reply ch x y"
    using ps(2) ps2 by (cases "reply ch x y"; simp)+
  obtain c4 where c4: "fold_opt polled_pass ps3 c3 = Some c4" "calm A c4" "link_at [] None [] (s @ reply ch x y) (ser c4)"
    using reply_leaves [OF c3(2) m(4) c3(3)] n by fastforce
  have "exchange q c = fold_opt polled_pass (take 8 ps @ e # f # ps3) (c\<lparr>ser := u\<rparr>)"
    using u(1) ps(1) ps2 by (simp add: exchange_def q(1))
  then have "exchange q c = Some c4" using c1(1) c2(1) c3(1) c4(1) by (simp add: fold_opt_append)
  then show ?thesis using c4(2,3) by (auto simp: reply_of_def q(1))
qed

section \<open>Sessions\<close>

text \<open>A session is a list of exchanges; the car is ready for the next request after each.\<close>

lemma session_ok:
  assumes "calm A c" "link_at [] None [] s (ser c)" "list_all (enough A) qs"
  shows "\<exists>c'. fold_opt exchange qs c = Some c' \<and> calm A c' \<and> link_at [] None [] (s @ concat (map reply_of qs)) (ser c')"
  using assms
proof (induction qs arbitrary: c s)
  case (Cons q qs)
  obtain d where "exchange q c = Some d" "calm A d" "link_at [] None [] (s @ reply_of q) (ser d)"
    using exchange_ok [OF Cons.prems(1,2), of q] Cons.prems(3) by auto
  then show ?case using Cons.IH [of d "s @ reply_of q"] Cons.prems(3) by auto
qed simp

text \<open>After initialisation only the flag of the battery task is set.\<close>

lemma calm_start:
  assumes "power_on c" "adc e = Some v" "main_init e c = Some c0" "never_low A (bat c0)"
  shows "calm A c0" "USB_SetupHardware (ser c) = Some (ser c0)"
  using main_init_ok [OF assms(1,2)] assms(3,4) by (auto simp: calm_def)

text \<open>A battery that is switched off, with the car on the power of the bus, is never reported low: the filter stays at zero.\<close>

lemma off_numbers: "volts 0 = 0" "diff_eq b_coeff a_coeff [0, 0, 0] [0, 0] = 0" "\<not> low_voltage 0"
  by code_simp+

lemma off_task:
  assumes "battery_set 0 b"
  shows "\<exists>b'. Battery_Voltage_Task (Some 0) b = Some (0, b') \<and> battery_set 0 b'"
proof -
  note b = assms [unfolded battery_set_def battery_wf_def off_numbers(1) numeral_3_eq_3 replicate.simps]
  let ?r = "Filter_Value (battery_filter b) 0"
  note ok = Filter_Value_ok [of 3 "battery_filter b" 0, unfolded numeral_3_eq_3]
  have y: "fst ?r = 0" using ok(2) b off_numbers(2) by (simp del: One_nat_def)
  then have f: "filter_wf 3 (snd ?r)" "rb_list 8 (in_list (snd ?r)) = replicate 3 0" "rb_list 8 (out_list (snd ?r)) = replicate 3 0"
    "rb_list 8 (numerator (snd ?r)) = b_coeff" "rb_list 8 (denominator (snd ?r)) = a_coeff"
    using ok b by (simp_all add: numeral_3_eq_3)
  have "Filter_Last_Output (snd ?r) = 0" using Filter_Last_Output_ok [OF f(1)] f(3) by (simp add: numeral_3_eq_3)
  then show ?thesis using y f
    by (simp add: Battery_Voltage_Task_def Oneshot_Some off_numbers(1) battery_set_def battery_wf_def Battery_Voltage_def
        split: prod.split) force
qed

lemma off_never_low: "battery_set 0 b \<Longrightarrow> never_low {0} b"
proof (coinduction arbitrary: b rule: never_low.coinduct)
  case never_low
  then show ?case using off_task off_numbers(3) by fastforce
qed

end
