(* ===== verification/Avoidance.thy ===== *)
theory Avoidance
  imports System_Behaviour
begin

text \<open>
  Obstacle avoidance in the running loop: from the command that starts it, with all blocks, interrupts and other
  commands in between, until a driving command comes. \<open>drive_view\<close> is what the decisions depend on; only the driving
  commands and the decisions themselves change it.
\<close>

section \<open>What driving depends on\<close>

definition drive_view :: "car \<Rightarrow> eOADSM \<times> uint16 \<times> (float32 \<times> float32) \<times> bool list" where
  "drive_view c = (OA_state c, alpha c, velocities c,
     map (\<lambda>k. active (flag c k)) [mf_obj_avoidance, mf_motor_vel_control, mf_motor_dist_control, mf_motor_stop, mf_timed_pwm])"

text \<open>The flags that belong to no way of driving.\<close>

definition report_flag :: "mf \<Rightarrow> bool" where
  "report_flag k \<longleftrightarrow> k \<notin> {mf_obj_avoidance, mf_motor_vel_control, mf_motor_dist_control, mf_motor_stop, mf_timed_pwm}"

lemma view_frame [simp]:
  "drive_view (LED l b c) = drive_view c" "drive_view (send_msg f cmd d c) = drive_view c" "drive_view (IRRead_c side e c) = drive_view c"
  "drive_view (Motor_Enable b c) = drive_view c" "drive_view (send_bad_input ch c) = drive_view c"
  "drive_view (Send_Time_Message m n t c) = drive_view c" "drive_view (start_measuring c) = drive_view c"
  "drive_view (read_ticks c) = drive_view c" "drive_view (snd (take_byte c)) = drive_view c" "drive_view (send_battery_low v c) = drive_view c"
  "drive_view (set_duration k x c) = drive_view c" "drive_view (set_trigger k tg c) = drive_view c" "drive_view (next_pass k c) = drive_view c"
  "drive_view (c\<lparr>ser := u\<rparr>) = drive_view c" "drive_view (c\<lparr>tim := tm\<rparr>) = drive_view c" "drive_view (c\<lparr>enc := en\<rparr>) = drive_view c"
  "drive_view (c\<lparr>bat := ba, bat_val := vb\<rparr>) = drive_view c" "drive_view (c\<lparr>time_new := tn\<rparr>) = drive_view c"
  "drive_view (c\<lparr>read_state := rs\<rparr>) = drive_view c" "drive_view (c\<lparr>mot := mo, regs := rg\<rparr>) = drive_view c"
  "drive_view (c\<lparr>srv := sv, regs := rg\<rparr>) = drive_view c" "drive_view (c\<lparr>proxy_first := pf\<rparr>) = drive_view c"
  "drive_view (c\<lparr>start_time_float := s1\<rparr>) = drive_view c" "drive_view (c\<lparr>trip_float := s2\<rparr>) = drive_view c"
  "drive_view (c\<lparr>start_time_loop := s3\<rparr>) = drive_view c" "drive_view (c\<lparr>trip_loop := s4\<rparr>) = drive_view c"
  by (simp_all add: drive_view_def velocities_def LED_def send_msg_def IRRead_c_def Motor_Enable_def send_bad_input_def Send_Time_Message_def
      start_measuring_def read_ticks_def take_byte_def send_battery_low_def set_duration_def set_trigger_def set_flag_def next_pass_def
      Let_def case_prod_beta)

lemma view_report [simp]:
  assumes "report_flag k"
  shows "drive_view (set_active k b c) = drive_view c" "drive_view (MSG_FLAG_Init k c) = drive_view c"
    "drive_view (set_once k c) = drive_view c" "drive_view (set_periodic k x c) = drive_view c"
  using assms by (auto simp: report_flag_def drive_view_def velocities_def set_active_def set_duration_def set_trigger_def set_flag_def
      MSG_FLAG_Init_def set_once_def set_periodic_def Let_def)

lemma report_flags [simp]:
  "report_flag mf_restart" "report_flag mf_loop_timer" "report_flag mf_time_float_send" "report_flag mf_send_time" "report_flag mf_send_encoder"
  "report_flag mf_send_battery" "report_flag mf_low_battery" "report_flag mf_sys_data" "report_flag mf_ir_proximity" "report_flag mf_battery_task"
  by (simp_all add: report_flag_def)

lemma view_read_struct: "read_struct n c = Some (d, c') \<Longrightarrow> drive_view c' = drive_view c"
  by (auto simp: read_struct_def split: prod.splits if_splits)

lemma view_drive_motors: "drive_motors l r c = Some c' \<Longrightarrow> drive_view c' = drive_view c"
  by (auto simp: drive_motors_def Motor_Left_def Motor_Right_def bind_eq_Some_iff split: prod.splits)

text \<open>The commands that do not drive, and what is sent for an unknown one.\<close>

lemma view_command:
  assumes "h \<in> {case_mul, case_div, case_add, case_sub, case_t, case_T, case_e, case_E, case_b, case_B, case_q, case_Q, case_i, case_I, case_G}"
    "h c = Some c'"
  shows "drive_view c' = drive_view c"
  using assms
  by (auto simp: handler_defs Let_def bind_eq_Some_iff take_byte_def split: prod.splits if_splits dest!: view_read_struct)

section \<open>Blocks\<close>

text \<open>No other way of driving is active.\<close>

definition only_avoids :: "car \<Rightarrow> bool" where
  "only_avoids c \<longleftrightarrow> \<not> active (flag c mf_motor_dist_control) \<and> \<not> active (flag c mf_motor_stop) \<and> \<not> active (flag c mf_timed_pwm)"

lemma view_only_avoids: "drive_view c' = drive_view c \<Longrightarrow> only_avoids c' = only_avoids c"
  by (simp add: drive_view_def only_avoids_def)

lemma view_vel_control:
  assumes "block_vel_control e c = Some c'"
  shows "drive_view c' = drive_view c"
  using assms
  by (auto simp: block_vel_control_def DEBUG_def bind_eq_Some_iff Let_def split: if_splits dest!: duty_same view_drive_motors)

lemma view_restart: "only_avoids c \<Longrightarrow> drive_view (Message_Handling_Init c) = drive_view c"
  by (simp add: Message_Handling_Init_def Let_def only_avoids_def drive_view_def velocities_def MSG_FLAG_Init_def set_flag_def)

lemma view_block:
  assumes "b \<in> set (block_usb # drop 2 (butlast main_blocks))" "only_avoids c" "b e c = Some c'"
  shows "drive_view c' = drive_view c"
proof -
  have r: "drive_view c' = drive_view c" if "b \<in> {block_usb, block_restart, block_battery_task, block_send_time, block_time_float, block_loop_timer}"
    using that assms(2,3) view_restart
    by (auto simp: block_usb_def block_restart_def block_battery_task_def block_send_time_def block_time_float_def block_loop_timer_def
        Let_def bind_eq_Some_iff split: if_splits prod.splits)
  have s: "drive_view c' = drive_view c" if "b \<in> {block_encoder, block_send_battery, block_low_battery, block_sys_data, block_proximity}"
    using that assms(3)
    by (auto simp: block_encoder_def block_send_battery_def block_low_battery_def block_sys_data_def block_proximity_def
        Let_def bind_eq_Some_iff split: if_splits)
  have d: "drive_view c' = drive_view c" if "b \<in> {block_timed_pwm, block_dist_control, block_motor_stop}"
    using that assms(2,3)
    by (auto simp: block_timed_pwm_def block_dist_control_def block_motor_stop_def only_avoids_def MSG_FLAG_Execute_iff)
  show ?thesis using assms(1,3) r s d view_vel_control by (auto simp: main_blocks_def)
qed

text \<open>A driving command is at the front of the input.\<close>

definition drive_command :: "car \<Rightarrow> bool" where
  "drive_command c \<longleftrightarrow> usb_msg_length (ser c) \<noteq> 0 \<and> usb_msg_peek (ser c) \<in> chr ` set ''pPsSdDvVO''"

lemma view_message:
  assumes "\<not> drive_command c" "Message_Handling_Task c = Some c'"
  shows "drive_view c' = drive_view c"
proof -
  have r: "drive_view d = drive_view c" if "case_restart c = Some d" for d
    using that by (auto simp: case_restart_def split: if_splits)
  have d: "drive_view d = drive_view c" if "case_default b c = Some d" for b d
    using that by (auto simp: case_default_def)
  show ?thesis using assms r d
    by (simp add: Message_Handling_Task_def drive_command_def Let_def split: if_split_asm) (rule view_command [rotated], assumption, simp)+
qed

section \<open>Runs without a driving command\<close>

text \<open>
  A run of the loop from the end of the message block on, with every block and interrupt and any command that does not
  drive. The counter is the number of decisions since the last one that saw an obstacle.
\<close>

definition decides :: "nat \<Rightarrow> nat \<Rightarrow> car \<Rightarrow> bool" where
  "decides pc pc' c \<longleftrightarrow> pc = 16 \<and> pc' = 0 \<and> MSG_FLAG_Execute mf_obj_avoidance c \<and> read_state c = RUN_DSM"

definition clear_decisions :: "nat \<Rightarrow> nat \<Rightarrow> nat \<Rightarrow> car \<Rightarrow> nat" where
  "clear_decisions n pc pc' c = (if decides pc pc' c then if m_nCount (IR_Counts (prx c)) = 0 then Suc n else 0 else n)"

inductive undisturbed :: "car \<Rightarrow> nat \<Rightarrow> nat \<times> car \<Rightarrow> bool" for c0 where
  start: "undisturbed c0 0 (2, c0)"
| go: "undisturbed c0 n (pc, c) \<Longrightarrow> step (pc, c) (pc', c') \<Longrightarrow> \<not> (pc = 1 \<and> pc' = 2 \<and> drive_command c)
    \<Longrightarrow> undisturbed c0 (clear_decisions n pc pc' c) (pc', c')"

text \<open>A step changes what driving depends on only by a decision.\<close>

lemma block_numbers: "main_blocks ! 16 = block_obj_avoidance" "main_blocks ! Suc 0 = block_message" "main_blocks ! 0 = block_usb" "length main_blocks = 17"
  by (simp_all add: main_blocks_def)

lemma other_block: "pc < 17 \<Longrightarrow> pc \<noteq> 1 \<Longrightarrow> pc \<noteq> 16 \<Longrightarrow> main_blocks ! pc \<in> set (block_usb # drop 2 (butlast main_blocks))"
proof (cases "pc = 0")
  case False
  assume "pc < 17" "pc \<noteq> 1" "pc \<noteq> 16"
  then obtain k where "pc = Suc (Suc k)" "k < 14" using False by (intro that [of "pc - 2"]) auto
  then have "k < length (drop 2 (butlast main_blocks))" "main_blocks ! pc = drop 2 (butlast main_blocks) ! k"
    by (simp_all add: block_numbers nth_butlast)
  then show ?thesis by (metis nth_mem list.set_intros(2))
qed (simp add: block_numbers)

lemma view_obj_avoidance:
  assumes "block_obj_avoidance e c = Some c'"
  shows "drive_view c' = drive_view (if decides 16 0 c then Run_State_Machine (IR_Counts (prx c)) c else c)"
  using assms by (auto simp: block_obj_avoidance_def Run_OA_Task_def decides_def split: if_splits eOAReadState.splits)

lemma view_step:
  assumes "step (pc, c) (pc', c')" "only_avoids c" "\<not> (pc = 1 \<and> pc' = 2 \<and> drive_command c)"
  shows "drive_view c' = drive_view (if decides pc pc' c then Run_State_Machine (IR_Counts (prx c)) c else c)"
  using assms(1)
proof (cases rule: step.cases)
  case (block e)
  then have pc: "pc < 17" "pc' = Suc pc mod 17" by (simp_all add: block_numbers)
  show ?thesis
  proof (cases "pc = 16")
    case True
    then show ?thesis using view_obj_avoidance [of e c c'] block(3) pc by (simp add: block_numbers)
  next
    case False
    then have "\<not> decides pc pc' c" by (simp add: decides_def)
    moreover have "drive_view c' = drive_view c"
    proof (cases "pc = 1")
      case True
      then show ?thesis using view_message [of c c'] assms(3) block(3) pc by (simp add: block_numbers block_message_def)
    next
      case pc1: False
      then show ?thesis using view_block [OF other_block [OF pc(1) pc1 False] assms(2)] block(3) by blast
    qed
    ultimately show ?thesis by simp
  qed
qed (auto simp: decides_def)

text \<open>An invariant of these runs, which may depend on the counter.\<close>

locale avoidance_invariant =
  fixes I :: "nat \<Rightarrow> car \<Rightarrow> bool"
  assumes of_view: "I n c \<Longrightarrow> drive_view c' = drive_view c \<Longrightarrow> I n c'"
    and alone: "I n c \<Longrightarrow> only_avoids c"
    and decided: "I n c \<Longrightarrow> I (if m_nCount r = 0 then Suc n else 0) (Run_State_Machine r c)"
begin

lemma keeps: "I n c \<Longrightarrow> step (pc, c) (pc', c') \<Longrightarrow> \<not> (pc = 1 \<and> pc' = 2 \<and> drive_command c) \<Longrightarrow> I (clear_decisions n pc pc' c) c'"
  using of_view [OF decided [of n c "IR_Counts (prx c)"], of c'] of_view [of n c c'] view_step [of pc c pc' c'] alone [of n c]
  by (auto simp: clear_decisions_def split: if_splits)

lemma always: "undisturbed c0 n s \<Longrightarrow> I 0 c0 \<Longrightarrow> I n (snd s)"
  by (induction rule: undisturbed.induct) (auto intro: keeps)

end

section \<open>Avoiding\<close>

definition avoiding :: "nat \<Rightarrow> car \<Rightarrow> bool" where
  "avoiding n c \<longleftrightarrow> oa_inv c \<and> active (flag c mf_obj_avoidance) \<and> only_avoids c \<and>
     (\<exists>s a. a < 4 \<and> (s \<noteq> HOLDING \<longrightarrow> a = 0) \<and> (OA_state c, unat (alpha c)) = (oa_clear ^^ n) (s, a))"

lemma avoiding_0: "avoiding 0 c \<longleftrightarrow> oa_inv c \<and> active (flag c mf_obj_avoidance) \<and> only_avoids c"
  by (auto simp: avoiding_def oa_inv_def)

interpretation avoid: avoidance_invariant avoiding
proof
  fix n c c' assume "avoiding n c" "drive_view c' = drive_view c"
  then show "avoiding n c'" by (simp add: avoiding_def drive_view_def oa_inv_def only_avoids_def)
next
  fix n c r assume a: "avoiding n c"
  let ?d = "Run_State_Machine r c"
  note m = Run_State_Machine_refines [of c r]
  have d: "oa_inv ?d" "active (flag ?d mf_obj_avoidance)" "only_avoids ?d"
    using a m(2) by (simp_all add: avoiding_def only_avoids_def Run_State_Machine_flags)
  show "avoiding (if m_nCount r = 0 then Suc n else 0) ?d"
  proof (cases "m_nCount r = 0")
    case True
    then have "(OA_state ?d, unat (alpha ?d)) = oa_clear (OA_state c, unat (alpha c))" using m(1) a oa_next_side by (simp add: avoiding_def)
    then have "\<exists>s b. b < 4 \<and> (s \<noteq> HOLDING \<longrightarrow> b = 0) \<and> (OA_state ?d, unat (alpha ?d)) = (oa_clear ^^ Suc n) (s, b)"
      using a unfolding avoiding_def by (metis funpow.simps(2) comp_apply)
    then show ?thesis using d True by (simp add: avoiding_def)
  qed (use d in \<open>simp add: avoiding_0\<close>)
qed (simp add: avoiding_def)

lemma clear_straight:
  assumes "avoiding n c" "5 \<le> n"
  shows "OA_state c = DRIVE_STRAIGHT" "velocities c = (straightL, straightR)" "active (flag c mf_motor_vel_control)"
proof -
  obtain s a where s: "a < 4" "s \<noteq> HOLDING \<longrightarrow> a = 0" "(OA_state c, unat (alpha c)) = (oa_clear ^^ n) (s, a)"
    using assms(1) by (auto simp: avoiding_def)
  have "(oa_clear ^^ m) (DRIVE_STRAIGHT, b) = (DRIVE_STRAIGHT, b)" for m b by (induction m) (simp_all add: oa_clear_def)
  moreover obtain b where "(oa_clear ^^ 5) (s, a) = (DRIVE_STRAIGHT, b)" using oa_clear_straight [OF s(1,2)] by (cases "(oa_clear ^^ 5) (s, a)") auto
  moreover obtain m where "n = m + 5" using assms(2) le_iff_add [of 5 n] by auto
  ultimately show st: "OA_state c = DRIVE_STRAIGHT" using s(3) by (simp add: funpow_add del: funpow.simps)
  show "velocities c = (straightL, straightR)" "active (flag c mf_motor_vel_control)"
    using assms(1) st by (simp_all add: avoiding_def oa_inv_def)
qed

text \<open>Taking bytes off the link leaves the state of the device alone.\<close>

lemma state_read_struct:
  assumes "read_struct n (snd (take_byte c)) = Some (d, c')"
  shows "USB_DeviceState (ser c') = USB_DeviceState (ser c)"
proof -
  have "USB_DeviceState (snd (usb_msg_get u)) = USB_DeviceState u" for u by (simp add: usb_msg_get_def case_prod_beta)
  moreover have "USB_DeviceState (snd (fold read_into_pass xs s)) = USB_DeviceState (snd s)" for xs s
    by (induction xs arbitrary: s) (simp_all add: read_into_pass_def case_prod_beta Let_def)
  ultimately show ?thesis using assms
    by (auto simp: read_struct_def take_byte_def usb_msg_read_into_def case_prod_beta Let_def split: if_splits)
qed

text \<open>The command that starts it.\<close>

lemma avoid_started:
  assumes "car_ok c" "in_bytes (ser c) = chr CHR ''O'' # le32 d @ bs" "battery_good (Battery_Voltage (bat c))" "f_lt 0 d"
  shows "\<exists>u. Message_Handling_Task c = Some (set_duration mf_obj_avoidance (seconds_to_ms d)
      (set_active mf_obj_avoidance True (Init_Obstacle_Avoidance (Reset_Drive_Flags (c\<lparr>ser := u\<rparr>))))) \<and>
    usb_wf u \<and> in_bytes u = bs \<and> USB_DeviceState u = USB_DeviceState (ser c)"
proof -
  have "complete CHR ''O'' c" using complete_if [OF assms(1), of "CHR ''O''" "le32 d"] assms(2) by simp
  moreover obtain u where u: "read_struct 4 (snd (take_byte c)) = Some (le32 d, c\<lparr>ser := u\<rparr>)" "usb_wf u" "in_bytes u = bs"
    using read_args [OF assms(1), of "chr CHR ''O''" "le32 d" bs] assms(2) by auto
  moreover have "USB_DeviceState u = USB_DeviceState (ser c)" using state_read_struct [OF u(1)] by simp
  moreover have "float_at 0 (le32 d) = d" using of_le32_le32 [of d "[]"] by (simp add: float_at_def)
  ultimately show ?thesis
    using task_handlers [OF assms(1,2)] assms(3,4) by (intro exI [of _ u]) (simp add: handlers_def case_O_def case_prod_beta Let_def)
qed

lemma avoid_command:
  assumes "car_ok c" "in_bytes (ser c) = chr CHR ''O'' # le32 d @ bs" "battery_good (Battery_Voltage (bat c))" "f_lt 0 d"
    "Message_Handling_Task c = Some c'"
  shows "avoiding 0 c'"
proof -
  obtain u where "c' = set_duration mf_obj_avoidance (seconds_to_ms d)
      (set_active mf_obj_avoidance True (Init_Obstacle_Avoidance (Reset_Drive_Flags (c\<lparr>ser := u\<rparr>))))"
    using avoid_started [OF assms(1-4)] assms(5) by auto
  then have "OA_state c' = INIT" "alpha c' = 0" "active (flag c' mf_obj_avoidance)" "only_avoids c'"
    by (simp_all add: only_avoids_def Init_Obstacle_Avoidance_def Reset_flags) (simp_all add: set_active_def set_duration_def set_flag_def)
  then show ?thesis by (simp add: avoiding_0 oa_inv_def)
qed

section \<open>A duty cycle during obstacle avoidance\<close>

text \<open>A duty cycle command leaves the flag of the obstacle avoidance on but switches the velocity control off for good.\<close>

definition stuck :: "nat \<Rightarrow> car \<Rightarrow> bool" where
  "stuck n c \<longleftrightarrow> only_avoids c \<and> active (flag c mf_obj_avoidance) \<and> \<not> active (flag c mf_motor_vel_control) \<and> OA_state c \<noteq> INIT"

interpretation stuck: avoidance_invariant stuck
proof
  fix n c r assume "stuck n c"
  then show "stuck (if m_nCount r = 0 then Suc n else 0) (Run_State_Machine r c)"
    by (cases "OA_state c") (simp_all add: stuck_def only_avoids_def Run_State_Machine_flags, simp_all add: Run_State_Machine_def Let_def Set_Target_Velocity_def)
qed (simp_all add: stuck_def drive_view_def only_avoids_def)

lemma duty_command:
  assumes "car_ok c" "in_bytes (ser c) = chr CHR ''p'' # le16 l @ le16 r @ bs" "battery_good (Battery_Voltage (bat c))"
    "Message_Handling_Task c = Some c'" "active (flag c mf_obj_avoidance)" "OA_state c \<noteq> INIT"
  shows "stuck 0 c'"
proof -
  have "complete CHR ''p'' c" using complete_if [OF assms(1), of "CHR ''p''" "le16 l @ le16 r"] assms(2) by simp
  moreover obtain u where "read_struct 4 (snd (take_byte c)) = Some (le16 l @ le16 r, c\<lparr>ser := u\<rparr>)"
    using read_args [OF assms(1), of "chr CHR ''p''" "le16 l @ le16 r" bs] assms(2) by auto
  moreover have "case_p c = Some c'" using task_handlers [OF assms(1,2)] assms(4) by (simp add: handlers_def)
  ultimately show ?thesis using assms(3,5,6)
    by (auto simp: case_p_def case_prod_beta Let_def bind_eq_Some_iff stuck_def only_avoids_def Motor_Left_def Motor_Right_def
        Motor_Enable_def set_active_def set_flag_def)
qed

section \<open>A run with a clear view\<close>

text \<open>
  While no bytes are on the link and only the obstacle avoidance is due, a pass of the loop is one pass of the obstacle
  avoidance. A timer interrupt and three passes take one decision.
\<close>

definition idle :: "car \<Rightarrow> bool" where
  "idle c \<longleftrightarrow> USB_DeviceState (ser c) = DEVICE_STATE_Unattached \<and> usb_msg_length (ser c) = 0 \<and>
     (\<forall>k. MSG_FLAG_Execute k c \<longrightarrow> k = mf_obj_avoidance)"

lemma idle_block:
  assumes "idle c" "pc < 16"
  shows "(main_blocks ! pc) e c = Some c"
proof (cases "pc = 1")
  case True
  then show ?thesis using assms by (simp add: block_numbers block_message_def Message_Handling_Task_def idle_def)
next
  case False
  then have "main_blocks ! pc \<in> set (block_usb # drop 2 (butlast main_blocks))" using other_block [of pc] assms(2) by simp
  moreover have "\<not> MSG_FLAG_Execute k c" if "k \<noteq> mf_obj_avoidance" for k using assms(1) that by (auto simp: idle_def)
  ultimately show ?thesis using assms(1)
    by (auto simp: main_blocks_def block_usb_def USB_Upkeep_Task_def idle_def block_restart_def block_battery_task_def block_send_time_def
        block_time_float_def block_loop_timer_def block_encoder_def block_send_battery_def block_low_battery_def block_timed_pwm_def
        block_sys_data_def block_dist_control_def block_vel_control_def block_motor_stop_def block_proximity_def)
qed

lemma idle_pass:
  assumes "undisturbed c0 n (pc, c)" "pc \<le> 16" "idle c" "block_obj_avoidance e c = Some c'"
  shows "undisturbed c0 (clear_decisions n 16 0 c) (0, c')"
proof -
  have "undisturbed c0 n (pc + k, c)" if "pc + k \<le> 16" for k
    using that
  proof (induction k)
    case (Suc k)
    have "step (pc + k, c) (Suc (pc + k), c)"
      using step.block [of "pc + k" e c c] idle_block [OF assms(3), of "pc + k" e] Suc.prems by (simp add: block_numbers)
    moreover have "\<not> drive_command c" using assms(3) by (simp add: drive_command_def idle_def)
    ultimately have "undisturbed c0 (clear_decisions n (pc + k) (Suc (pc + k)) c) (Suc (pc + k), c)"
      using Suc by (intro undisturbed.go [of c0 n "pc + k" c]) simp_all
    then show ?case by (simp add: clear_decisions_def decides_def)
  qed (use assms(1) in simp)
  from this [of "16 - pc"] have "undisturbed c0 n (16, c)" using assms(2) by simp
  moreover have "step (16, c) (0, c')" using step.block [of 16 e c c'] assms(4) by (simp add: block_numbers)
  ultimately show ?thesis by (rule undisturbed.go) simp
qed

lemma tick_undisturbed:
  assumes "undisturbed c0 n (pc, c)" "bit (SREG (regs c)) 7"
  shows "undisturbed c0 n (pc, c\<lparr>tim := TIMER0_COMPB_vect (tim c)\<rparr>)"
  using undisturbed.go [OF assms(1) step.timer [OF assms(2)]] by (auto simp: clear_decisions_def decides_def split: if_splits)

text \<open>Between two decisions: the next is due one millisecond later, the velocity control not before ten.\<close>

definition between :: "usb \<Rightarrow> nat \<Rightarrow> car \<Rightarrow> bool" where
  "between u j c \<longleftrightarrow> ser c = u \<and> read_state c = READ_L \<and> bit (SREG (regs c)) 7 \<and> count_ms (tim c) = of_nat j \<and>
     update_period (ctr_LeftMotor c) = f_of_int 10 \<and> (\<forall>k. active (flag c k) \<longrightarrow> k = mf_obj_avoidance \<or> k = mf_motor_vel_control) \<and>
     active (flag c mf_obj_avoidance) \<and> duration (flag c mf_obj_avoidance) = f_of_int 1 \<and> millisec (last_trigger_time (flag c mf_obj_avoidance)) = of_nat j \<and>
     (active (flag c mf_motor_vel_control) \<longrightarrow> duration (flag c mf_motor_vel_control) = f_of_int 10) \<and> millisec (last_trigger_time (flag c mf_motor_vel_control)) = 0"

lemma between_due:
  assumes "between u j c" "j < 9" "count_ms (tim d) = of_nat (Suc j)" "flag d = flag c"
  shows "MSG_FLAG_Execute k d \<longleftrightarrow> k = mf_obj_avoidance"
proof (cases "k = mf_obj_avoidance")
  case True
  then show ?thesis using MSG_FLAG_Execute_period [of d k 1] assms by (simp add: between_def)
next
  case False
  have "uint (of_nat (Suc j) :: uint32) < 10" using assms(2) by (simp add: unsigned_of_nat take_bit_eq_mod del: of_nat_Suc)
  then have "\<not> MSG_FLAG_Execute mf_motor_vel_control d"
    using MSG_FLAG_Execute_period [of d mf_motor_vel_control 10] assms by (auto simp: between_def MSG_FLAG_Execute_iff)
  then show ?thesis using False assms(1,4) by (auto simp: between_def MSG_FLAG_Execute_iff)
qed

lemma IRRead_c_frame:
  "ser (IRRead_c s e c) = ser c" "tim (IRRead_c s e c) = tim c" "ctr_LeftMotor (IRRead_c s e c) = ctr_LeftMotor c" "read_state (IRRead_c s e c) = read_state c"
  "SREG (regs (IRRead_c s e c)) = SREG (regs c)"
  by (simp_all add: IRRead_c_def case_prod_beta IRRead_regs)

lemma Run_State_Machine_frame:
  "ser (Run_State_Machine r c) = ser c" "tim (Run_State_Machine r c) = tim c" "SREG (regs (Run_State_Machine r c)) = SREG (regs c)"
  "update_period (ctr_LeftMotor (Run_State_Machine r c)) = update_period (ctr_LeftMotor c)"
  "last_trigger_time (flag (Run_State_Machine r c) k) = last_trigger_time (flag c k)"
  "duration (flag (Run_State_Machine r c) k) =
     (if k = mf_motor_vel_control \<and> OA_state c = INIT then update_period (ctr_LeftMotor c) else duration (flag c k))"
  by (cases "OA_state c"; simp add: Run_State_Machine_def Let_def Set_Target_Velocity_def LED_def set_active_def set_duration_def set_flag_def
      Controller_Set_Target_Velocity_def Set_LED.simps)+

lemma one_decision:
  assumes "undisturbed c0 n (pc, c)" "pc \<le> 16" "between u j c" "j < 9" "USB_DeviceState u = DEVICE_STATE_Unattached" "usb_msg_length u = 0"
    "hits (ir (e :: env)) = 0"
  shows "\<exists>c'. undisturbed c0 (Suc n) (0, c') \<and> between u (Suc j) c'"
proof -
  let ?t = "c\<lparr>tim := TIMER0_COMPB_vect (tim c)\<rparr>"
  let ?l = "(IRRead_c LEFT e ?t)\<lparr>read_state := READ_R\<rparr>"
  let ?r = "(IRRead_c RIGHT e ?l)\<lparr>read_state := RUN_DSM\<rparr>"
  let ?m = "(Run_State_Machine (IR_Counts (prx ?r)) ?r)\<lparr>read_state := READ_L\<rparr>"
  let ?d = "set_trigger mf_obj_avoidance (GetTime_c ?m) ?m"
  have tim: "count_ms (tim ?t) = of_nat (Suc j)" using assms(3) by (simp add: between_def)
  have due: "MSG_FLAG_Execute k d \<longleftrightarrow> k = mf_obj_avoidance" if "d \<in> {?t, ?l, ?r}" for k d
    using between_due [OF assms(3,4), of d k] that tim by (auto simp: IRRead_c_frame)
  then have idle: "idle ?t" "idle ?l" "idle ?r" using assms(3,5,6) by (simp_all add: idle_def between_def IRRead_c_frame)
  have b: "block_obj_avoidance e ?t = Some ?l" "block_obj_avoidance e ?l = Some ?r" "block_obj_avoidance e ?r = Some ?d"
    using due assms(3) by (simp_all add: block_obj_avoidance_def Run_OA_Task_def between_def Let_def)
  have dec: "clear_decisions n 16 0 ?t = n" "clear_decisions n 16 0 ?l = n" "clear_decisions n 16 0 ?r = Suc n"
    using due assms(3,7) by (simp_all add: clear_decisions_def decides_def between_def IR_Counts_reading IRRead_c_counts reading_of_def)
  have "bit (SREG (regs c)) 7" using assms(3) by (simp add: between_def)
  from tick_undisturbed [OF assms(1) this] have "undisturbed c0 n (0, ?l)"
    using idle_pass [OF _ assms(2) idle(1) b(1)] dec(1) by metis
  then have "undisturbed c0 n (0, ?r)" using idle_pass [OF _ _ idle(2) b(2), of c0 n 0] dec(2) by simp
  then have "undisturbed c0 (Suc n) (0, ?d)" using idle_pass [OF _ _ idle(3) b(3), of c0 n 0] dec(3) by simp
  moreover have "between u (Suc j) ?d" using assms(3)
    by (auto simp: between_def Run_State_Machine_frame Run_State_Machine_flags IRRead_c_frame GetTime_c_def set_trigger_def set_flag_def
        split: if_splits)
  ultimately show ?thesis by blast
qed

lemma clear_run:
  assumes "between u 0 c" "USB_DeviceState u = DEVICE_STATE_Unattached" "usb_msg_length u = 0" "hits (ir (e :: env)) = 0" "0 < n" "n < 10"
  shows "\<exists>c'. undisturbed c n (0, c') \<and> between u n c'"
  using assms(5,6)
proof (induction n rule: nat_induct_non_zero)
  case 1
  show ?case using one_decision [OF undisturbed.start _ assms(1) _ assms(2-4)] by simp
next
  case (Suc n)
  then show ?case using one_decision [OF _ _ _ _ assms(2-4)] by fastforce
qed

end
