(* ===== verification/Usb_Transfer.thy ===== *)
theory Usb_Transfer
  imports Link_Properties
begin

text \<open>
  The rest of LUFA's endpoint interface for a device on this chip, which only the echo task of the firmware or nothing
  calls: transfers of 16 and 32 bits in both byte orders (\<^verbatim>\<open>Endpoint_AVR8.h\<close>), the streams that discard their
  data or send zeros (\<^verbatim>\<open>EndpointStream_AVR8.c\<close>), tables of endpoints and shutting down. The lemmas say that the byte
  orders mirror each other, that a big-endian stream is the stream of the reversed buffer and the streams
  without data are streams of other data, with the same result, counter and bus events, and what the echo task does.
\<close>

section \<open>Words\<close>

definition Endpoint_Discard_8 :: "usb \<Rightarrow> usb" where
  "Endpoint_Discard_8 u = snd (Endpoint_Read_8 u)"

definition Endpoint_Read_16_LE :: "usb \<Rightarrow> uint16 \<times> usb" where
  "Endpoint_Read_16_LE u =
     (let (b0, u) = Endpoint_Read_8 u; (b1, u) = Endpoint_Read_8 u in (of_le16 [b0, b1], u))"

definition Endpoint_Read_16_BE :: "usb \<Rightarrow> uint16 \<times> usb" where
  "Endpoint_Read_16_BE u =
     (let (b1, u) = Endpoint_Read_8 u; (b0, u) = Endpoint_Read_8 u in (of_le16 [b0, b1], u))"

definition Endpoint_Write_16_BE :: "uint16 \<Rightarrow> usb \<Rightarrow> usb" where
  "Endpoint_Write_16_BE Data u =
     (let u = Endpoint_Write_8 (ucast (drop_bit 8 Data)) u in Endpoint_Write_8 (ucast (Data AND 0xFF)) u)"

definition Endpoint_Discard_16 :: "usb \<Rightarrow> usb" where
  "Endpoint_Discard_16 u = (let u = snd (Endpoint_Read_8 u) in snd (Endpoint_Read_8 u))"

definition Endpoint_Read_32_LE :: "usb \<Rightarrow> uint32 \<times> usb" where
  "Endpoint_Read_32_LE u =
     (let (b0, u) = Endpoint_Read_8 u; (b1, u) = Endpoint_Read_8 u; (b2, u) = Endpoint_Read_8 u; (b3, u) = Endpoint_Read_8 u
      in (of_le32 [b0, b1, b2, b3], u))"

definition Endpoint_Read_32_BE :: "usb \<Rightarrow> uint32 \<times> usb" where
  "Endpoint_Read_32_BE u =
     (let (b3, u) = Endpoint_Read_8 u; (b2, u) = Endpoint_Read_8 u; (b1, u) = Endpoint_Read_8 u; (b0, u) = Endpoint_Read_8 u
      in (of_le32 [b0, b1, b2, b3], u))"

text \<open>Storing to \<open>UEDATX\<close> keeps the low eight bits of the value.\<close>

definition Endpoint_Write_32_LE :: "uint32 \<Rightarrow> usb \<Rightarrow> usb" where
  "Endpoint_Write_32_LE Data u =
     (let u = Endpoint_Write_8 (ucast (Data AND 0xFF)) u;
          u = Endpoint_Write_8 (ucast (drop_bit 8 Data)) u;
          u = Endpoint_Write_8 (ucast (drop_bit 16 Data)) u
      in Endpoint_Write_8 (ucast (drop_bit 24 Data)) u)"

definition Endpoint_Write_32_BE :: "uint32 \<Rightarrow> usb \<Rightarrow> usb" where
  "Endpoint_Write_32_BE Data u =
     (let u = Endpoint_Write_8 (ucast (drop_bit 24 Data)) u;
          u = Endpoint_Write_8 (ucast (drop_bit 16 Data)) u;
          u = Endpoint_Write_8 (ucast (drop_bit 8 Data)) u
      in Endpoint_Write_8 (ucast (Data AND 0xFF)) u)"

definition Endpoint_Discard_32 :: "usb \<Rightarrow> usb" where
  "Endpoint_Discard_32 u =
     (let u = snd (Endpoint_Read_8 u); u = snd (Endpoint_Read_8 u); u = snd (Endpoint_Read_8 u) in snd (Endpoint_Read_8 u))"

section \<open>Streams without data\<close>

text \<open>Discarding and zero-filling count up to the length.\<close>

partial_function (option) count_loop :: "(usb \<Rightarrow> usb) \<Rightarrow> (usb \<Rightarrow> usb) \<Rightarrow> uint16 \<Rightarrow> uint16 option \<Rightarrow> uint16
    \<Rightarrow> bus_event list \<Rightarrow> usb \<Rightarrow> (Endpoint_Stream_RW_ErrorCodes_t \<times> uint16 option \<times> usb \<times> bus_event list) option" where
  "count_loop clear byte Length BytesProcessed BytesInTransfer evs u =
     (if \<not> BytesInTransfer < Length then Some (ENDPOINT_RWSTREAM_NoError, BytesProcessed, u, evs)
      else if \<not> Endpoint_IsReadWriteAllowed u then
        (if BytesProcessed \<noteq> None then Some (ENDPOINT_RWSTREAM_IncompleteTransfer, Some BytesInTransfer, clear u, evs)
         else do {
           (e, u, evs) \<leftarrow> Endpoint_WaitUntilReady evs (clear u);
           if e \<noteq> ENDPOINT_READYWAIT_NoError then Some (stream_code e, BytesProcessed, u, evs)
           else count_loop clear byte Length BytesProcessed BytesInTransfer evs u })
      else count_loop clear byte Length BytesProcessed (BytesInTransfer + 1) evs (byte u))"

definition count_stream :: "(usb \<Rightarrow> usb) \<Rightarrow> (usb \<Rightarrow> usb) \<Rightarrow> uint16 \<Rightarrow> uint16 option \<Rightarrow> bus_event list \<Rightarrow> usb
    \<Rightarrow> (Endpoint_Stream_RW_ErrorCodes_t \<times> uint16 option \<times> usb \<times> bus_event list) option" where
  "count_stream clear byte Length BytesProcessed evs u = do {
     let BytesInTransfer = (case BytesProcessed of None \<Rightarrow> 0 | Some n \<Rightarrow> n);
     (e, u, evs) \<leftarrow> Endpoint_WaitUntilReady evs u;
     if e \<noteq> ENDPOINT_READYWAIT_NoError then Some (stream_code e, BytesProcessed, u, evs)
     else count_loop clear byte Length BytesProcessed BytesInTransfer evs u }"

definition Endpoint_Discard_Stream :: "uint16 \<Rightarrow> uint16 option \<Rightarrow> bus_event list \<Rightarrow> usb
    \<Rightarrow> (Endpoint_Stream_RW_ErrorCodes_t \<times> uint16 option \<times> usb \<times> bus_event list) option" where
  "Endpoint_Discard_Stream = count_stream Endpoint_ClearOUT Endpoint_Discard_8"

definition Endpoint_Null_Stream :: "uint16 \<Rightarrow> uint16 option \<Rightarrow> bus_event list \<Rightarrow> usb
    \<Rightarrow> (Endpoint_Stream_RW_ErrorCodes_t \<times> uint16 option \<times> usb \<times> bus_event list) option" where
  "Endpoint_Null_Stream = count_stream Endpoint_ClearIN (Endpoint_Write_8 0)"

section \<open>Tables of endpoints, shutting down\<close>

record USB_Endpoint_Table_t =
  Address :: uint8
  Size :: uint16
  Type :: uint8
  Banks :: uint8

fun Endpoint_ConfigureEndpointTable :: "USB_Endpoint_Table_t list \<Rightarrow> usb \<Rightarrow> (bool \<times> usb) option" where
  "Endpoint_ConfigureEndpointTable [] u = Some (True, u)"
| "Endpoint_ConfigureEndpointTable (t # ts) u =
     (if Address t = 0 then Endpoint_ConfigureEndpointTable ts u
      else do {
        (ok, u) \<leftarrow> Endpoint_ConfigureEndpoint (Address t) (Type t) (Size t) (Banks t) u;
        if \<not> ok then Some (False, u) else Endpoint_ConfigureEndpointTable ts u })"

definition USB_Detach :: "usb \<Rightarrow> usb" where
  "USB_Detach u = u\<lparr>UDCON := UDCON u OR bv 0\<rparr>"

definition USB_Controller_Disable :: "usb \<Rightarrow> usb" where
  "USB_Controller_Disable u = u\<lparr>USBCON := USBCON u AND NOT (bv 7)\<rparr>"

definition USB_REG_Off :: "usb \<Rightarrow> usb" where
  "USB_REG_Off u = u\<lparr>UHWCON := UHWCON u AND NOT (bv 0)\<rparr>"

definition USB_Disable :: "usb \<Rightarrow> usb" where
  "USB_Disable u =
     (let u = USB_INT_DisableAllInterrupts u;
          u = USB_INT_ClearAllInterrupts u;
          u = USB_Detach u;
          u = USB_Controller_Disable u;
          u = USB_PLL_Off u;
          u = USB_REG_Off u;
          u = USB_OTGPAD_Off u
      in u\<lparr>USB_IsInitialized := False\<rparr>)"

definition USB_Device_GetFrameNumber :: "usb \<Rightarrow> uint16" where
  "USB_Device_GetFrameNumber u = UDFNUM u"

definition USB_Device_EnableSOFEvents :: "usb \<Rightarrow> usb" where
  "USB_Device_EnableSOFEvents = USB_INT_Enable USB_INT_SOFI"

definition USB_Device_DisableSOFEvents :: "usb \<Rightarrow> usb" where
  "USB_Device_DisableSOFEvents = USB_INT_Disable USB_INT_SOFI"

definition Endpoint_SetEndpointDirection :: "uint8 \<Rightarrow> usb \<Rightarrow> usb" where
  "Endpoint_SetEndpointDirection DirectionMask u =
     set_cur ((cur u)\<lparr>UECFG0X := (UECFG0X (cur u) AND NOT EPDIR) OR (if DirectionMask \<noteq> 0 then EPDIR else 0)\<rparr>) u"

section \<open>Byte orders\<close>

lemma Read_8_Cons: "bank (cur u) = b # bs \<Longrightarrow> Endpoint_Read_8 u = (b, set_cur ((cur u)\<lparr>bank := bs\<rparr>) u)"
  by (simp add: Endpoint_Read_8_def)

lemma set_bank_twice: "set_cur ((cur (set_cur ((cur u)\<lparr>bank := b\<rparr>) u))\<lparr>bank := c\<rparr>) (set_cur ((cur u)\<lparr>bank := b\<rparr>) u) = set_cur ((cur u)\<lparr>bank := c\<rparr>) u"
  by (simp add: cur_set_cur)

lemma set_bank_same: "bank (cur u) = b \<Longrightarrow> set_cur ((cur u)\<lparr>bank := b\<rparr>) u = u"
  by (simp add: set_cur_def cur_def fun_upd_idem)

lemmas fifo = Endpoint_Write_8_def Read_8_Cons cur_set_cur set_bank_twice

lemma low_byte: "(ucast (w AND 255 :: uint16) :: byte) = ucast w" "(ucast (x AND 255 :: uint32) :: byte) = ucast x"
proof -
  have m: "(255 :: 'a::len word) = mask 8" by (simp add: mask_eq_exp_minus_1)
  show "(ucast (w AND 255) :: byte) = ucast w" "(ucast (x AND 255) :: byte) = ucast x"
    unfolding m by (rule bit_word_eqI, simp add: bit_simps)+
qed

lemma Write_16_bytes:
  "Endpoint_Write_16_LE w u = set_cur ((cur u)\<lparr>bank := bank (cur u) @ le16 w\<rparr>) u"
  "Endpoint_Write_16_BE w u = set_cur ((cur u)\<lparr>bank := bank (cur u) @ rev (le16 w)\<rparr>) u"
  by (simp_all add: Endpoint_Write_16_LE_def Endpoint_Write_16_BE_def Let_def fifo le16_def low_byte)

lemma Write_32_bytes:
  "Endpoint_Write_32_LE w u = set_cur ((cur u)\<lparr>bank := bank (cur u) @ le32 w\<rparr>) u"
  "Endpoint_Write_32_BE w u = set_cur ((cur u)\<lparr>bank := bank (cur u) @ rev (le32 w)\<rparr>) u"
  by (simp_all add: Endpoint_Write_32_LE_def Endpoint_Write_32_BE_def Let_def fifo le32_def low_byte)

lemma Read_16_bytes:
  assumes "bank (cur u) = a # b # bs"
  shows "Endpoint_Read_16_LE u = (of_le16 [a, b], set_cur ((cur u)\<lparr>bank := bs\<rparr>) u)"
    "Endpoint_Read_16_BE u = (of_le16 [b, a], set_cur ((cur u)\<lparr>bank := bs\<rparr>) u)"
  using assms by (simp_all add: Endpoint_Read_16_LE_def Endpoint_Read_16_BE_def Let_def fifo)

lemma Read_32_bytes:
  assumes "bank (cur u) = a # b # c # d # bs"
  shows "Endpoint_Read_32_LE u = (of_le32 [a, b, c, d], set_cur ((cur u)\<lparr>bank := bs\<rparr>) u)"
    "Endpoint_Read_32_BE u = (of_le32 [d, c, b, a], set_cur ((cur u)\<lparr>bank := bs\<rparr>) u)"
  using assms by (simp_all add: Endpoint_Read_32_LE_def Endpoint_Read_32_BE_def Let_def fifo)

text \<open>What is written in one order and read in the same one comes back, and the bank is as before.\<close>

lemma word_roundtrips:
  assumes "bank (cur u) = []"
  shows "Endpoint_Read_16_LE (Endpoint_Write_16_LE w u) = (w, u)" "Endpoint_Read_16_BE (Endpoint_Write_16_BE w u) = (w, u)"
    "Endpoint_Read_32_LE (Endpoint_Write_32_LE x u) = (x, u)" "Endpoint_Read_32_BE (Endpoint_Write_32_BE x u) = (x, u)"
  using assms of_le16_le16 [of w "[]"] of_le32_le32 [of x "[]"]
  by (simp_all add: Write_16_bytes Write_32_bytes Read_16_bytes Read_32_bytes cur_set_cur set_bank_same le16_def le32_def)

section \<open>The streams compared\<close>

text \<open>Two streams that move the same bytes for as long as there are bytes to move do the same.\<close>

lemma stream_loop_sim:
  assumes "stream_loop clear t L B k s evs u = Some (e, B', s1, v, evs1)" "R L s s'"
    and "\<And>L s s' u. R L s s' \<Longrightarrow> L \<noteq> 0 \<Longrightarrow> snd (t' s' u) = snd (t s u) \<and> R (L - 1) (fst (t s u)) (fst (t' s' u))"
  shows "\<exists>s1' L'. stream_loop clear t' L B k s' evs u = Some (e, B', s1', v, evs1) \<and> R L' s1 s1'"
proof -
  let ?P = "\<lambda>c tt L B k s evs u (e, B', s1, v, evs1). c = clear \<longrightarrow> tt = t \<longrightarrow>
    (\<forall>s'. R L s s' \<longrightarrow> (\<exists>s1' L'. stream_loop clear t' L B k s' evs u = Some (e, B', s1', v, evs1) \<and> R L' s1 s1'))"
  have "?P clear t L B k s evs u (e, B', s1, v, evs1)"
  proof (rule stream_loop.raw_induct [where P = ?P, OF _ assms(1)])
    fix f c tt L B k s evs u r
    assume IH: "\<And>c tt L B k s evs u r. f c tt L B k s evs u = Some r \<Longrightarrow> ?P c tt L B k s evs u r"
      and r: "(if L = 0 then Some (ENDPOINT_RWSTREAM_NoError, B, s, u, evs)
      else if \<not> Endpoint_IsReadWriteAllowed u then
        (case B of
           Some n \<Rightarrow> Some (ENDPOINT_RWSTREAM_IncompleteTransfer, Some (n + k), s, c u, evs)
         | None \<Rightarrow> do {
             (e, u, evs) \<leftarrow> Endpoint_WaitUntilReady evs (c u);
             if e \<noteq> ENDPOINT_READYWAIT_NoError then Some (stream_code e, B, s, u, evs)
             else f c tt L B k s evs u })
      else (let (s, u) = tt s u in f c tt (L - 1) B (k + 1) s evs u)) = Some r"
    obtain e B' s1 v evs1 where x: "r = (e, B', s1, v, evs1)" by (cases r) auto
    have "\<exists>s1' L'. stream_loop clear t' L B k s' evs u = Some (e, B', s1', v, evs1) \<and> R L' s1 s1'"
      if c: "c = clear" "tt = t" and R: "R L s s'" for s'
    proof (cases "L = 0 \<or> Endpoint_IsReadWriteAllowed u")
      case True
      have "R (L - 1) (fst (t s u)) (fst (t' s' u)) \<and> snd (t' s' u) = snd (t s u)" if "L \<noteq> 0"
        using assms(3) [OF R that] by simp
      then show ?thesis using r x c R True IH [of clear t "L - 1" B "k + 1" "fst (t s u)" evs "snd (t s u)" r]
        by (subst stream_loop.simps) (auto simp: case_prod_beta)
    next
      case False
      then show ?thesis using r x c R IH [of clear t L B k s]
        by (subst stream_loop.simps) (auto simp: bind_eq_Some_iff split: option.splits if_splits prod.splits)
    qed
    then show "?P c tt L B k s evs u r" using x by auto
  qed
  then show ?thesis using assms(2) by auto
qed

text \<open>The result of a stream, of the buffer and its pointer only what \<open>g\<close> sees.\<close>

definition outcome :: "('s \<Rightarrow> 'v) \<Rightarrow> (Endpoint_Stream_RW_ErrorCodes_t \<times> uint16 option \<times> 's \<times> usb \<times> bus_event list) option
    \<Rightarrow> (Endpoint_Stream_RW_ErrorCodes_t \<times> uint16 option \<times> 'v \<times> usb \<times> bus_event list) option" where
  "outcome g = map_option (\<lambda>(e, B, s, u, evs). (e, B, g s, u, evs))"

lemma stream_loop_outcome:
  assumes "R L s s'" and view: "\<And>L s s'. R L s s' \<Longrightarrow> g s = g' s'"
    and step: "\<And>L s s' u. R L s s' \<Longrightarrow> L \<noteq> 0 \<Longrightarrow> snd (t' s' u) = snd (t s u) \<and> R (L - 1) (fst (t s u)) (fst (t' s' u))"
  shows "outcome g (stream_loop clear t L B k s evs u) = outcome g' (stream_loop clear t' L B k s' evs u)"
proof (cases "stream_loop clear t L B k s evs u")
  case None
  have conv: "snd (t s u) = snd (t' s' u) \<and> R (L - 1) (fst (t s u)) (fst (t' s' u))" if "R L s s'" "L \<noteq> 0"
    for L s s' u
    using step [OF that, of u] by auto
  have "stream_loop clear t' L B k s' evs u = None"
  proof (rule ccontr)
    assume "stream_loop clear t' L B k s' evs u \<noteq> None"
    then obtain e B' s1 v evs1 where r: "stream_loop clear t' L B k s' evs u = Some (e, B', s1, v, evs1)" by auto
    show False using stream_loop_sim [where R = "\<lambda>L s' s. R L s s'" and t' = t, OF r assms(1) conv] None by auto
  qed
  then show ?thesis using None by (simp add: outcome_def)
next
  case (Some r)
  then show ?thesis using stream_loop_sim [where R = R and t' = t', OF _ assms(1) step]
    by (cases r) (fastforce simp: outcome_def dest: view)
qed

lemma stream_template_outcome:
  assumes "R L s s'" "\<And>n. BytesProcessed = Some n \<Longrightarrow> R (L - n) (move (unat n) s) (move' (unat n) s')"
    and "\<And>L s s'. R L s s' \<Longrightarrow> g s = g' s'"
    and "\<And>L s s' u. R L s s' \<Longrightarrow> L \<noteq> 0 \<Longrightarrow> snd (t' s' u) = snd (t s u) \<and> R (L - 1) (fst (t s u)) (fst (t' s' u))"
  shows "outcome g (stream_template clear t move s L BytesProcessed evs u) =
    outcome g' (stream_template clear t' move' s' L BytesProcessed evs u)"
proof -
  have "outcome g (stream_loop clear t (L - n) BytesProcessed 0 (move (unat n) s) evs u) =
      outcome g' (stream_loop clear t' (L - n) BytesProcessed 0 (move' (unat n) s') evs u)" if "BytesProcessed = Some n" for n evs u
    by (rule stream_loop_outcome [where R = R, OF assms(2) [OF that]]) (fact assms(3), fact assms(4))
  moreover have "outcome g (stream_loop clear t L BytesProcessed 0 s evs u) = outcome g' (stream_loop clear t' L BytesProcessed 0 s' evs u)"
    for evs u
    by (rule stream_loop_outcome [where R = R, OF assms(1)]) (fact assms(3), fact assms(4))
  moreover have "g s = g' s'" using assms(1,3) by blast
  ultimately show ?thesis
    by (cases "Endpoint_WaitUntilReady evs u"; cases BytesProcessed) (auto simp: stream_template_def outcome_def)
qed

text \<open>
  The big-endian variants move the reversed buffer: at \<open>L\<close> bytes from the end one pointer is at \<open>L - 1\<close>, the other
  at \<open>L\<close> from the end.
\<close>

definition mirrored :: "nat \<Rightarrow> uint16 \<Rightarrow> int \<Rightarrow> int \<Rightarrow> bool" where
  "mirrored n L p p' \<longleftrightarrow> p = int (unat L) - 1 \<and> p' = int n - int (unat L) \<and> unat L \<le> n"

lemma mirrored_start: "unat L = n \<Longrightarrow> mirrored n L (int (unat L) - 1) 0"
  by (simp add: mirrored_def)

lemma mirrored_skip:
  assumes "unat L = n" "m \<le> L"
  shows "mirrored n (L - m) (int (unat L) - 1 - int (unat m)) (0 + int (unat m))"
proof -
  have "unat (L - m) = unat L - unat m" "unat m \<le> unat L" using assms(2) by (simp_all add: unat_sub word_le_nat_alt)
  then show ?thesis using assms(1) unfolding mirrored_def by (simp del: of_nat_unat)
qed

lemma mirrored_step:
  assumes "mirrored n L p p'" "L \<noteq> 0"
  shows "mirrored n (L - 1) (p - 1) (p' + 1)" "nat p < n" "nat p' = n - Suc (nat p)"
proof -
  obtain k where k: "unat L = Suc k" using assms(2) by (metis unat_gt_0 gr0_implies_Suc)
  then have p: "p = int k" "p' = int n - int (Suc k)" "Suc k \<le> n" and m: "unat (L - 1) = k"
    using assms by (simp_all del: of_nat_Suc add: mirrored_def unat_minus_one)
  show "mirrored n (L - 1) (p - 1) (p' + 1)" using p unfolding mirrored_def m by simp
  show "nat p < n" "nat p' = n - Suc (nat p)" using p by simp_all
qed

lemma Write_Stream_BE_rev:
  assumes "unat Length = length Buffer" "\<And>n. BytesProcessed = Some n \<Longrightarrow> n \<le> Length"
  shows "outcome (\<lambda>_. ()) (Endpoint_Write_Stream_BE Buffer Length BytesProcessed evs u) =
    outcome (\<lambda>_. ()) (Endpoint_Write_Stream_LE (rev Buffer) Length BytesProcessed evs u)"
  unfolding Endpoint_Write_Stream_BE_def Endpoint_Write_Stream_LE_def
proof (rule stream_template_outcome [where R = "mirrored (length Buffer)"])
  fix L p p' u assume R: "mirrored (length Buffer) L p p'" "L \<noteq> 0"
  then have "rev Buffer ! nat p' = Buffer ! nat p" using mirrored_step [OF R] by (simp add: rev_nth)
  then show "snd (write_from (rev Buffer) 1 p' u) = snd (write_from Buffer (- 1) p u) \<and>
      mirrored (length Buffer) (L - 1) (fst (write_from Buffer (- 1) p u)) (fst (write_from (rev Buffer) 1 p' u))"
    using mirrored_step [OF R] by (simp add: write_from_def)
qed (rule mirrored_start mirrored_skip refl assms; assumption?)+

lemma Read_Stream_BE_rev:
  assumes "unat Length = length Buffer" "\<And>n. BytesProcessed = Some n \<Longrightarrow> n \<le> Length"
  shows "outcome (rev \<circ> fst) (Endpoint_Read_Stream_BE Buffer Length BytesProcessed evs u) =
    outcome fst (Endpoint_Read_Stream_LE (rev Buffer) Length BytesProcessed evs u)"
  unfolding Endpoint_Read_Stream_BE_def Endpoint_Read_Stream_LE_def
proof (rule stream_template_outcome [where R = "\<lambda>L s s'. mirrored (length Buffer) L (snd s) (snd s') \<and>
    length (fst s) = length Buffer \<and> fst s' = rev (fst s)"])
  fix L and s s' :: "byte list \<times> int" and u
  assume R: "mirrored (length Buffer) L (snd s) (snd s') \<and> length (fst s) = length Buffer \<and> fst s' = rev (fst s)" and L: "L \<noteq> 0"
  obtain b p p' where s: "s = (b, p)" "s' = (rev b, p')" using R by (cases s; cases s') auto
  note m = mirrored_step [of "length Buffer" L p p', OF _ L]
  have "(rev b)[nat p' := x] = rev (b[nat p := x])" for x using R m s by (simp add: rev_update)
  then show "snd (read_to 1 s' u) = snd (read_to (- 1) s u) \<and>
      mirrored (length Buffer) (L - 1) (snd (fst (read_to (- 1) s u))) (snd (fst (read_to 1 s' u))) \<and>
      length (fst (fst (read_to (- 1) s u))) = length Buffer \<and> fst (fst (read_to 1 s' u)) = rev (fst (fst (read_to (- 1) s u)))"
    using R m s by (simp add: read_to_def case_prod_beta Let_def)
qed (use mirrored_start [OF assms(1)] mirrored_skip [OF assms(1) assms(2)] in simp_all)

text \<open>Counting up to the length does what counting down does.\<close>

abbreviation step_byte :: "(usb \<Rightarrow> usb) \<Rightarrow> unit \<Rightarrow> usb \<Rightarrow> unit \<times> usb" where
  "step_byte byte \<equiv> \<lambda>_ u. ((), byte u)"

definition counts_alike :: "uint16 option \<Rightarrow> uint16 \<Rightarrow> uint16 \<Rightarrow> bool" where
  "counts_alike B b k \<longleftrightarrow> (case B of None \<Rightarrow> True | Some n \<Rightarrow> b = n + k)"

lemma counts_alike_step: "counts_alike B b k \<Longrightarrow> counts_alike B (b + 1) (k + 1)"
  by (auto simp: counts_alike_def split: option.splits)

lemma left_to_count:
  assumes "b \<le> Length"
  shows "Length - b = 0 \<longleftrightarrow> \<not> b < Length" "b < Length \<Longrightarrow> b + 1 \<le> Length" "Length - b - (1 :: uint16) = Length - (b + 1)"
  using assms by (auto simp: inc_le)

lemma stream_of_count:
  assumes "count_loop clear byte Length B b evs u = Some (e, B', v, evs1)" "b \<le> Length" "counts_alike B b k"
  shows "stream_loop clear (step_byte byte) (Length - b) B k () evs u = Some (e, B', (), v, evs1)"
proof -
  let ?P = "\<lambda>c g L B b evs u (e, B', v, evs1). c = clear \<longrightarrow> g = byte \<longrightarrow> L = Length \<longrightarrow> (\<forall>k. b \<le> Length \<longrightarrow> counts_alike B b k \<longrightarrow>
    stream_loop clear (step_byte byte) (Length - b) B k () evs u = Some (e, B', (), v, evs1))"
  have "?P clear byte Length B b evs u (e, B', v, evs1)"
  proof (rule count_loop.raw_induct [where P = ?P, OF _ assms(1)])
    fix f c g L B b evs u r
    assume IH: "\<And>c g L B b evs u r. f c g L B b evs u = Some r \<Longrightarrow> ?P c g L B b evs u r"
      and r: "(if \<not> b < L then Some (ENDPOINT_RWSTREAM_NoError, B, u, evs)
      else if \<not> Endpoint_IsReadWriteAllowed u then
        (if B \<noteq> None then Some (ENDPOINT_RWSTREAM_IncompleteTransfer, Some b, c u, evs)
         else do {
           (e, u, evs) \<leftarrow> Endpoint_WaitUntilReady evs (c u);
           if e \<noteq> ENDPOINT_READYWAIT_NoError then Some (stream_code e, B, u, evs)
           else f c g L B b evs u })
      else f c g L B (b + 1) evs (g u)) = Some r"
    obtain e B' v evs1 where x: "r = (e, B', v, evs1)" by (cases r) auto
    have "stream_loop clear (step_byte byte) (Length - b) B k () evs u = Some (e, B', (), v, evs1)"
      if c: "c = clear" "g = byte" "L = Length" and b: "b \<le> Length" and k: "counts_alike B b k" for k
    proof (cases "b < Length \<and> \<not> Endpoint_IsReadWriteAllowed u")
      case True
      then show ?thesis using r x c k b left_to_count [OF b] IH [of clear byte Length B b]
        by (subst stream_loop.simps) (auto simp: counts_alike_def bind_eq_Some_iff split: option.splits if_splits prod.splits)
    next
      case False
      then show ?thesis using r x c left_to_count [OF b] IH [of clear byte Length B "b + 1" evs "byte u" r] counts_alike_step [OF k]
        by (subst stream_loop.simps) (auto simp: left_to_count(3) [OF b] split: if_splits)
    qed
    then show "?P c g L B b evs u r" using x by auto
  qed
  then show ?thesis using assms(2,3) by simp
qed

lemma count_of_stream:
  assumes "stream_loop clear (step_byte byte) N B k s evs u = Some (e, B', s1, v, evs1)" "N = Length - b" "b \<le> Length" "counts_alike B b k"
  shows "count_loop clear byte Length B b evs u = Some (e, B', v, evs1)"
proof -
  let ?P = "\<lambda>c t N B k s evs u (e, B', s1, v, evs1). c = clear \<longrightarrow> t = step_byte byte \<longrightarrow> (\<forall>b. N = Length - b \<longrightarrow> b \<le> Length \<longrightarrow>
    counts_alike B b k \<longrightarrow> count_loop clear byte Length B b evs u = Some (e, B', v, evs1))"
  have "?P clear (step_byte byte) N B k s evs u (e, B', s1, v, evs1)"
  proof (rule stream_loop.raw_induct [where P = ?P, OF _ assms(1)])
    fix f c and t :: "unit \<Rightarrow> usb \<Rightarrow> unit \<times> usb" and L B k s evs u r
    assume IH: "\<And>c t L B k s evs u r. f c t L B k s evs u = Some r \<Longrightarrow> ?P c t L B k s evs u r"
      and r: "(if L = 0 then Some (ENDPOINT_RWSTREAM_NoError, B, s, u, evs)
      else if \<not> Endpoint_IsReadWriteAllowed u then
        (case B of
           Some n \<Rightarrow> Some (ENDPOINT_RWSTREAM_IncompleteTransfer, Some (n + k), s, c u, evs)
         | None \<Rightarrow> do {
             (e, u, evs) \<leftarrow> Endpoint_WaitUntilReady evs (c u);
             if e \<noteq> ENDPOINT_READYWAIT_NoError then Some (stream_code e, B, s, u, evs)
             else f c t L B k s evs u })
      else (let (s, u) = t s u in f c t (L - 1) B (k + 1) s evs u)) = Some r"
    obtain e B' s1 v evs1 where x: "r = (e, B', s1, v, evs1)" by (cases r) auto
    have "count_loop clear byte Length B b evs u = Some (e, B', v, evs1)"
      if c: "c = clear" "t = step_byte byte" "L = Length - b" and b: "b \<le> Length" and k: "counts_alike B b k" for b
    proof (cases "b < Length \<and> \<not> Endpoint_IsReadWriteAllowed u")
      case True
      then show ?thesis using r x c k b left_to_count [OF b] IH [of clear t L B k s]
        by (subst count_loop.simps) (auto simp: counts_alike_def bind_eq_Some_iff split: option.splits if_splits prod.splits)
    next
      case False
      then show ?thesis using r x c left_to_count [OF b] IH [of clear t "L - 1" B "k + 1" "()" evs "byte u" r] counts_alike_step [OF k]
        by (subst count_loop.simps) (auto simp: left_to_count(3) [OF b] split: if_splits)
    qed
    then show "?P c t L B k s evs u r" using x by auto
  qed
  then show ?thesis using assms(2-4) by simp
qed

abbreviation counted :: "(Endpoint_Stream_RW_ErrorCodes_t \<times> uint16 option \<times> usb \<times> bus_event list) option
    \<Rightarrow> (Endpoint_Stream_RW_ErrorCodes_t \<times> uint16 option \<times> unit \<times> usb \<times> bus_event list) option" where
  "counted \<equiv> map_option (\<lambda>(e, B, u, evs). (e, B, (), u, evs))"

lemma count_loop_stream:
  assumes "b \<le> Length" "counts_alike B b k"
  shows "counted (count_loop clear byte Length B b evs u) = stream_loop clear (step_byte byte) (Length - b) B k () evs u"
proof (cases "count_loop clear byte Length B b evs u")
  case None
  have "stream_loop clear (step_byte byte) (Length - b) B k () evs u = None"
  proof (rule ccontr)
    assume "stream_loop clear (step_byte byte) (Length - b) B k () evs u \<noteq> None"
    then obtain e B' v evs1 where "stream_loop clear (step_byte byte) (Length - b) B k () evs u = Some (e, B', (), v, evs1)" by auto
    from count_of_stream [OF this refl assms] None show False by simp
  qed
  then show ?thesis using None by simp
next
  case (Some r)
  then show ?thesis using stream_of_count [of clear byte Length B b evs u] assms by (cases r) auto
qed

lemma count_stream_template:
  assumes "\<And>n. BytesProcessed = Some n \<Longrightarrow> n \<le> Length"
  shows "counted (count_stream clear byte Length BytesProcessed evs u) =
    stream_template clear (step_byte byte) (\<lambda>_ s. s) () Length BytesProcessed evs u"
proof -
  have "counted (count_loop clear byte Length BytesProcessed n evs u) = stream_loop clear (step_byte byte) (Length - n) BytesProcessed 0 () evs u"
    if "BytesProcessed = Some n" for n evs u
    using count_loop_stream [of n Length BytesProcessed 0] assms [OF that] that by (simp add: counts_alike_def)
  moreover have "counted (count_loop clear byte Length BytesProcessed 0 evs u) = stream_loop clear (step_byte byte) Length BytesProcessed 0 () evs u"
    if "BytesProcessed = None" for evs u
    using count_loop_stream [of 0 Length BytesProcessed 0] that by (simp add: counts_alike_def)
  ultimately show ?thesis
    by (cases "Endpoint_WaitUntilReady evs u"; cases BytesProcessed) (auto simp: count_stream_def stream_template_def)
qed

text \<open>Sending zeros is sending a buffer of zeros, discarding is reading into a buffer nobody looks at.\<close>

lemma outcome_unit: "outcome (\<lambda>_. ()) (r :: (Endpoint_Stream_RW_ErrorCodes_t \<times> uint16 option \<times> unit \<times> usb \<times> bus_event list) option) = r"
  by (cases r) (auto simp: outcome_def)

lemma Null_Stream_zeros:
  assumes "\<And>n. BytesProcessed = Some n \<Longrightarrow> n \<le> Length"
  shows "counted (Endpoint_Null_Stream Length BytesProcessed evs u) =
    outcome (\<lambda>_. ()) (Endpoint_Write_Stream_LE (replicate (unat Length) 0) Length BytesProcessed evs u)"
proof -
  let ?R = "\<lambda>L (_ :: unit) p'. mirrored (unat Length) L (int (unat L) - 1) p'"
  have "outcome (\<lambda>_. ()) (stream_template Endpoint_ClearIN (step_byte (Endpoint_Write_8 0)) (\<lambda>_ s. s) () Length BytesProcessed evs u) =
    outcome (\<lambda>_. ()) (stream_template Endpoint_ClearIN (write_from (replicate (unat Length) 0) 1) (\<lambda>n p. p + int n) 0 Length BytesProcessed evs u)"
  proof (rule stream_template_outcome [where R = ?R])
    show "?R Length () 0" by (rule mirrored_start) simp
  next
    fix n assume "BytesProcessed = Some n"
    then show "?R (Length - n) () (0 + int (unat n))" using mirrored_skip [of Length "unat Length" n] assms by (simp add: mirrored_def)
  next
    fix L and s :: unit and p' u assume R: "?R L s p'" "L \<noteq> 0"
    note m = mirrored_step [OF R]
    have "replicate (unat Length) 0 ! nat p' = (0 :: byte)" using m(2,3) by simp
    moreover have "?R (L - 1) s (p' + 1)" using m(1) by (simp add: mirrored_def)
    ultimately show "snd (write_from (replicate (unat Length) 0) 1 p' u) = snd (step_byte (Endpoint_Write_8 0) s u) \<and>
        ?R (L - 1) (fst (step_byte (Endpoint_Write_8 0) s u)) (fst (write_from (replicate (unat Length) 0) 1 p' u))"
      by (simp add: write_from_def)
  qed simp
  then show ?thesis
    by (simp add: outcome_unit Endpoint_Null_Stream_def Endpoint_Write_Stream_LE_def count_stream_template [OF assms])
qed

lemma Discard_Stream_read:
  assumes "\<And>n. BytesProcessed = Some n \<Longrightarrow> n \<le> Length"
  shows "counted (Endpoint_Discard_Stream Length BytesProcessed evs u) =
    outcome (\<lambda>_. ()) (Endpoint_Read_Stream_LE Buffer Length BytesProcessed evs u)"
proof -
  have "outcome (\<lambda>_. ()) (stream_template Endpoint_ClearOUT (step_byte Endpoint_Discard_8) (\<lambda>_ s. s) () Length BytesProcessed evs u) =
    outcome (\<lambda>_. ()) (stream_template Endpoint_ClearOUT (read_to 1) (\<lambda>n. apsnd (\<lambda>p. p + int n)) (Buffer, 0) Length BytesProcessed evs u)"
    by (rule stream_template_outcome [where R = "\<lambda>_ _ _. True"]) (simp_all add: read_to_def Endpoint_Discard_8_def case_prod_beta Let_def)
  then show ?thesis
    by (simp add: outcome_unit Endpoint_Discard_Stream_def Endpoint_Read_Stream_LE_def count_stream_template [OF assms])
qed

section \<open>One packet\<close>

text \<open>A stream that fits into the bank, or that the bank has in full, is moved without handing the bank over.\<close>

lemma write_fits:
  assumes "dir_in (cur u)" "length (bank (cur u)) + length d \<le> bank_size (cur u)" "length d < 65536" "p = int (length c)"
  shows "stream_loop Endpoint_ClearIN (write_from (c @ d) 1) (of_nat (length d)) B k p evs u =
    Some (ENDPOINT_RWSTREAM_NoError, B, p + int (length d), set_cur ((cur u)\<lparr>bank := bank (cur u) @ d\<rparr>) u, evs)"
  using assms
proof (induction d arbitrary: c p k u)
  case Nil
  have "set_cur (cur u) u = u" by (simp add: set_cur_def cur_def)
  then show ?case using Nil by (subst stream_loop.simps) simp
next
  case (Cons b d)
  let ?u = "Endpoint_Write_8 b u"
  have u: "?u = set_cur ((cur u)\<lparr>bank := bank (cur u) @ [b]\<rparr>) u" by (simp add: Endpoint_Write_8_def)
  have cu: "cur ?u = (cur u)\<lparr>bank := bank (cur u) @ [b]\<rparr>" by (simp add: u cur_set_cur)
  have n: "(of_nat (length (b # d)) :: uint16) \<noteq> 0" "(of_nat (length (b # d)) - 1 :: uint16) = of_nat (length d)"
    using unat_of_nat16 [of "length (b # d)"] Cons.prems(3) by (auto simp del: unat_of_nat)
  have i: "write_from (c @ b # d) 1 p u = (p + 1, ?u)" using Cons.prems(4) by (simp add: write_from_def)
  have ih: "stream_loop Endpoint_ClearIN (write_from (c @ b # d) 1) (of_nat (length d)) B (k + 1) (p + 1) evs ?u =
      Some (ENDPOINT_RWSTREAM_NoError, B, p + 1 + int (length d), set_cur ((cur ?u)\<lparr>bank := bank (cur ?u) @ d\<rparr>) ?u, evs)"
    using Cons.IH [of ?u "p + 1" "c @ [b]" "k + 1"] Cons.prems cu by (simp add: dir_in_def bank_size_def)
  have "Endpoint_IsReadWriteAllowed u" using Cons.prems(1,2) by (simp add: Endpoint_IsReadWriteAllowed_def)
  then show ?case using n i ih cu u by (subst stream_loop.simps) (simp add: cur_set_cur)
qed

lemma read_takes:
  assumes "\<not> dir_in (cur u)" "bank (cur u) = d" "length d < 65536" "length c' = length d" "p = int (length c)"
  shows "stream_loop Endpoint_ClearOUT (read_to 1) (of_nat (length d)) B k (c @ c', p) evs u =
    Some (ENDPOINT_RWSTREAM_NoError, B, (c @ d, p + int (length d)), set_cur ((cur u)\<lparr>bank := []\<rparr>) u, evs)"
  using assms
proof (induction d arbitrary: c c' p k u)
  case Nil
  then show ?case by (subst stream_loop.simps) (simp add: set_bank_same)
next
  case (Cons b d)
  let ?u = "set_cur ((cur u)\<lparr>bank := d\<rparr>) u"
  obtain x y where c': "c' = x # y" using Cons.prems(4) by (cases c') auto
  have cu: "cur ?u = (cur u)\<lparr>bank := d\<rparr>" by (simp add: cur_set_cur)
  have n: "(of_nat (length (b # d)) :: uint16) \<noteq> 0" "(of_nat (length (b # d)) - 1 :: uint16) = of_nat (length d)"
    using unat_of_nat16 [of "length (b # d)"] Cons.prems(3) by (auto simp del: unat_of_nat)
  have i: "read_to 1 (c @ c', p) u = (((c @ [b]) @ y, p + 1), ?u)"
    using Cons.prems(2,5) by (simp add: read_to_def Read_8_Cons c')
  have ih: "stream_loop Endpoint_ClearOUT (read_to 1) (of_nat (length d)) B (k + 1) ((c @ [b]) @ y, p + 1) evs ?u =
      Some (ENDPOINT_RWSTREAM_NoError, B, ((c @ [b]) @ d, p + 1 + int (length d)), set_cur ((cur ?u)\<lparr>bank := []\<rparr>) ?u, evs)"
    using Cons.IH [of ?u y "p + 1" "c @ [b]" "k + 1"] Cons.prems cu c' by (simp add: dir_in_def)
  have "Endpoint_IsReadWriteAllowed u" using Cons.prems(1,2) by (simp add: Endpoint_IsReadWriteAllowed_def)
  then show ?case using n i ih cu by (subst stream_loop.simps) (simp add: cur_set_cur)
qed


lemma ready_immediately:
  assumes "ready_now u"
  shows "Endpoint_WaitUntilReady evs u = Some (ENDPOINT_READYWAIT_NoError, u, evs)"
  using assms by (cases evs) (simp_all add: Endpoint_WaitUntilReady_def ready_poll_def)

lemma Write_Stream_fits:
  assumes "ready_now u" "dir_in (cur u)" "length (bank (cur u)) + length d \<le> bank_size (cur u)" "length d < 65536"
  shows "Endpoint_Write_Stream_LE d (of_nat (length d)) None evs u =
    Some (ENDPOINT_RWSTREAM_NoError, None, int (length d), set_cur ((cur u)\<lparr>bank := bank (cur u) @ d\<rparr>) u, evs)"
  using assms write_fits [of u d 0 "[]"]
  by (simp add: Endpoint_Write_Stream_LE_def stream_template_def ready_immediately)

lemma Read_Stream_takes:
  assumes "ready_now u" "\<not> dir_in (cur u)" "bank (cur u) = d" "length d < 65536" "length c' = length d"
  shows "Endpoint_Read_Stream_LE c' (of_nat (length d)) None evs u =
    Some (ENDPOINT_RWSTREAM_NoError, None, (d, int (length d)), set_cur ((cur u)\<lparr>bank := []\<rparr>) u, evs)"
  using assms read_takes [of u d c' 0 "[]"]
  by (simp add: Endpoint_Read_Stream_LE_def stream_template_def ready_immediately)

text \<open>An IN endpoint whose bank has gone becomes ready when the host has taken it.\<close>

lemma wait_token:
  assumes "dir_in (cur u)" "UENUM u = n" "USB_DeviceState u = DEVICE_STATE_Configured" "\<not> Endpoint_IsStalled u"
  shows "wait_ready t (UDFNUM u) (replicate k Idle @ IN_token n # evs) u =
    Some (ENDPOINT_READYWAIT_NoError, if ready_now u then u else set_cur ((cur u)\<lparr>UEINTX := UEINTX (cur u) OR TXINI\<rparr>) u,
      if ready_now u then replicate k Idle @ IN_token n # evs else evs)"
proof (induction k)
  case 0
  let ?v = "set_cur ((cur u)\<lparr>UEINTX := UEINTX (cur u) OR TXINI\<rparr>) u"
  have "bus_step (IN_token n) u = Some ?v" using assms(2) by (simp add: set_ep_def set_cur_def cur_def)
  moreover have "ready_now ?v" using assms(1) or_mask_nonzero [of TXINI]
    by (simp add: ready_now_def Endpoint_GetEndpointDirection_def cur_set_cur dir_in_def Endpoint_IsINReady_def TXINI_def)
  ultimately show ?case using assms by (cases evs) (simp_all add: ready_poll_def)
next
  case (Suc k)
  then show ?case using assms by (auto simp: ready_poll_def)
qed


lemma ClearIN_IN: "dir_in (cur u) \<Longrightarrow> Endpoint_ClearIN u =
    set_cur ((cur u)\<lparr>UEINTX := UEINTX (cur u) AND NOT (TXINI OR FIFOCON), bank := [], to_host := to_host (cur u) @ [bank (cur u)]\<rparr>) u"
  by (simp add: Endpoint_ClearIN_def Let_def dir_in_def send_bank_def)

text \<open>Writing, sending and waiting on a free IN endpoint, as the echo task does it.\<close>

lemma send_packet:
  assumes "dir_in (cur u)" "bank (cur u) = []" "ready_now u" "length d \<le> bank_size (cur u)" "length d < 65536"
    "USB_DeviceState u = DEVICE_STATE_Configured" "\<not> Endpoint_IsStalled u"
  shows "\<exists>w v. Endpoint_Write_Stream_LE d (of_nat (length d)) None evs u = Some (ENDPOINT_RWSTREAM_NoError, None, int (length d), w, evs) \<and>
    Endpoint_WaitUntilReady (replicate k Idle @ IN_token (UENUM u) # evs') (Endpoint_ClearIN w) = Some (ENDPOINT_READYWAIT_NoError, v, evs') \<and>
    (\<exists>i. v = set_cur ((cur u)\<lparr>UEINTX := i, to_host := to_host (cur u) @ [d]\<rparr>) u)"
proof -
  let ?w = "set_cur ((cur u)\<lparr>bank := d\<rparr>) u"
  let ?c = "set_cur ((cur u)\<lparr>UEINTX := UEINTX (cur u) AND NOT (TXINI OR FIFOCON), bank := [], to_host := to_host (cur u) @ [d]\<rparr>) u"
  let ?v = "set_cur ((cur ?c)\<lparr>UEINTX := UEINTX (cur ?c) OR TXINI\<rparr>) ?c"
  have w: "Endpoint_Write_Stream_LE d (of_nat (length d)) None evs u = Some (ENDPOINT_RWSTREAM_NoError, None, int (length d), ?w, evs)"
    using Write_Stream_fits [of u d evs] assms by simp
  have c: "Endpoint_ClearIN ?w = ?c" using assms(1) by (subst ClearIN_IN) (simp_all add: cur_set_cur dir_in_def)
  have "dir_in (cur ?c)" "UENUM ?c = UENUM u" "USB_DeviceState ?c = DEVICE_STATE_Configured" "\<not> Endpoint_IsStalled ?c"
    using assms(1,6,7) by (simp_all add: cur_set_cur dir_in_def Endpoint_IsStalled_def) (simp add: set_cur_def)
  note t = wait_token [OF this, of USB_STREAM_TIMEOUT_MS k evs']
  have "\<not> ready_now ?c" using assms(1)
    by (simp add: ready_now_def Endpoint_GetEndpointDirection_def cur_set_cur dir_in_def Endpoint_IsINReady_def TXINI_def FIFOCON_def eq8 bit_simps)
  then have "Endpoint_WaitUntilReady (replicate k Idle @ IN_token (UENUM u) # evs') ?c = Some (ENDPOINT_READYWAIT_NoError, ?v, evs')"
    using t by (simp add: Endpoint_WaitUntilReady_def)
  moreover have "?v = set_cur ((cur u)\<lparr>UEINTX := (UEINTX (cur u) AND NOT (TXINI OR FIFOCON)) OR TXINI, to_host := to_host (cur u) @ [d]\<rparr>) u"
    using assms(2) by (cases "cur u") (simp add: cur_set_cur)
  ultimately show ?thesis using w c by metis
qed

lemma echo_packet:
  assumes "link_ok u" "USB_DeviceState u = DEVICE_STATE_Configured" "UEINTX (eps u 2) AND RXOUTI \<noteq> 0" "UEINTX (eps u 1) AND TXINI \<noteq> 0"
    "UECONX (eps u 1) AND STALLRQ = 0" "bank (eps u 2) = d" "length d \<le> bank_size (eps u 1)"
  shows "\<exists>v. USB_Echo_Task (replicate k Idle @ IN_token 1 # evs) u = Some v \<and> link_ok v \<and>
    to_host (eps v 1) = to_host (eps u 1) @ [d, []] \<and> UEINTX (eps v 2) AND RXOUTI = 0 \<and>
    in_bytes v = in_bytes u \<and> out_bytes v = out_bytes u"
proof -
  let ?evs = "replicate k Idle @ IN_token 1 # evs"
  have d16: "length d \<le> 16" and c: "UECFG0X (eps u 1) = 0x81" "UECFG0X (eps u 2) = 0x80" "bank (eps u 1) = []"
    using assms(1,6) by (auto simp: link_ok_def)
  have n: "unat (of_nat (length d) :: uint16) = length d" using d16 by (intro unat_of_nat16) simp
  let ?a = "u\<lparr>UENUM := 2\<rparr>"
  let ?e2 = "(eps u 2)\<lparr>UEINTX := UEINTX (eps u 2) AND NOT (RXOUTI OR FIFOCON), bank := []\<rparr>"
  let ?b = "u\<lparr>UENUM := 1, eps := (eps u)(2 := ?e2)\<rparr>"
  have a: "Endpoint_SelectEndpoint CDC_RX_EPADDR u = ?a" "cur ?a = eps u 2" "\<not> dir_in (cur ?a)"
    by (simp_all add: Endpoint_SelectEndpoint_def cur_def dir_in_def EPDIR_def c)
  moreover have "ready_now ?a"
    using a assms(3) by (simp add: ready_now_def Endpoint_GetEndpointDirection_def ENDPOINT_DIR_IN_def Endpoint_IsOUTReceived_def)
  ultimately have r: "Endpoint_Read_Stream_LE (replicate (length d) 0) (of_nat (length d)) None ?evs ?a =
      Some (ENDPOINT_RWSTREAM_NoError, None, (d, int (length d)), set_cur ((cur ?a)\<lparr>bank := []\<rparr>) ?a, ?evs)"
    using d16 assms(6) by (intro Read_Stream_takes) simp_all
  have b: "Endpoint_SelectEndpoint CDC_TX_EPADDR (Endpoint_ClearOUT (set_cur ((cur ?a)\<lparr>bank := []\<rparr>) ?a)) = ?b"
    using c by (simp add: endpoint_defs Let_def)
  have cb: "cur ?b = eps u 1" "dir_in (cur ?b)" by (simp_all add: cur_def dir_in_def EPDIR_def c)
  then have "ready_now ?b" using assms(4) by (simp add: ready_now_def Endpoint_GetEndpointDirection_def Endpoint_IsINReady_def)
  moreover have "\<not> Endpoint_IsStalled ?b" using assms(5) cb by (simp add: Endpoint_IsStalled_def)
  ultimately obtain w v i where
    w: "Endpoint_Write_Stream_LE d (of_nat (length d)) None ?evs ?b = Some (ENDPOINT_RWSTREAM_NoError, None, int (length d), w, ?evs)"
    and v: "Endpoint_WaitUntilReady ?evs (Endpoint_ClearIN w) = Some (ENDPOINT_READYWAIT_NoError, v, evs)"
    and vi: "v = set_cur ((eps u 1)\<lparr>UEINTX := i, to_host := to_host (eps u 1) @ [d]\<rparr>) ?b"
    using send_packet [of ?b d ?evs k evs] cb c d16 assms(2,7) by auto
  have "Endpoint_IsOUTReceived ?a" "Endpoint_BytesInEndpoint ?a = of_nat (length d)"
    using a assms(3,6) by (simp_all add: Endpoint_IsOUTReceived_def Endpoint_BytesInEndpoint_def)
  then have "USB_Echo_Task ?evs u = Some (Endpoint_ClearIN v)"
    using r b w v assms(2) n by (simp add: USB_Echo_Task_def Let_def a(1))
  moreover have "Endpoint_ClearIN v = u\<lparr>UENUM := 1, eps := (eps u)(2 := ?e2, 1 := (eps u 1)\<lparr>UEINTX := i AND NOT (TXINI OR FIFOCON),
      bank := [], to_host := to_host (eps u 1) @ [d, []]\<rparr>)\<rparr>"
    using cb c(3) unfolding vi by (subst ClearIN_IN) (simp_all add: cur_set_cur dir_in_def, simp add: set_cur_def)
  ultimately show ?thesis using assms(1) mask_cleared [of "UEINTX (eps u 2)"] mask_kept [of "UEINTX (eps u 2)"]
    by (simp add: link_ok_def usb_wf_def in_bytes_def out_bytes_def)
qed

text \<open>C25 (functional). The echo task sends a received packet back to the host unchanged, closes it with an empty packet as
  soon as the host has taken it, after any number of polls within a frame, and frees the receiving endpoint; the byte queues
  are not involved.\<close>

theorem echo_returns_packet:
  assumes "link_ok u" "USB_DeviceState u = DEVICE_STATE_Configured" "UEINTX (eps u 2) AND RXOUTI \<noteq> 0" "UEINTX (eps u 1) AND TXINI \<noteq> 0"
    "UECONX (eps u 1) AND STALLRQ = 0" "bank (eps u 2) = d" "length d \<le> bank_size (eps u 1)"
  shows "\<exists>v. USB_Echo_Task (replicate k Idle @ IN_token 1 # evs) u = Some v \<and> link_ok v \<and>
    to_host (eps v 1) = to_host (eps u 1) @ [d, []] \<and> UEINTX (eps v 2) AND RXOUTI = 0 \<and>
    in_bytes v = in_bytes u \<and> out_bytes v = out_bytes u"
  by (rule echo_packet [OF assms])

theorem echo_returns_packet_witness:
  "\<exists>v. USB_Echo_Task [Idle, Idle, IN_token 1] (usb_example [72, 105]) = Some v \<and> to_host (eps v 1) = [[72, 105], []]"
proof -
  have "UECONX (eps (usb_example [72, 105]) 1) AND STALLRQ = 0" "to_host (eps (usb_example [72, 105]) 1) = []"
    "length [72, 105 :: byte] \<le> bank_size (eps (usb_example [72, 105]) 1)"
    by (simp_all add: usb_example_def usb_zero_def endpoint_zero_def bank_size_def)
  then show ?thesis using echo_returns_packet [of "usb_example [72, 105]" "[72, 105]" 2 "[]"] usb_example_ok [of "[72, 105]"]
    by (auto simp: numeral_2_eq_2)
qed

end
