(* ===== verification/Usb_Variants.thy ===== *)
theory Usb_Variants
  imports Usb_Transfer
begin

text \<open>
  What remains of the device side of the library: the control streams in both byte orders, as their templates have them,
  with a pointer (\<^verbatim>\<open>Template_Endpoint_Control_W.c\<close>, \<^verbatim>\<open>Template_Endpoint_Control_R.c\<close>), the streams for flash memory
  and EEPROM (\<^verbatim>\<open>EndpointStream_AVR8.c\<close>), and the functions whose effect lies in the hardware, which is an argument
  (\<^verbatim>\<open>Endpoint_AVR8\<close>, \<^verbatim>\<open>Device_AVR8.c\<close>). The lemmas show that the little-endian instances of the templates are the functions
  of \<^verbatim>\<open>Usb_Stream\<close> on lists, that the big-endian ones move the reversed buffer, that aborting ends and what clearing leaves.
\<close>

section \<open>Control streams by pointer\<close>

text \<open>\<open>load\<close> is the access to the memory of the buffer, \<open>d\<close> the direction in which the pointer moves.\<close>

fun fill_from :: "(int \<Rightarrow> byte) \<Rightarrow> int \<Rightarrow> nat \<Rightarrow> int \<Rightarrow> uint16 \<Rightarrow> usb \<Rightarrow> int \<times> nat \<times> uint16 \<times> usb" where
  "fill_from load d 0 DataStream BytesInEndpoint u = (DataStream, 0, BytesInEndpoint, u)"
| "fill_from load d (Suc Length) DataStream BytesInEndpoint u =
     (if BytesInEndpoint < CONTROL_ENDPOINT_SIZE
      then fill_from load d Length (DataStream + d) (BytesInEndpoint + 1) (Endpoint_Write_8 (load DataStream) u)
      else (DataStream, Suc Length, BytesInEndpoint, u))"

fun control_write_from :: "(int \<Rightarrow> byte) \<Rightarrow> int \<Rightarrow> nat \<Rightarrow> int \<Rightarrow> bool \<Rightarrow> bus_event list \<Rightarrow> usb
    \<Rightarrow> (Endpoint_ControlStream_RW_ErrorCodes_t option \<times> usb \<times> bus_event list) option" where
  "control_write_from load d Length DataStream LastPacketFull [] u =
     (if Length = 0 \<and> \<not> LastPacketFull then Some (None, u, []) else None)"
| "control_write_from load d Length DataStream LastPacketFull (ev # evs) u =
     (if Length = 0 \<and> \<not> LastPacketFull then Some (None, u, ev # evs)
      else do {
        u \<leftarrow> bus_step ev u;
        case control_error u of
          Some e \<Rightarrow> Some (Some e, u, evs)
        | None \<Rightarrow>
            if Endpoint_IsOUTReceived u then Some (None, u, evs)
            else if Endpoint_IsINReady u then
              (let (DataStream, Length, BytesInEndpoint, u) = fill_from load d Length DataStream (Endpoint_BytesInEndpoint u) u;
                   LastPacketFull = (BytesInEndpoint = CONTROL_ENDPOINT_SIZE);
                   u = Endpoint_ClearIN u
               in control_write_from load d Length DataStream LastPacketFull evs u)
            else control_write_from load d Length DataStream LastPacketFull evs u })"

definition control_write_template :: "(int \<Rightarrow> byte) \<Rightarrow> int \<Rightarrow> int \<Rightarrow> uint16 \<Rightarrow> bus_event list \<Rightarrow> usb
    \<Rightarrow> (Endpoint_ControlStream_RW_ErrorCodes_t \<times> usb \<times> bus_event list) option" where
  "control_write_template load d DataStream Length evs u =
     (let (Length, u) =
            (if wLength (USB_ControlRequest u) < Length then (wLength (USB_ControlRequest u), u)
             else if Length = 0 then (Length, Endpoint_ClearIN u) else (Length, u))
      in do {
        (e, u, evs) \<leftarrow> control_write_from load d (unat Length) DataStream False evs u;
        case e of Some e \<Rightarrow> Some (e, u, evs) | None \<Rightarrow> control_status evs u })"

definition Endpoint_Write_Control_Stream_BE :: "byte list \<Rightarrow> uint16 \<Rightarrow> bus_event list \<Rightarrow> usb
    \<Rightarrow> (Endpoint_ControlStream_RW_ErrorCodes_t \<times> usb \<times> bus_event list) option" where
  "Endpoint_Write_Control_Stream_BE Buffer Length =
     control_write_template (\<lambda>p. Buffer ! nat p) (- 1) (int (unat Length) - 1) Length"

fun drain_to :: "int \<Rightarrow> nat \<Rightarrow> byte list \<times> int \<Rightarrow> usb \<Rightarrow> (byte list \<times> int) \<times> nat \<times> usb" where
  "drain_to d 0 s u = (s, 0, u)"
| "drain_to d (Suc Length) s u =
     (if Endpoint_BytesInEndpoint u \<noteq> 0 then (let (s, u) = read_to d s u in drain_to d Length s u)
      else (s, Suc Length, u))"

fun control_read_to :: "int \<Rightarrow> nat \<Rightarrow> byte list \<times> int \<Rightarrow> bus_event list \<Rightarrow> usb
    \<Rightarrow> ((byte list \<times> int) \<times> Endpoint_ControlStream_RW_ErrorCodes_t option \<times> usb \<times> bus_event list) option" where
  "control_read_to d Length s [] u = (if Length = 0 then Some (s, None, u, []) else None)"
| "control_read_to d Length s (ev # evs) u =
     (if Length = 0 then Some (s, None, u, ev # evs)
      else do {
        u \<leftarrow> bus_step ev u;
        case control_error u of
          Some e \<Rightarrow> Some (s, Some e, u, evs)
        | None \<Rightarrow>
            if Endpoint_IsOUTReceived u then
              (let (s, Length, u) = drain_to d Length s u in control_read_to d Length s evs (Endpoint_ClearOUT u))
            else control_read_to d Length s evs u })"

definition control_read_template :: "int \<Rightarrow> int \<Rightarrow> byte list \<Rightarrow> uint16 \<Rightarrow> bus_event list \<Rightarrow> usb
    \<Rightarrow> (byte list \<times> Endpoint_ControlStream_RW_ErrorCodes_t \<times> usb \<times> bus_event list) option" where
  "control_read_template d DataStream Buffer Length evs u = do {
     let u = (if Length = 0 then Endpoint_ClearOUT u else u);
     ((Buffer, _), e, u, evs) \<leftarrow> control_read_to d (unat Length) (Buffer, DataStream) evs u;
     case e of
       Some e \<Rightarrow> Some (Buffer, e, u, evs)
     | None \<Rightarrow> do {
         (u, evs) \<leftarrow> wait_until (\<lambda>u. Endpoint_IsINReady u \<or> control_in_error u \<noteq> None) evs u;
         Some (Buffer, if Endpoint_IsINReady u then ENDPOINT_RWCSTREAM_NoError else the (control_in_error u), u, evs) } }"

definition Endpoint_Read_Control_Stream_BE :: "byte list \<Rightarrow> uint16 \<Rightarrow> bus_event list \<Rightarrow> usb
    \<Rightarrow> (byte list \<times> Endpoint_ControlStream_RW_ErrorCodes_t \<times> usb \<times> bus_event list) option" where
  "Endpoint_Read_Control_Stream_BE Buffer Length = control_read_template (- 1) (int (unat Length) - 1) Buffer Length"

section \<open>Streams from and to other memories\<close>

text \<open>
  Flash memory and EEPROM are arrays of bytes like the working memory; the variants differ only in how they load and
  store a byte. \<^verbatim>\<open>eeprom_update_byte\<close> writes a byte unless it is there already.
\<close>

definition Endpoint_Write_PStream_LE :: "byte list \<Rightarrow> uint16 \<Rightarrow> uint16 option \<Rightarrow> bus_event list \<Rightarrow> usb
    \<Rightarrow> (Endpoint_Stream_RW_ErrorCodes_t \<times> uint16 option \<times> int \<times> usb \<times> bus_event list) option" where
  "Endpoint_Write_PStream_LE = Endpoint_Write_Stream_LE"

definition Endpoint_Write_PStream_BE :: "byte list \<Rightarrow> uint16 \<Rightarrow> uint16 option \<Rightarrow> bus_event list \<Rightarrow> usb
    \<Rightarrow> (Endpoint_Stream_RW_ErrorCodes_t \<times> uint16 option \<times> int \<times> usb \<times> bus_event list) option" where
  "Endpoint_Write_PStream_BE = Endpoint_Write_Stream_BE"

definition Endpoint_Write_EStream_LE :: "byte list \<Rightarrow> uint16 \<Rightarrow> uint16 option \<Rightarrow> bus_event list \<Rightarrow> usb
    \<Rightarrow> (Endpoint_Stream_RW_ErrorCodes_t \<times> uint16 option \<times> int \<times> usb \<times> bus_event list) option" where
  "Endpoint_Write_EStream_LE = Endpoint_Write_Stream_LE"

definition Endpoint_Write_EStream_BE :: "byte list \<Rightarrow> uint16 \<Rightarrow> uint16 option \<Rightarrow> bus_event list \<Rightarrow> usb
    \<Rightarrow> (Endpoint_Stream_RW_ErrorCodes_t \<times> uint16 option \<times> int \<times> usb \<times> bus_event list) option" where
  "Endpoint_Write_EStream_BE = Endpoint_Write_Stream_BE"

definition Endpoint_Read_EStream_LE :: "byte list \<Rightarrow> uint16 \<Rightarrow> uint16 option \<Rightarrow> bus_event list \<Rightarrow> usb
    \<Rightarrow> (Endpoint_Stream_RW_ErrorCodes_t \<times> uint16 option \<times> (byte list \<times> int) \<times> usb \<times> bus_event list) option" where
  "Endpoint_Read_EStream_LE = Endpoint_Read_Stream_LE"

definition Endpoint_Read_EStream_BE :: "byte list \<Rightarrow> uint16 \<Rightarrow> uint16 option \<Rightarrow> bus_event list \<Rightarrow> usb
    \<Rightarrow> (Endpoint_Stream_RW_ErrorCodes_t \<times> uint16 option \<times> (byte list \<times> int) \<times> usb \<times> bus_event list) option" where
  "Endpoint_Read_EStream_BE = Endpoint_Read_Stream_BE"

definition Endpoint_Write_Control_PStream_BE :: "byte list \<Rightarrow> uint16 \<Rightarrow> bus_event list \<Rightarrow> usb
    \<Rightarrow> (Endpoint_ControlStream_RW_ErrorCodes_t \<times> usb \<times> bus_event list) option" where
  "Endpoint_Write_Control_PStream_BE = Endpoint_Write_Control_Stream_BE"

definition Endpoint_Write_Control_EStream_LE :: "byte list \<Rightarrow> uint16 \<Rightarrow> bus_event list \<Rightarrow> usb
    \<Rightarrow> (Endpoint_ControlStream_RW_ErrorCodes_t \<times> usb \<times> bus_event list) option" where
  "Endpoint_Write_Control_EStream_LE Buffer = control_write_template (\<lambda>p. Buffer ! nat p) 1 0"

definition Endpoint_Write_Control_EStream_BE :: "byte list \<Rightarrow> uint16 \<Rightarrow> bus_event list \<Rightarrow> usb
    \<Rightarrow> (Endpoint_ControlStream_RW_ErrorCodes_t \<times> usb \<times> bus_event list) option" where
  "Endpoint_Write_Control_EStream_BE = Endpoint_Write_Control_Stream_BE"

definition Endpoint_Read_Control_EStream_LE :: "byte list \<Rightarrow> uint16 \<Rightarrow> bus_event list \<Rightarrow> usb
    \<Rightarrow> (byte list \<times> Endpoint_ControlStream_RW_ErrorCodes_t \<times> usb \<times> bus_event list) option" where
  "Endpoint_Read_Control_EStream_LE = control_read_template 1 0"

definition Endpoint_Read_Control_EStream_BE :: "byte list \<Rightarrow> uint16 \<Rightarrow> bus_event list \<Rightarrow> usb
    \<Rightarrow> (byte list \<times> Endpoint_ControlStream_RW_ErrorCodes_t \<times> usb \<times> bus_event list) option" where
  "Endpoint_Read_Control_EStream_BE = Endpoint_Read_Control_Stream_BE"

section \<open>Commands to the hardware\<close>

text \<open>
  \<open>UEINT\<close> is read-only: bit \<open>n\<close> is set while endpoint \<open>n\<close> has a flag of \<open>UEINTX\<close> whose interrupt is enabled in \<open>UEIENX\<close>, or
  an overflow or underflow (\<open>UESTA0X\<close>) with \<open>FLERRE\<close>. Writing it in \<open>Endpoint_ClearEndpoints\<close> has no effect.
\<close>

definition interrupting :: "endpoint \<Rightarrow> bool" where
  "interrupting e \<longleftrightarrow> UEINTX e AND UEIENX e AND 0x5F \<noteq> 0 \<or> (UEIENX e AND bv 7 \<noteq> 0 \<and> UESTA0X e AND 0x60 \<noteq> 0)"

definition UEINT :: "usb \<Rightarrow> uint8" where
  "UEINT u = fold (\<lambda>n w. if interrupting (eps u (of_nat n)) then w OR bv n else w) [0..<unat ENDPOINT_TOTAL_ENDPOINTS] 0"

definition Endpoint_GetEndpointInterrupts :: "usb \<Rightarrow> uint8" where
  "Endpoint_GetEndpointInterrupts u = UEINT u"

definition Endpoint_HasEndpointInterrupted :: "uint8 \<Rightarrow> usb \<Rightarrow> bool" where
  "Endpoint_HasEndpointInterrupted addr u \<longleftrightarrow>
     Endpoint_GetEndpointInterrupts u AND bv (unat (addr AND ENDPOINT_EPNUM_MASK)) \<noteq> 0"

text \<open>What the hardware does with the bank when all flags are cleared at once is an argument.\<close>

definition clear_endpoint :: "(endpoint \<Rightarrow> endpoint) \<Rightarrow> uint8 \<Rightarrow> usb \<Rightarrow> usb" where
  "clear_endpoint flags_cleared EPNum u =
     (let u = Endpoint_SelectEndpoint EPNum u;
          u = set_cur ((cur u)\<lparr>UEIENX := 0\<rparr>) u;
          u = set_cur (flags_cleared ((cur u)\<lparr>UEINTX := 0\<rparr>)) u;
          u = write_UECFG1X 0 u
      in Endpoint_DisableEndpoint u)"

definition Endpoint_ClearEndpoints :: "(endpoint \<Rightarrow> endpoint) \<Rightarrow> usb \<Rightarrow> usb" where
  "Endpoint_ClearEndpoints flags_cleared u =
     fold (clear_endpoint flags_cleared) (map of_nat [0..<unat ENDPOINT_TOTAL_ENDPOINTS]) u"

definition Endpoint_GetBusyBanks :: "usb \<Rightarrow> uint8" where
  "Endpoint_GetBusyBanks u = UESTA0X (cur u) AND 0x03"

text \<open>
  Setting \<open>RXOUTI\<close> of an IN endpoint kills its last bank. \<open>kill_bank\<close> is the endpoint when the hardware has cleared the bit
  again, \<^const>\<open>None\<close> if it never does.
\<close>

partial_function (option) Endpoint_AbortPendingIN :: "(endpoint \<Rightarrow> endpoint option) \<Rightarrow> usb \<Rightarrow> usb option" where
  "Endpoint_AbortPendingIN kill_bank u =
     (if Endpoint_GetBusyBanks u = 0 then Some u
      else do {
        e \<leftarrow> kill_bank ((cur u)\<lparr>UEINTX := UEINTX (cur u) OR RXOUTI\<rparr>);
        Endpoint_AbortPendingIN kill_bank (set_cur e u) })"

text \<open>The hardware clears \<open>RMWKUP\<close> when it has sent the signal (\<open>sent\<close>).\<close>

definition USB_Device_SendRemoteWakeup :: "bool \<Rightarrow> usb \<Rightarrow> usb option" where
  "USB_Device_SendRemoteWakeup sent u = do {
     u \<leftarrow> USB_PLL_wait (USB_PLL_On u);
     let u = USB_CLK_Unfreeze u;
     let u = u\<lparr>UDCON := UDCON u OR bv 1\<rparr>;
     if sent then Some (u\<lparr>UDCON := UDCON u AND NOT (bv 1)\<rparr>) else None }"

definition USB_Controller_Enable :: "usb \<Rightarrow> usb" where
  "USB_Controller_Enable u = u\<lparr>USBCON := USBCON u OR bv 7\<rparr>"

section \<open>The templates\<close>

text \<open>The bytes that a pointer meets on its way.\<close>

fun ahead :: "(int \<Rightarrow> byte) \<Rightarrow> int \<Rightarrow> int \<Rightarrow> nat \<Rightarrow> byte list" where
  "ahead load d p 0 = []"
| "ahead load d p (Suc n) = load p # ahead load d (p + d) n"

lemma ahead_Nil [simp]: "ahead load d p n = [] \<longleftrightarrow> n = 0"
  by (cases n) simp_all

lemma fill_from_bank:
  "fill_from load d n p k u = (q, m, k', v) \<Longrightarrow> fill_bank (ahead load d p n) k u = (ahead load d q m, k', v)"
  by (induction load d n p k u rule: fill_from.induct) (auto split: if_splits)

lemma control_write_from_bytes:
  "control_write_from load d n p full evs u = control_write (ahead load d p n) full evs u"
proof (induction evs arbitrary: n p full u)
  case (Cons ev evs)
  have "(case fill_from load d n p k w of (q, m, k', v) \<Rightarrow> control_write_from load d m q (k' = CONTROL_ENDPOINT_SIZE) evs (Endpoint_ClearIN v)) =
      (case fill_bank (ahead load d p n) k w of (ds, k', v) \<Rightarrow> control_write ds (k' = CONTROL_ENDPOINT_SIZE) evs (Endpoint_ClearIN v))" for w k
  proof -
    obtain q m k' v where f: "fill_from load d n p k w = (q, m, k', v)" by (metis surj_pair)
    then show ?thesis using fill_from_bank [OF f] Cons.IH by simp
  qed
  then show ?case using Cons.IH by (cases "bus_step ev u") (simp_all add: Let_def split: option.split)
qed simp

lemma ahead_index: "ahead (\<lambda>p. xs ! nat p) 1 (int k) n = map (\<lambda>i. xs ! (k + i)) [0..<n]"
proof (induction n arbitrary: k)
  case (Suc n)
  have "ahead (\<lambda>p. xs ! nat p) 1 (int (Suc k)) n = map (\<lambda>i. xs ! (Suc k + i)) [0..<n]" by (rule Suc)
  then show ?case by (simp add: map_upt_Suc add.commute del: upt_Suc)
qed simp

lemma ahead_take: "n \<le> length xs \<Longrightarrow> ahead (\<lambda>p. xs ! nat p) 1 0 n = take n xs"
  using ahead_index [of xs 0 n] by (simp add: list_eq_iff_nth_eq)

lemma ahead_rev:
  "n \<le> length xs \<Longrightarrow> k \<le> n \<Longrightarrow> ahead (\<lambda>p. xs ! nat p) (- 1) (int n - 1) k = take k (rev (take n xs))"
proof (induction n arbitrary: k)
  case (Suc n)
  show ?case
  proof (cases k)
    case (Suc j)
    then show ?thesis using Suc.IH [of j] Suc.prems by (simp add: take_Suc_conv_app_nth)
  qed simp
qed simp

text \<open>The little-endian instance of the template is the function that the firmware calls; the big-endian one sends the reversed buffer.\<close>

lemma control_write_template_bytes:
  assumes "length Buffer < 65536" "\<And>k. k \<le> length Buffer \<Longrightarrow> ahead load d p k = take k Buffer"
  shows "control_write_template load d p (of_nat (length Buffer)) evs u = Endpoint_Write_Control_Stream_LE Buffer evs u"
proof -
  have n: "unat (of_nat (length Buffer) :: uint16) = length Buffer" using assms(1) by (simp add: unat_of_nat)
  have "wLength (USB_ControlRequest u) < of_nat (length Buffer) \<longleftrightarrow> unat (wLength (USB_ControlRequest u)) < length Buffer"
    unfolding word_less_nat_alt n ..
  moreover have "(of_nat (length Buffer) :: uint16) = 0 \<longleftrightarrow> Buffer = []" using n by (metis length_0_conv unat_eq_zero)
  ultimately show ?thesis using n assms(2)
    by (simp add: control_write_template_def Endpoint_Write_Control_Stream_LE_def control_write_from_bytes)
qed

lemma Write_Control_Stream_template:
  "length Buffer < 65536 \<Longrightarrow> control_write_template (\<lambda>p. Buffer ! nat p) 1 0 (of_nat (length Buffer)) evs u =
    Endpoint_Write_Control_Stream_LE Buffer evs u"
  by (rule control_write_template_bytes) (simp_all add: ahead_take)

lemma Write_Control_Stream_BE_rev:
  assumes "length Buffer < 65536"
  shows "Endpoint_Write_Control_Stream_BE Buffer (of_nat (length Buffer)) evs u = Endpoint_Write_Control_Stream_LE (rev Buffer) evs u"
proof -
  have "unat (of_nat (length Buffer) :: uint16) = length Buffer" using assms by (simp add: unat_of_nat)
  then show ?thesis using control_write_template_bytes [of "rev Buffer" "\<lambda>p. Buffer ! nat p" "- 1" "int (length Buffer) - 1" evs u] assms
      ahead_rev [of "length Buffer" Buffer]
    by (simp add: Endpoint_Write_Control_Stream_BE_def del: of_nat_unat)
qed

fun store :: "int \<Rightarrow> byte list \<Rightarrow> byte list \<times> int \<Rightarrow> byte list \<times> int" where
  "store d [] s = s"
| "store d (b # bs) s = store d bs ((fst s)[nat (snd s) := b], snd s + d)"

lemma store_append [simp]: "store d (xs @ ys) s = store d ys (store d xs s)"
  by (induction xs arbitrary: s) simp_all

lemma drain_to_bank: "drain_bank n u = (bs, m, v) \<Longrightarrow> drain_to d n s u = (store d bs s, m, v)"
  by (induction n arbitrary: s u bs) (auto simp: read_to_def Let_def split: if_splits prod.splits)

lemma drain_bank_length: "drain_bank n u = (bs, m, v) \<Longrightarrow> length bs + m = n"
  by (induction n arbitrary: u bs) (auto split: if_splits prod.splits)

lemma control_read_length: "control_read n evs u = Some (bs, e, v, evs') \<Longrightarrow> length bs \<le> n"
proof (induction evs arbitrary: n u bs)
  case (Cons ev evs)
  then show ?case
    by (fastforce simp: bind_eq_Some_iff split: if_splits option.splits prod.splits dest: drain_bank_length)
qed (auto split: if_splits)

lemma control_read_to_bytes:
  "control_read_to d n s evs u = map_option (\<lambda>(bs, e, v, evs). (store d bs s, e, v, evs)) (control_read n evs u)"
proof (induction evs arbitrary: n s u)
  case (Cons ev evs)
  have "(case drain_to d n s w of (t, m, v) \<Rightarrow> control_read_to d m t evs (Endpoint_ClearOUT v)) =
    map_option (\<lambda>(bs, e, v, evs). (store d bs s, e, v, evs))
      (case drain_bank n w of (bs, m, v) \<Rightarrow> do { (cs, e, v, evs) \<leftarrow> control_read m evs (Endpoint_ClearOUT v); Some (bs @ cs, e, v, evs) })" for w
  proof -
    obtain bs m v where b: "drain_bank n w = (bs, m, v)" by (metis surj_pair)
    then show ?thesis using Cons.IH drain_to_bank [OF b, of d s] by (cases "control_read m evs (Endpoint_ClearOUT v)") auto
  qed
  then show ?case using Cons.IH by (cases "bus_step ev u") (simp_all add: Let_def split: option.split)
qed simp

lemma store_up: "k + length bs \<le> length buf \<Longrightarrow> fst (store 1 bs (buf, int k)) = take k buf @ bs @ drop (k + length bs) buf"
proof (induction bs arbitrary: buf k)
  case (Cons b bs)
  then show ?case using Cons.IH [of "Suc k" "buf[k := b]"]
    by (simp add: take_Suc_conv_app_nth add.commute)
qed simp

lemma store_down:
  "length bs \<le> n \<Longrightarrow> n \<le> length buf \<Longrightarrow> fst (store (- 1) bs (buf, int n - 1)) = take (n - length bs) buf @ rev bs @ drop n buf"
proof (induction bs arbitrary: buf n)
  case (Cons b bs)
  then obtain m where m: "n = Suc m" by (cases n) auto
  then show ?case using Cons.IH [of m "buf[m := b]"] Cons.prems by (simp add: Cons_nth_drop_Suc [symmetric])
qed simp

lemma control_read_template_bytes:
  assumes n: "unat Length = length Buffer" and g: "\<And>bs. length bs \<le> length Buffer \<Longrightarrow> fst (store d bs (Buffer, p)) = g bs"
  shows "control_read_template d p Buffer Length evs u =
    map_option (\<lambda>(bs, e, v, evs). (g bs, e, v, evs)) (Endpoint_Read_Control_Stream_LE (length Buffer) evs u)"
proof -
  define w where "w = (if Buffer = [] then Endpoint_ClearOUT u else u)"
  have w: "(if Length = 0 then Endpoint_ClearOUT u else u) = w" using n by (metis w_def length_0_conv unat_eq_zero)
  show ?thesis
  proof (cases "control_read (length Buffer) evs w")
    case None
    then show ?thesis using w n
      by (simp add: control_read_template_def Endpoint_Read_Control_Stream_LE_def control_read_to_bytes w_def)
  next
    case (Some r)
    obtain bs e v evs' where r: "r = (bs, e, v, evs')" by (cases r)
    then have "store d bs (Buffer, p) = (g bs, snd (store d bs (Buffer, p)))"
      using g [OF control_read_length [OF Some [unfolded r]]] by (simp add: prod_eq_iff)
    then show ?thesis using Some r w n
      by (cases e; cases "wait_until (\<lambda>u. Endpoint_IsINReady u \<or> control_in_error u \<noteq> None) evs' v")
        (auto simp: control_read_template_def Endpoint_Read_Control_Stream_LE_def control_read_to_bytes w_def split: prod.splits)
  qed
qed

lemma Read_Control_Stream_template:
  "unat Length = length Buffer \<Longrightarrow> control_read_template 1 0 Buffer Length evs u =
    map_option (\<lambda>(bs, e, v, evs). (bs @ drop (length bs) Buffer, e, v, evs)) (Endpoint_Read_Control_Stream_LE (length Buffer) evs u)"
  using store_up [of 0 _ Buffer] by (intro control_read_template_bytes) simp_all

lemma Read_Control_Stream_BE_rev:
  assumes "unat Length = length Buffer"
  shows "Endpoint_Read_Control_Stream_BE Buffer Length evs u =
    map_option (\<lambda>(bs, e, v, evs). (take (length Buffer - length bs) Buffer @ rev bs, e, v, evs))
      (Endpoint_Read_Control_Stream_LE (length Buffer) evs u)"
  unfolding Endpoint_Read_Control_Stream_BE_def assms using store_down [of _ "length Buffer" Buffer] assms
  by (intro control_read_template_bytes) simp_all

section \<open>Clearing and aborting\<close>

text \<open>Aborting ends when every kill lowers the number of busy banks, and leaves none busy.\<close>

lemma Endpoint_AbortPendingIN_ends:
  assumes kill: "\<And>e. UESTA0X e AND 3 \<noteq> 0 \<Longrightarrow> \<exists>e'. kill_bank e = Some e' \<and> UESTA0X e' AND 3 < UESTA0X e AND 3"
  shows "\<exists>v. Endpoint_AbortPendingIN kill_bank u = Some v \<and> Endpoint_GetBusyBanks v = 0 \<and> (\<forall>m. m \<noteq> UENUM u \<longrightarrow> eps v m = eps u m)"
proof (induction "unat (Endpoint_GetBusyBanks u)" arbitrary: u rule: less_induct)
  case less
  show ?case
  proof (cases "Endpoint_GetBusyBanks u = 0")
    case True
    then show ?thesis by (simp add: Endpoint_AbortPendingIN.simps)
  next
    case False
    let ?e = "(cur u)\<lparr>UEINTX := UEINTX (cur u) OR RXOUTI\<rparr>"
    obtain e' where e': "kill_bank ?e = Some e'" "UESTA0X e' AND 3 < UESTA0X ?e AND 3"
      using kill [of ?e] False by (auto simp: Endpoint_GetBusyBanks_def)
    then have "unat (Endpoint_GetBusyBanks (set_cur e' u)) < unat (Endpoint_GetBusyBanks u)"
      by (simp add: Endpoint_GetBusyBanks_def cur_set_cur word_less_nat_alt)
    from less [OF this] show ?thesis using False e'(1)
      by (subst Endpoint_AbortPendingIN.simps) (auto simp: set_cur_def)
  qed
qed

text \<open>After clearing the endpoints none is enabled, configured or able to interrupt, and nothing else has changed.\<close>

definition cleared :: "endpoint \<Rightarrow> bool" where
  "cleared e \<longleftrightarrow> UEIENX e = 0 \<and> UEINTX e = 0 \<and> UECFG1X e = 0 \<and> UECONX e AND EPEN = 0 \<and> UESTA0X e AND CFGOK = 0"

definition keeps_registers :: "(endpoint \<Rightarrow> endpoint) \<Rightarrow> bool" where
  "keeps_registers f \<longleftrightarrow> (\<forall>e. \<exists>b t. f e = e\<lparr>bank := b, to_host := t\<rparr>)"

lemma clear_endpoint_cleared:
  assumes "keeps_registers f" "n < 16"
  shows "cleared (eps (clear_endpoint f n u) n)" "m \<noteq> n \<Longrightarrow> eps (clear_endpoint f n u) m = eps u m"
    "driver (clear_endpoint f n u) = driver u"
proof -
  have n: "n AND ENDPOINT_EPNUM_MASK = n"
    using assms(2) less_mask_eq [of n 4] by (simp add: ENDPOINT_EPNUM_MASK_def mask_eq_exp_minus_1)
  obtain b t where "f ((eps u n)\<lparr>UEIENX := 0, UEINTX := 0\<rparr>) = (eps u n)\<lparr>UEIENX := 0, UEINTX := 0, bank := b, to_host := t\<rparr>"
    using assms(1) unfolding keeps_registers_def by metis
  then have c: "clear_endpoint f n u = u\<lparr>UENUM := n, eps := (eps u)(n := (eps u n)\<lparr>UEIENX := 0, UEINTX := 0, bank := b, to_host := t,
      UECFG1X := 0, UESTA0X := UESTA0X (eps u n) AND NOT CFGOK, UECONX := UECONX (eps u n) AND NOT EPEN\<rparr>)\<rparr>"
    by (simp add: clear_endpoint_def Endpoint_SelectEndpoint_def set_cur_def cur_def write_UECFG1X_def Endpoint_DisableEndpoint_def n Let_def)
  show "cleared (eps (clear_endpoint f n u) n)" "m \<noteq> n \<Longrightarrow> eps (clear_endpoint f n u) m = eps u m" "driver (clear_endpoint f n u) = driver u"
    by (simp_all add: c cleared_def driver_def and.assoc)
qed

lemma clear_fold:
  assumes "keeps_registers f"
  shows "list_all (\<lambda>n. n < 16) ns \<Longrightarrow> (\<forall>n\<in>set ns. cleared (eps (fold (clear_endpoint f) ns u) n)) \<and>
    (\<forall>m. m \<notin> set ns \<longrightarrow> eps (fold (clear_endpoint f) ns u) m = eps u m) \<and> driver (fold (clear_endpoint f) ns u) = driver u"
proof (induction ns rule: rev_induct)
  case (snoc n ns)
  then show ?case using clear_endpoint_cleared [where n = n and u = "fold (clear_endpoint f) ns u", OF assms] by auto metis
qed simp

lemma Endpoint_ClearEndpoints_cleared:
  assumes "keeps_registers f" "n < ENDPOINT_TOTAL_ENDPOINTS"
  shows "cleared (eps (Endpoint_ClearEndpoints f u) n)" "driver (Endpoint_ClearEndpoints f u) = driver u"
proof -
  let ?ns = "map of_nat [0..<unat ENDPOINT_TOTAL_ENDPOINTS] :: uint8 list"
  have "list_all (\<lambda>n. n < 16) ?ns" by (simp add: ENDPOINT_TOTAL_ENDPOINTS_def upt_rec)
  moreover have "n \<in> set ?ns" using assms(2) by (force simp: word_less_nat_alt intro: image_eqI [of _ _ "unat n"])
  ultimately show "cleared (eps (Endpoint_ClearEndpoints f u) n)" "driver (Endpoint_ClearEndpoints f u) = driver u"
    using clear_fold [OF assms(1)] by (simp_all add: Endpoint_ClearEndpoints_def)
qed

text \<open>The interrupt register has exactly the bits of the endpoints that interrupt.\<close>

lemma UEINT_bits:
  assumes "n < 7"
  shows "UEINT u AND bv n \<noteq> 0 \<longleftrightarrow> interrupting (eps u (of_nat n))"
proof -
  have "bit (fold (\<lambda>n w. if interrupting (eps u (of_nat n)) then w OR bv n else w) ns (w :: uint8)) n \<longleftrightarrow>
      bit w n \<or> n \<in> set ns \<and> interrupting (eps u (of_nat n))" for ns w
    using assms by (induction ns arbitrary: w) (auto simp: bv_def bit_simps)
  then show ?thesis using assms
    by (simp add: UEINT_def bv_def and_exp_eq_0_iff_not_bit ENDPOINT_TOTAL_ENDPOINTS_def)
qed

end
