(* ===== verification/Config_Search.thy ===== *)
theory Config_Search
  imports Usb_Device
begin

text \<open>
  \<^verbatim>\<open>ConfigDescriptors.c\<close>, \<^verbatim>\<open>ConfigDescriptors.h\<close>: walking a configuration descriptor. The buffer is a list of bytes and the
  current location an offset into it; reading a header outside the buffer is \<^const>\<open>None\<close>, as is a search that never
  ends.
\<close>

section \<open>The searches\<close>

definition DESCRIPTOR_SIZE :: "byte list \<Rightarrow> nat \<Rightarrow> uint8 option" where
  "DESCRIPTOR_SIZE d p = (if p < length d then Some (d ! p) else None)"

definition DESCRIPTOR_TYPE :: "byte list \<Rightarrow> nat \<Rightarrow> uint8 option" where
  "DESCRIPTOR_TYPE d p = (if p + 1 < length d then Some (d ! (p + 1)) else None)"

text \<open>The bytes that remain and the current location.\<close>

type_synonym config_pos = "uint16 \<times> nat"

definition USB_GetNextDescriptor :: "byte list \<Rightarrow> config_pos \<Rightarrow> config_pos option" where
  "USB_GetNextDescriptor d s = (case s of (BytesRem, CurrConfigLoc) \<Rightarrow> do {
     n \<leftarrow> DESCRIPTOR_SIZE d CurrConfigLoc;
     let CurrDescriptorSize = (ucast n :: uint16);
     let CurrDescriptorSize = (if BytesRem < CurrDescriptorSize then BytesRem else CurrDescriptorSize);
     Some (BytesRem - CurrDescriptorSize, CurrConfigLoc + unat CurrDescriptorSize) })"

partial_function (option) USB_GetNextDescriptorOfType :: "byte list \<Rightarrow> uint8 \<Rightarrow> config_pos \<Rightarrow> config_pos option" where
  "USB_GetNextDescriptorOfType d Type s =
     (if fst s = 0 then Some s
      else do {
        s \<leftarrow> USB_GetNextDescriptor d s;
        t \<leftarrow> DESCRIPTOR_TYPE d (snd s);
        if t = Type then Some s else USB_GetNextDescriptorOfType d Type s })"

partial_function (option) USB_GetNextDescriptorOfTypeBefore :: "byte list \<Rightarrow> uint8 \<Rightarrow> uint8 \<Rightarrow> config_pos \<Rightarrow> config_pos option" where
  "USB_GetNextDescriptorOfTypeBefore d Type BeforeType s =
     (if fst s = 0 then Some s
      else do {
        s \<leftarrow> USB_GetNextDescriptor d s;
        t \<leftarrow> DESCRIPTOR_TYPE d (snd s);
        if t = Type then Some s
        else if t = BeforeType then Some (0, snd s)
        else USB_GetNextDescriptorOfTypeBefore d Type BeforeType s })"

definition USB_GetNextDescriptorOfTypeAfter :: "byte list \<Rightarrow> uint8 \<Rightarrow> uint8 \<Rightarrow> config_pos \<Rightarrow> config_pos option" where
  "USB_GetNextDescriptorOfTypeAfter d Type AfterType s = do {
     s \<leftarrow> USB_GetNextDescriptorOfType d AfterType s;
     if fst s \<noteq> 0 then USB_GetNextDescriptorOfType d Type s else Some s }"

datatype DSearch_Return_ErrorCodes_t = DESCRIPTOR_SEARCH_Found | DESCRIPTOR_SEARCH_Fail | DESCRIPTOR_SEARCH_NotFound

datatype DSearch_Comp_Return_ErrorCodes_t = DESCRIPTOR_SEARCH_COMP_Found | DESCRIPTOR_SEARCH_COMP_Fail
  | DESCRIPTOR_SEARCH_COMP_EndOfDescriptor

text \<open>The comparator is an argument; it reads the buffer at the current location.\<close>

partial_function (option) USB_GetNextDescriptorComp ::
    "byte list \<Rightarrow> (byte list \<Rightarrow> nat \<Rightarrow> DSearch_Return_ErrorCodes_t option) \<Rightarrow> config_pos
      \<Rightarrow> (DSearch_Comp_Return_ErrorCodes_t \<times> config_pos) option" where
  "USB_GetNextDescriptorComp d ComparatorRoutine s =
     (if fst s = 0 then Some (DESCRIPTOR_SEARCH_COMP_EndOfDescriptor, s)
      else do {
        let prev = s;
        s \<leftarrow> USB_GetNextDescriptor d s;
        ErrorCode \<leftarrow> ComparatorRoutine d (snd s);
        case ErrorCode of
          DESCRIPTOR_SEARCH_NotFound \<Rightarrow> USB_GetNextDescriptorComp d ComparatorRoutine s
        | DESCRIPTOR_SEARCH_Fail \<Rightarrow> Some (DESCRIPTOR_SEARCH_COMP_Fail, prev)
        | DESCRIPTOR_SEARCH_Found \<Rightarrow> Some (DESCRIPTOR_SEARCH_COMP_Found, s) })"

section \<open>Well-formed buffers\<close>

text \<open>A buffer that is a sequence of descriptors, each beginning with its length and its type.\<close>

definition is_descriptor :: "byte list \<Rightarrow> bool" where
  "is_descriptor x \<longleftrightarrow> 2 \<le> length x \<and> unat (x ! 0) = length x"

definition config_wf :: "byte list list \<Rightarrow> bool" where
  "config_wf ds \<longleftrightarrow> list_all is_descriptor ds \<and> length (concat ds) < 65536"

definition descriptor_type :: "byte list \<Rightarrow> uint8" where
  "descriptor_type x = x ! 1"

text \<open>The position of the descriptors \<open>ds\<close> behind \<open>pre\<close>.\<close>

definition pos :: "byte list list \<Rightarrow> byte list list \<Rightarrow> config_pos" where
  "pos pre ds = (of_nat (length (concat ds)), length (concat pre))"

lemma next_descriptor:
  assumes "config_wf (pre @ x # ds)"
  shows "USB_GetNextDescriptor (concat (pre @ x # ds)) (pos pre (x # ds)) = Some (pos (pre @ [x]) ds)"
proof -
  have x: "2 \<le> length x" "unat (x ! 0) = length x" and l: "length x + length (concat ds) < 65536"
    using assms by (simp_all add: config_wf_def is_descriptor_def)
  have n: "(ucast (x ! 0) :: uint16) = of_nat (length x)" using x(2) by (metis of_nat_unat)
  have r: "unat (of_nat (length x) :: uint16) = length x" using l by (intro unat_of_nat16) simp
  have "unat (of_nat (length x + length (concat ds)) :: uint16) = length x + length (concat ds)" using l by (intro unat_of_nat16) simp
  then have "\<not> (of_nat (length x + length (concat ds)) :: uint16) < of_nat (length x)" using r by (simp add: word_less_nat_alt)
  moreover have "concat (pre @ x # ds) ! length (concat pre) = x ! 0" using x(1) by (cases x) (simp_all add: nth_append)
  moreover have "x \<noteq> []" using x(1) by auto
  ultimately show ?thesis using n r by (simp add: USB_GetNextDescriptor_def DESCRIPTOR_SIZE_def pos_def)
qed

lemma type_at:
  assumes "config_wf (pre @ x # ds)"
  shows "DESCRIPTOR_TYPE (concat (pre @ x # ds)) (snd (pos pre (x # ds))) = Some (descriptor_type x)"
  using assms by (simp add: descriptor_type_def config_wf_def is_descriptor_def DESCRIPTOR_TYPE_def pos_def nth_append)

lemma type_at_end: "DESCRIPTOR_TYPE (concat ds) (snd (pos ds [])) = None"
  by (simp add: DESCRIPTOR_TYPE_def pos_def)

lemma pos_nonempty:
  assumes "config_wf (pre @ x # ds)"
  shows "fst (pos pre (x # ds)) \<noteq> 0"
proof -
  have "unat (of_nat (length (concat (x # ds))) :: uint16) = length (concat (x # ds))"
    using assms by (intro unat_of_nat16) (simp add: config_wf_def)
  moreover have "length (concat (x # ds)) \<noteq> 0" using assms by (auto simp: config_wf_def is_descriptor_def)
  ultimately show ?thesis unfolding pos_def by (metis fst_conv unat_0)
qed

lemmas walk = next_descriptor type_at type_at_end pos_nonempty

text \<open>
  The search skips the current descriptor and stops at the first one behind it that has the type. Without a match
  it reads the header behind the end of the buffer.
\<close>

lemma search_of_type:
  assumes "config_wf (pre @ x # ds)"
  shows "USB_GetNextDescriptorOfType (concat (pre @ x # ds)) t (pos pre (x # ds)) =
    (case dropWhile (\<lambda>z. descriptor_type z \<noteq> t) ds of [] \<Rightarrow> None | y # post \<Rightarrow> Some (pos (pre @ x # takeWhile (\<lambda>z. descriptor_type z \<noteq> t) ds) (y # post)))"
  using assms
proof (induction ds arbitrary: pre x)
  case Nil
  then show ?case using walk(1,4) [of pre x "[]"] type_at_end [of "pre @ [x]"]
    by (subst USB_GetNextDescriptorOfType.simps) simp
next
  case (Cons z ds)
  then show ?case using walk(1,4) [of pre x "z # ds"] type_at [of "pre @ [x]" z ds] Cons.IH [of "pre @ [x]" z]
    by (subst USB_GetNextDescriptorOfType.simps, cases "descriptor_type z = t") (simp_all cong: list.case_cong)
qed

text \<open>The search that a second type ends, with nothing remaining.\<close>

lemma search_before:
  assumes "config_wf (pre @ x # ds)"
  shows "USB_GetNextDescriptorOfTypeBefore (concat (pre @ x # ds)) t b (pos pre (x # ds)) =
    (case dropWhile (\<lambda>z. descriptor_type z \<noteq> t \<and> descriptor_type z \<noteq> b) ds of [] \<Rightarrow> None
     | y # post \<Rightarrow> let p = pos (pre @ x # takeWhile (\<lambda>z. descriptor_type z \<noteq> t \<and> descriptor_type z \<noteq> b) ds) (y # post)
                   in Some (if descriptor_type y = t then p else (0, snd p)))"
  using assms
proof (induction ds arbitrary: pre x)
  case Nil
  then show ?case using walk(1,4) [of pre x "[]"] type_at_end [of "pre @ [x]"]
    by (subst USB_GetNextDescriptorOfTypeBefore.simps) simp
next
  case (Cons z ds)
  then show ?case using walk(1,4) [of pre x "z # ds"] type_at [of "pre @ [x]" z ds] Cons.IH [of "pre @ [x]" z]
    by (subst USB_GetNextDescriptorOfTypeBefore.simps, cases "descriptor_type z = t"; cases "descriptor_type z = b")
      (simp_all add: Let_def cong: list.case_cong)
qed

text \<open>A comparator that only asks for the type does the same search and tells what it found.\<close>

definition of_type_comparator :: "uint8 \<Rightarrow> byte list \<Rightarrow> nat \<Rightarrow> DSearch_Return_ErrorCodes_t option" where
  "of_type_comparator t d p =
     map_option (\<lambda>u. if u = t then DESCRIPTOR_SEARCH_Found else DESCRIPTOR_SEARCH_NotFound) (DESCRIPTOR_TYPE d p)"

lemma search_comparator:
  assumes "fst s \<noteq> 0"
  shows "USB_GetNextDescriptorComp d (of_type_comparator t) s =
    (case USB_GetNextDescriptor d s of None \<Rightarrow> None
     | Some s' \<Rightarrow> (case DESCRIPTOR_TYPE d (snd s') of None \<Rightarrow> None
        | Some u \<Rightarrow> if u = t then Some (DESCRIPTOR_SEARCH_COMP_Found, s') else USB_GetNextDescriptorComp d (of_type_comparator t) s'))"
  using assms by (subst USB_GetNextDescriptorComp.simps) (simp add: of_type_comparator_def split: option.split bind_split)

lemma comparator_search:
  assumes "config_wf (pre @ x # ds)"
  shows "USB_GetNextDescriptorComp (concat (pre @ x # ds)) (of_type_comparator t) (pos pre (x # ds)) =
    map_option (Pair DESCRIPTOR_SEARCH_COMP_Found) (USB_GetNextDescriptorOfType (concat (pre @ x # ds)) t (pos pre (x # ds)))"
  using assms
proof (induction ds arbitrary: pre x)
  case Nil
  then show ?case using walk(1,4) [of pre x "[]"] type_at_end [of "pre @ [x]"] search_comparator [of "pos pre [x]"]
    by (subst USB_GetNextDescriptorOfType.simps) simp
next
  case (Cons z ds)
  then show ?case using walk(1,4) [of pre x "z # ds"] type_at [of "pre @ [x]" z ds] Cons.IH [of "pre @ [x]" z]
      search_comparator [of "pos pre (x # z # ds)"]
    by (subst USB_GetNextDescriptorOfType.simps) simp
qed

text \<open>An empty descriptor stops every search from going on.\<close>

lemma empty_descriptor_diverges:
  assumes "p + 1 < length d" "d ! p = 0" "d ! (p + 1) \<noteq> t" "n \<noteq> 0"
  shows "USB_GetNextDescriptorOfType d t (n, p) = None"
proof (rule ccontr)
  assume "USB_GetNextDescriptorOfType d t (n, p) \<noteq> None"
  then obtain r where r: "USB_GetNextDescriptorOfType d t (n, p) = Some r" by auto
  have stay: "USB_GetNextDescriptor d (n, p) = Some (n, p)" "DESCRIPTOR_TYPE d p = Some (d ! (p + 1))"
    using assms(1,2) by (simp_all add: USB_GetNextDescriptor_def DESCRIPTOR_SIZE_def DESCRIPTOR_TYPE_def)
  have "d = d \<longrightarrow> t = t \<longrightarrow> (n, p) = (n, p) \<longrightarrow> False"
  proof (rule USB_GetNextDescriptorOfType.raw_induct [where P = "\<lambda>d' t' s r. d' = d \<longrightarrow> t' = t \<longrightarrow> s = (n, p) \<longrightarrow> False", OF _ r])
    fix f d' t' and s y :: config_pos
    assume IH: "\<And>d' t' s y. f d' t' s = Some y \<Longrightarrow> d' = d \<longrightarrow> t' = t \<longrightarrow> s = (n, p) \<longrightarrow> False"
      and y: "(if fst s = 0 then Some s
        else do { s \<leftarrow> USB_GetNextDescriptor d' s; ty \<leftarrow> DESCRIPTOR_TYPE d' (snd s); if ty = t' then Some s else f d' t' s }) = Some y"
    show "d' = d \<longrightarrow> t' = t \<longrightarrow> s = (n, p) \<longrightarrow> False"
      using y stay assms(3,4) IH [of d t "(n, p)" y] by auto
  qed
  then show False by simp
qed

section \<open>What a search finds\<close>

text \<open>C24 (equivalence). In a buffer that is a sequence of descriptors the pointer walk finds what the list function finds: the first
  descriptor of the type behind the current one, with the right number of bytes left. Without one it reads outside the
  buffer. The search with a comparator that asks for the type does the same.\<close>

theorem search_finds_first:
  assumes "config_wf (pre @ x # ds)"
  shows "USB_GetNextDescriptorOfType (concat (pre @ x # ds)) t (pos pre (x # ds)) =
      (case dropWhile (\<lambda>z. descriptor_type z \<noteq> t) ds of [] \<Rightarrow> None
       | y # post \<Rightarrow> Some (pos (pre @ x # takeWhile (\<lambda>z. descriptor_type z \<noteq> t) ds) (y # post))) \<and>
    USB_GetNextDescriptorComp (concat (pre @ x # ds)) (of_type_comparator t) (pos pre (x # ds)) =
      map_option (Pair DESCRIPTOR_SEARCH_COMP_Found) (USB_GetNextDescriptorOfType (concat (pre @ x # ds)) t (pos pre (x # ds)))"
  using search_of_type [OF assms] comparator_search [OF assms] by blast

theorem search_finds_first_witness: "USB_GetNextDescriptorOfType ConfigurationDescriptor DTYPE_Endpoint (62, 0) = Some (30, 32)"
proof -
  let ?ds = "ConfigurationDescriptor_parts"
  have "config_wf ([] @ hd ?ds # tl ?ds)"
    by (simp add: config_wf_def is_descriptor_def descriptor_defs le16_def)
  from search_finds_first [OF this, of DTYPE_Endpoint] show ?thesis
    by (simp add: descriptor_defs le16_def pos_def
      descriptor_type_def DTYPE_Endpoint_def DTYPE_Interface_def DTYPE_Configuration_def CDC_DTYPE_CSInterface_def)
qed

end
