(* ===== verification/HID_Parser.thy ===== *)
theory HID_Parser
  imports Zumo_Prelude
begin

text \<open>
  The parser of HID report descriptors (\<^verbatim>\<open>HIDParser.c\<close>, \<^verbatim>\<open>HIDParser.h\<close>) and the macros that write such descriptors
  (\<^verbatim>\<open>HIDReportData.h\<close>, \<^verbatim>\<open>HIDClassCommon.h\<close>). The makefile compiles the parser into the firmware. An array is a list of its
  length, a pointer into an array an index, a null pointer \<^const>\<open>None\<close>; access outside an array is undefined
  (\<open>cell\<close>, \<open>put\<close>). Values that the code never initialises are \<^const>\<open>None\<close>. The filter of the application is an argument.
\<close>

section \<open>Arrays\<close>

definition cell :: "'a list \<Rightarrow> nat \<Rightarrow> 'a option" where
  "cell xs i = (if i < length xs then Some (xs ! i) else None)"

definition put :: "nat \<Rightarrow> 'a \<Rightarrow> 'a list \<Rightarrow> 'a list option" where
  "put i x xs = (if i < length xs then Some (xs[i := x]) else None)"

text \<open>The used part of an array of \<open>n\<close> elements after an element was added; undefined when the array has no room for it.\<close>

definition grow :: "nat \<Rightarrow> 'a list \<Rightarrow> 'a list option" where
  "grow n xs = (if length xs \<le> n then Some xs else None)"

section \<open>Data\<close>

definition HID_STATETABLE_STACK_DEPTH :: nat where "HID_STATETABLE_STACK_DEPTH = 2"
definition HID_USAGE_STACK_DEPTH :: nat where "HID_USAGE_STACK_DEPTH = 8"
definition HID_MAX_COLLECTIONS :: nat where "HID_MAX_COLLECTIONS = 10"
definition HID_MAX_REPORTITEMS :: uint8 where "HID_MAX_REPORTITEMS = 20"
definition HID_MAX_REPORT_IDS :: uint8 where "HID_MAX_REPORT_IDS = 10"

datatype HID_Parse_ErrorCodes_t = HID_PARSE_Successful | HID_PARSE_HIDStackOverflow | HID_PARSE_HIDStackUnderflow
  | HID_PARSE_InsufficientReportItems | HID_PARSE_UnexpectedEndCollection | HID_PARSE_InsufficientCollectionPaths
  | HID_PARSE_UsageListOverflow | HID_PARSE_InsufficientReportIDItems | HID_PARSE_NoUnfilteredReportItems

datatype HID_ReportItemTypes_t = HID_REPORT_ITEM_In | HID_REPORT_ITEM_Out | HID_REPORT_ITEM_Feature

record HID_MinMax_t =
  Minimum :: uint32
  Maximum :: uint32

record HID_Unit_t =
  UnitType :: uint32
  Exponent :: uint8

record HID_Usage_t =
  Page :: uint16
  Usage :: uint16

record HID_CollectionPath_t =
  PathType :: uint8
  PathUsage :: HID_Usage_t
  Parent :: "nat option"

record HID_ReportItem_Attributes_t =
  BitSize :: uint8
  ItemUsage :: HID_Usage_t
  Unit :: HID_Unit_t
  Logical :: HID_MinMax_t
  Physical :: HID_MinMax_t

record HID_ReportItem_t =
  BitOffset :: uint16
  ItemType :: HID_ReportItemTypes_t
  ItemFlags :: uint16
  ItemReportID :: uint8
  CollectionPath :: "nat option"
  Attributes :: HID_ReportItem_Attributes_t
  Value :: "uint32 option"
  PreviousValue :: "uint32 option"

record HID_ReportSizeInfo_t =
  SizeReportID :: uint8
  ReportSizeBits :: "HID_ReportItemTypes_t \<Rightarrow> uint16"

record HID_ReportInfo_t =
  TotalReportItems :: uint8
  ReportItems :: "HID_ReportItem_t list"
  CollectionPaths :: "HID_CollectionPath_t list"
  TotalDeviceReports :: uint8
  ReportIDSizes :: "HID_ReportSizeInfo_t list"
  LargestReportSizeBits :: uint16
  UsingReportIDs :: bool

record HID_StateTable_t =
  StateAttributes :: HID_ReportItem_Attributes_t
  ReportCount :: uint8
  StateReportID :: uint8

text \<open>The structures that \<open>memset\<close> has cleared.\<close>

definition usage_zero :: HID_Usage_t where "usage_zero = \<lparr>Page = 0, Usage = 0\<rparr>"
definition minmax_zero :: HID_MinMax_t where "minmax_zero = \<lparr>Minimum = 0, Maximum = 0\<rparr>"

definition attributes_zero :: HID_ReportItem_Attributes_t where
  "attributes_zero = \<lparr>BitSize = 0, ItemUsage = usage_zero, Unit = \<lparr>UnitType = 0, Exponent = 0\<rparr>,
     Logical = minmax_zero, Physical = minmax_zero\<rparr>"

definition item_zero :: HID_ReportItem_t where
  "item_zero = \<lparr>BitOffset = 0, ItemType = HID_REPORT_ITEM_In, ItemFlags = 0, ItemReportID = 0, CollectionPath = None,
     Attributes = attributes_zero, Value = Some 0, PreviousValue = Some 0\<rparr>"

definition size_zero :: HID_ReportSizeInfo_t where "size_zero = \<lparr>SizeReportID = 0, ReportSizeBits = (\<lambda>_. 0)\<rparr>"

definition info_zero :: HID_ReportInfo_t where
  "info_zero = \<lparr>TotalReportItems = 0, ReportItems = replicate (unat HID_MAX_REPORTITEMS) item_zero,
     CollectionPaths = replicate HID_MAX_COLLECTIONS \<lparr>PathType = 0, PathUsage = usage_zero, Parent = None\<rparr>,
     TotalDeviceReports = 0, ReportIDSizes = replicate (unat HID_MAX_REPORT_IDS) size_zero, LargestReportSizeBits = 0,
     UsingReportIDs = False\<rparr>"

definition table_zero :: HID_StateTable_t where
  "table_zero = \<lparr>StateAttributes = attributes_zero, ReportCount = 0, StateReportID = 0\<rparr>"

text \<open>
  The local variables. \<open>StateTable\<close> up to the current entry is \<open>Saved\<close> (the entry below the current one first) and
  \<open>Current\<close>; the first \<open>UsageListSize\<close> entries of the usage list are \<open>UsageList\<close>.
\<close>

record hid_parser =
  Current :: HID_StateTable_t
  Saved :: "HID_StateTable_t list"
  CurrCollectionPath :: "nat option"
  CurrReportIDInfo :: nat
  UsageList :: "uint16 list"
  UsageMinMax :: HID_MinMax_t
  ParserData :: HID_ReportInfo_t

definition parser_start :: hid_parser where
  "parser_start = \<lparr>Current = table_zero, Saved = [], CurrCollectionPath = None, CurrReportIDInfo = 0, UsageList = [],
     UsageMinMax = minmax_zero, ParserData = info_zero\<lparr>TotalDeviceReports := 1\<rparr>\<rparr>"

section \<open>Writing descriptors\<close>

definition HID_RI_DATA_SIZE_MASK :: uint8 where "HID_RI_DATA_SIZE_MASK = 0x03"
definition HID_RI_TYPE_MASK :: uint8 where "HID_RI_TYPE_MASK = 0x0C"
definition HID_RI_TAG_MASK :: uint8 where "HID_RI_TAG_MASK = 0xF0"
definition HID_RI_TYPE_MAIN :: uint8 where "HID_RI_TYPE_MAIN = 0x00"
definition HID_IOF_CONSTANT :: uint32 where "HID_IOF_CONSTANT = 0x01"

datatype HID_RI = HID_RI_INPUT | HID_RI_OUTPUT | HID_RI_COLLECTION | HID_RI_FEATURE | HID_RI_END_COLLECTION
  | HID_RI_USAGE_PAGE | HID_RI_LOGICAL_MINIMUM | HID_RI_LOGICAL_MAXIMUM | HID_RI_PHYSICAL_MINIMUM
  | HID_RI_PHYSICAL_MAXIMUM | HID_RI_UNIT_EXPONENT | HID_RI_UNIT | HID_RI_REPORT_SIZE | HID_RI_REPORT_ID
  | HID_RI_REPORT_COUNT | HID_RI_PUSH | HID_RI_POP | HID_RI_USAGE | HID_RI_USAGE_MINIMUM | HID_RI_USAGE_MAXIMUM

text \<open>Type and tag of an item; the macro with no data is the case label of the parser.\<close>

fun item_tag :: "HID_RI \<Rightarrow> uint8" where
  "item_tag HID_RI_INPUT = 0x80"
| "item_tag HID_RI_OUTPUT = 0x90"
| "item_tag HID_RI_COLLECTION = 0xA0"
| "item_tag HID_RI_FEATURE = 0xB0"
| "item_tag HID_RI_END_COLLECTION = 0xC0"
| "item_tag HID_RI_USAGE_PAGE = 0x04"
| "item_tag HID_RI_LOGICAL_MINIMUM = 0x14"
| "item_tag HID_RI_LOGICAL_MAXIMUM = 0x24"
| "item_tag HID_RI_PHYSICAL_MINIMUM = 0x34"
| "item_tag HID_RI_PHYSICAL_MAXIMUM = 0x44"
| "item_tag HID_RI_UNIT_EXPONENT = 0x54"
| "item_tag HID_RI_UNIT = 0x64"
| "item_tag HID_RI_REPORT_SIZE = 0x74"
| "item_tag HID_RI_REPORT_ID = 0x84"
| "item_tag HID_RI_REPORT_COUNT = 0x94"
| "item_tag HID_RI_PUSH = 0xA4"
| "item_tag HID_RI_POP = 0xB4"
| "item_tag HID_RI_USAGE = 0x08"
| "item_tag HID_RI_USAGE_MINIMUM = 0x18"
| "item_tag HID_RI_USAGE_MAXIMUM = 0x28"

datatype data_bits = No_data | Bits_8 uint32 | Bits_16 uint32 | Bits_32 uint32

fun ri_entry :: "HID_RI \<times> data_bits \<Rightarrow> byte list" where
  "ri_entry (t, No_data) = [item_tag t]"
| "ri_entry (t, Bits_8 d) = [item_tag t OR 1, ucast (d AND 0xFF)]"
| "ri_entry (t, Bits_16 d) = [item_tag t OR 2, ucast (d AND 0xFF), ucast (drop_bit 8 d AND 0xFF)]"
| "ri_entry (t, Bits_32 d) = [item_tag t OR 3, ucast (d AND 0xFF), ucast (drop_bit 8 d AND 0xFF), ucast (drop_bit 16 d AND 0xFF),
     ucast (drop_bit 24 d AND 0xFF)]"

definition HID_DESCRIPTOR_MOUSE :: "int \<Rightarrow> int \<Rightarrow> int \<Rightarrow> int \<Rightarrow> nat \<Rightarrow> bool \<Rightarrow> byte list" where
  "HID_DESCRIPTOR_MOUSE MinAxisVal MaxAxisVal MinPhysicalVal MaxPhysicalVal Buttons AbsoluteCoords =
     concat (map ri_entry
       [(HID_RI_USAGE_PAGE, Bits_8 1), (HID_RI_USAGE, Bits_8 2), (HID_RI_COLLECTION, Bits_8 1),
        (HID_RI_USAGE, Bits_8 1), (HID_RI_COLLECTION, Bits_8 0),
        (HID_RI_USAGE_PAGE, Bits_8 9), (HID_RI_USAGE_MINIMUM, Bits_8 1), (HID_RI_USAGE_MAXIMUM, Bits_8 (of_nat Buttons)),
        (HID_RI_LOGICAL_MINIMUM, Bits_8 0), (HID_RI_LOGICAL_MAXIMUM, Bits_8 1),
        (HID_RI_REPORT_COUNT, Bits_8 (of_nat Buttons)), (HID_RI_REPORT_SIZE, Bits_8 1), (HID_RI_INPUT, Bits_8 2),
        (HID_RI_REPORT_COUNT, Bits_8 1),
        (HID_RI_REPORT_SIZE, Bits_8 (if Buttons mod 8 \<noteq> 0 then of_nat (8 - Buttons mod 8) else 0)), (HID_RI_INPUT, Bits_8 1),
        (HID_RI_USAGE_PAGE, Bits_8 1), (HID_RI_USAGE, Bits_8 0x30), (HID_RI_USAGE, Bits_8 0x31),
        (HID_RI_LOGICAL_MINIMUM, Bits_16 (word_of_int MinAxisVal)), (HID_RI_LOGICAL_MAXIMUM, Bits_16 (word_of_int MaxAxisVal)),
        (HID_RI_PHYSICAL_MINIMUM, Bits_16 (word_of_int MinPhysicalVal)),
        (HID_RI_PHYSICAL_MAXIMUM, Bits_16 (word_of_int MaxPhysicalVal)),
        (HID_RI_REPORT_COUNT, Bits_8 2),
        (HID_RI_REPORT_SIZE, Bits_8 (if - 128 \<le> MinAxisVal \<and> MaxAxisVal \<le> 127 then 8 else 16)),
        (HID_RI_INPUT, Bits_8 (if AbsoluteCoords then 2 else 6)),
        (HID_RI_END_COLLECTION, No_data), (HID_RI_END_COLLECTION, No_data)])"

definition HID_DESCRIPTOR_JOYSTICK :: "int \<Rightarrow> int \<Rightarrow> int \<Rightarrow> int \<Rightarrow> nat \<Rightarrow> byte list" where
  "HID_DESCRIPTOR_JOYSTICK MinAxisVal MaxAxisVal MinPhysicalVal MaxPhysicalVal Buttons =
     concat (map ri_entry
       [(HID_RI_USAGE_PAGE, Bits_8 1), (HID_RI_USAGE, Bits_8 4), (HID_RI_COLLECTION, Bits_8 1),
        (HID_RI_USAGE, Bits_8 1), (HID_RI_COLLECTION, Bits_8 0),
        (HID_RI_USAGE, Bits_8 0x30), (HID_RI_USAGE, Bits_8 0x31), (HID_RI_USAGE, Bits_8 0x32),
        (HID_RI_LOGICAL_MINIMUM, Bits_16 (word_of_int MinAxisVal)), (HID_RI_LOGICAL_MAXIMUM, Bits_16 (word_of_int MaxAxisVal)),
        (HID_RI_PHYSICAL_MINIMUM, Bits_16 (word_of_int MinPhysicalVal)),
        (HID_RI_PHYSICAL_MAXIMUM, Bits_16 (word_of_int MaxPhysicalVal)),
        (HID_RI_REPORT_COUNT, Bits_8 3),
        (HID_RI_REPORT_SIZE, Bits_8 (if - 128 \<le> MinAxisVal \<and> MaxAxisVal \<le> 127 then 8 else 16)), (HID_RI_INPUT, Bits_8 2),
        (HID_RI_END_COLLECTION, No_data),
        (HID_RI_USAGE_PAGE, Bits_8 9), (HID_RI_USAGE_MINIMUM, Bits_8 1), (HID_RI_USAGE_MAXIMUM, Bits_8 (of_nat Buttons)),
        (HID_RI_LOGICAL_MINIMUM, Bits_8 0), (HID_RI_LOGICAL_MAXIMUM, Bits_8 1),
        (HID_RI_REPORT_SIZE, Bits_8 1), (HID_RI_REPORT_COUNT, Bits_8 (of_nat Buttons)), (HID_RI_INPUT, Bits_8 2),
        (HID_RI_REPORT_SIZE, Bits_8 (if Buttons mod 8 \<noteq> 0 then of_nat (8 - Buttons mod 8) else 0)),
        (HID_RI_REPORT_COUNT, Bits_8 1), (HID_RI_INPUT, Bits_8 1),
        (HID_RI_END_COLLECTION, No_data)])"

definition HID_DESCRIPTOR_KEYBOARD :: "nat \<Rightarrow> byte list" where
  "HID_DESCRIPTOR_KEYBOARD MaxKeys =
     concat (map ri_entry
       [(HID_RI_USAGE_PAGE, Bits_8 1), (HID_RI_USAGE, Bits_8 6), (HID_RI_COLLECTION, Bits_8 1),
        (HID_RI_USAGE_PAGE, Bits_8 7), (HID_RI_USAGE_MINIMUM, Bits_8 0xE0), (HID_RI_USAGE_MAXIMUM, Bits_8 0xE7),
        (HID_RI_LOGICAL_MINIMUM, Bits_8 0), (HID_RI_LOGICAL_MAXIMUM, Bits_8 1),
        (HID_RI_REPORT_SIZE, Bits_8 1), (HID_RI_REPORT_COUNT, Bits_8 8), (HID_RI_INPUT, Bits_8 2),
        (HID_RI_REPORT_COUNT, Bits_8 1), (HID_RI_REPORT_SIZE, Bits_8 8), (HID_RI_INPUT, Bits_8 1),
        (HID_RI_USAGE_PAGE, Bits_8 8), (HID_RI_USAGE_MINIMUM, Bits_8 1), (HID_RI_USAGE_MAXIMUM, Bits_8 5),
        (HID_RI_REPORT_COUNT, Bits_8 5), (HID_RI_REPORT_SIZE, Bits_8 1), (HID_RI_OUTPUT, Bits_8 0x02),
        (HID_RI_REPORT_COUNT, Bits_8 1), (HID_RI_REPORT_SIZE, Bits_8 3), (HID_RI_OUTPUT, Bits_8 1),
        (HID_RI_LOGICAL_MINIMUM, Bits_8 0), (HID_RI_LOGICAL_MAXIMUM, Bits_16 0xFF),
        (HID_RI_USAGE_PAGE, Bits_8 7), (HID_RI_USAGE_MINIMUM, Bits_8 0), (HID_RI_USAGE_MAXIMUM, Bits_8 0xFF),
        (HID_RI_REPORT_COUNT, Bits_8 (of_nat MaxKeys)), (HID_RI_REPORT_SIZE, Bits_8 8), (HID_RI_INPUT, Bits_8 0),
        (HID_RI_END_COLLECTION, No_data)])"

definition HID_DESCRIPTOR_VENDOR :: "nat \<Rightarrow> nat \<Rightarrow> nat \<Rightarrow> nat \<Rightarrow> nat \<Rightarrow> byte list" where
  "HID_DESCRIPTOR_VENDOR VendorPageNum CollectionUsage DataINUsage DataOUTUsage NumBytes =
     concat (map ri_entry
       [(HID_RI_USAGE_PAGE, Bits_16 (0xFF00 OR of_nat VendorPageNum)), (HID_RI_USAGE, Bits_8 (of_nat CollectionUsage)),
        (HID_RI_COLLECTION, Bits_8 1),
        (HID_RI_USAGE, Bits_8 (of_nat DataINUsage)), (HID_RI_LOGICAL_MINIMUM, Bits_8 0), (HID_RI_LOGICAL_MAXIMUM, Bits_8 0xFF),
        (HID_RI_REPORT_SIZE, Bits_8 8), (HID_RI_REPORT_COUNT, Bits_8 (of_nat NumBytes)), (HID_RI_INPUT, Bits_8 2),
        (HID_RI_USAGE, Bits_8 (of_nat DataOUTUsage)), (HID_RI_LOGICAL_MINIMUM, Bits_8 0), (HID_RI_LOGICAL_MAXIMUM, Bits_8 0xFF),
        (HID_RI_REPORT_SIZE, Bits_8 8), (HID_RI_REPORT_COUNT, Bits_8 (of_nat NumBytes)), (HID_RI_OUTPUT, Bits_8 2),
        (HID_RI_END_COLLECTION, No_data)])"

section \<open>The parser\<close>

text \<open>The usage of the next item or collection.\<close>

definition next_usage :: "uint16 \<Rightarrow> hid_parser \<Rightarrow> uint16 \<times> hid_parser" where
  "next_usage old p =
     (case UsageList p of
        u # us \<Rightarrow> (u, p\<lparr>UsageList := us\<rparr>)
      | [] \<Rightarrow>
          if Minimum (UsageMinMax p) \<le> Maximum (UsageMinMax p)
          then (ucast (Minimum (UsageMinMax p)), p\<lparr>UsageMinMax := (UsageMinMax p)\<lparr>Minimum := Minimum (UsageMinMax p) + 1\<rparr>\<rparr>)
          else (old, p))"

text \<open>A step returns \<^const>\<open>None\<close> as its code to go on.\<close>

type_synonym hid_step = "(HID_Parse_ErrorCodes_t option \<times> hid_parser) option"

definition set_attributes :: "(HID_ReportItem_Attributes_t \<Rightarrow> HID_ReportItem_Attributes_t) \<Rightarrow> hid_parser \<Rightarrow> hid_step" where
  "set_attributes f p = Some (None, p\<lparr>Current := (Current p)\<lparr>StateAttributes := f (StateAttributes (Current p))\<rparr>\<rparr>)"

definition do_push :: "hid_parser \<Rightarrow> hid_step" where
  "do_push p =
     (if length (Saved p) = HID_STATETABLE_STACK_DEPTH - 1 then Some (Some HID_PARSE_HIDStackOverflow, p)
      else do {
        saved \<leftarrow> grow (HID_STATETABLE_STACK_DEPTH - 1) (Current p # Saved p);
        Some (None, p\<lparr>Saved := saved\<rparr>) })"

definition do_pop :: "hid_parser \<Rightarrow> hid_step" where
  "do_pop p =
     (case Saved p of
        [] \<Rightarrow> Some (Some HID_PARSE_HIDStackUnderflow, p)
      | s # ss \<Rightarrow> Some (None, p\<lparr>Current := s, Saved := ss\<rparr>))"

fun find_report :: "HID_ReportSizeInfo_t list \<Rightarrow> nat \<Rightarrow> nat \<Rightarrow> uint8 \<Rightarrow> nat option option" where
  "find_report sizes i 0 r = Some None"
| "find_report sizes i (Suc n) r = do {
     s \<leftarrow> cell sizes i;
     if SizeReportID s = r then Some (Some i) else find_report sizes (Suc i) n r }"

definition lookup_report :: "uint8 \<Rightarrow> hid_parser \<Rightarrow> nat option option" where
  "lookup_report r p =
     (if UsingReportIDs (ParserData p)
      then find_report (ReportIDSizes (ParserData p)) 0 (unat (TotalDeviceReports (ParserData p))) r
      else Some (Some (CurrReportIDInfo p)))"

definition do_report_id :: "uint32 \<Rightarrow> hid_parser \<Rightarrow> hid_step" where
  "do_report_id ReportItemData p = do {
     let r = (ucast ReportItemData :: uint8);
     let p = p\<lparr>Current := (Current p)\<lparr>StateReportID := r\<rparr>\<rparr>;
     let D = ParserData p;
     found \<leftarrow> lookup_report r p;
     case found of
       Some i \<Rightarrow> do {
         s \<leftarrow> cell (ReportIDSizes D) i;
         sizes \<leftarrow> put i (s\<lparr>SizeReportID := r\<rparr>) (ReportIDSizes D);
         Some (None, p\<lparr>CurrReportIDInfo := i, ParserData := D\<lparr>UsingReportIDs := True, ReportIDSizes := sizes\<rparr>\<rparr>) }
     | None \<Rightarrow>
         if TotalDeviceReports D = HID_MAX_REPORT_IDS then Some (Some HID_PARSE_InsufficientReportIDItems, p)
         else do {
           let i = unat (TotalDeviceReports D);
           sizes \<leftarrow> put i (size_zero\<lparr>SizeReportID := r\<rparr>) (ReportIDSizes D);
           Some (None, p\<lparr>CurrReportIDInfo := i, ParserData := D\<lparr>TotalDeviceReports := TotalDeviceReports D + 1,
             UsingReportIDs := True, ReportIDSizes := sizes\<rparr>\<rparr>) } }"

definition do_usage :: "uint8 \<Rightarrow> uint32 \<Rightarrow> hid_parser \<Rightarrow> hid_step" where
  "do_usage HIDReportItem ReportItemData p =
     (if length (UsageList p) = HID_USAGE_STACK_DEPTH then Some (Some HID_PARSE_UsageListOverflow, p)
      else
        let p = (if HIDReportItem AND HID_RI_DATA_SIZE_MASK = 3
                 then p\<lparr>Current := (Current p)\<lparr>StateAttributes := (StateAttributes (Current p))\<lparr>ItemUsage :=
                   (ItemUsage (StateAttributes (Current p)))\<lparr>Page := ucast (drop_bit 16 ReportItemData)\<rparr>\<rparr>\<rparr>\<rparr>
                 else p)
        in do {
          usages \<leftarrow> grow HID_USAGE_STACK_DEPTH (UsageList p @ [ucast ReportItemData]);
          Some (None, p\<lparr>UsageList := usages\<rparr>) })"

text \<open>The first collection path from \<open>i\<close> on without a parent; \<^const>\<open>None\<close> when the last one is taken.\<close>

function find_path :: "HID_CollectionPath_t list \<Rightarrow> nat \<Rightarrow> nat option option" where
  "find_path paths i =
     (case cell paths i of
        None \<Rightarrow> None
      | Some c \<Rightarrow>
          if Parent c = None then Some (Some i)
          else if i = HID_MAX_COLLECTIONS - 1 then Some None
          else find_path paths (Suc i))"
  by pat_completeness auto
termination
  by (relation "measure (\<lambda>(paths, i). length paths - i)") (auto simp: cell_def split: if_splits)

declare find_path.simps [simp del]

definition open_collection :: "nat \<Rightarrow> nat option \<Rightarrow> uint32 \<Rightarrow> hid_parser \<Rightarrow> hid_step" where
  "open_collection i parent ReportItemData p = do {
     c \<leftarrow> cell (CollectionPaths (ParserData p)) i;
     let (u, p) = next_usage (Usage (PathUsage c)) p;
     paths \<leftarrow> put i (c\<lparr>Parent := (if parent = None then Parent c else parent), PathType := ucast ReportItemData,
        PathUsage := \<lparr>Page = Page (ItemUsage (StateAttributes (Current p))), Usage = u\<rparr>\<rparr>) (CollectionPaths (ParserData p));
     Some (None, p\<lparr>CurrCollectionPath := Some i, ParserData := (ParserData p)\<lparr>CollectionPaths := paths\<rparr>\<rparr>) }"

definition do_collection :: "uint32 \<Rightarrow> hid_parser \<Rightarrow> hid_step" where
  "do_collection ReportItemData p =
     (case CurrCollectionPath p of
        None \<Rightarrow> open_collection 0 None ReportItemData p
      | Some parent \<Rightarrow> do {
          f \<leftarrow> find_path (CollectionPaths (ParserData p)) 1;
          case f of
            None \<Rightarrow> Some (Some HID_PARSE_InsufficientCollectionPaths, p)
          | Some i \<Rightarrow> open_collection i (Some parent) ReportItemData p })"

definition do_end_collection :: "hid_parser \<Rightarrow> hid_step" where
  "do_end_collection p =
     (case CurrCollectionPath p of
        None \<Rightarrow> Some (Some HID_PARSE_UnexpectedEndCollection, p)
      | Some i \<Rightarrow> do {
          c \<leftarrow> cell (CollectionPaths (ParserData p)) i;
          Some (None, p\<lparr>CurrCollectionPath := Parent c\<rparr>) })"

definition item_type :: "uint8 \<Rightarrow> HID_ReportItemTypes_t" where
  "item_type tag =
     (if tag = item_tag HID_RI_INPUT then HID_REPORT_ITEM_In
      else if tag = item_tag HID_RI_OUTPUT then HID_REPORT_ITEM_Out
      else HID_REPORT_ITEM_Feature)"

text \<open>The body of the loop over the report count. \<open>Value\<close> and \<open>PreviousValue\<close> of the local structure are never set.\<close>

definition add_item :: "(HID_ReportItem_t \<Rightarrow> bool) \<Rightarrow> HID_ReportItemTypes_t \<Rightarrow> uint32 \<Rightarrow> hid_parser \<Rightarrow> hid_step" where
  "add_item Filter ty ReportItemData p = do {
     let attrs = StateAttributes (Current p);
     let (u, p) = next_usage (Usage (ItemUsage attrs)) p;
     let D = ParserData p;
     s \<leftarrow> cell (ReportIDSizes D) (CurrReportIDInfo p);
     let NewReportItem = \<lparr>BitOffset = ReportSizeBits s ty, ItemType = ty, ItemFlags = ucast ReportItemData,
       ItemReportID = StateReportID (Current p), CollectionPath = CurrCollectionPath p,
       Attributes = attrs\<lparr>ItemUsage := (ItemUsage attrs)\<lparr>Usage := u\<rparr>\<rparr>, Value = None, PreviousValue = None\<rparr>;
     let bits = ReportSizeBits s ty + ucast (BitSize attrs);
     sizes \<leftarrow> put (CurrReportIDInfo p) (s\<lparr>ReportSizeBits := (ReportSizeBits s)(ty := bits)\<rparr>) (ReportIDSizes D);
     let D = D\<lparr>ReportIDSizes := sizes, LargestReportSizeBits := max (LargestReportSizeBits D) bits\<rparr>;
     if TotalReportItems D = HID_MAX_REPORTITEMS
     then Some (Some HID_PARSE_InsufficientReportItems, p\<lparr>ParserData := D\<rparr>)
     else do {
       items \<leftarrow> put (unat (TotalReportItems D)) NewReportItem (ReportItems D);
       let D = D\<lparr>ReportItems := items\<rparr>;
       let D = (if ReportItemData AND HID_IOF_CONSTANT = 0 \<and> Filter NewReportItem
                then D\<lparr>TotalReportItems := TotalReportItems D + 1\<rparr> else D);
       Some (None, p\<lparr>ParserData := D\<rparr>) } }"

fun add_items :: "nat \<Rightarrow> (HID_ReportItem_t \<Rightarrow> bool) \<Rightarrow> HID_ReportItemTypes_t \<Rightarrow> uint32 \<Rightarrow> hid_parser \<Rightarrow> hid_step" where
  "add_items 0 Filter ty ReportItemData p = Some (None, p)"
| "add_items (Suc n) Filter ty ReportItemData p = do {
     (e, p) \<leftarrow> add_item Filter ty ReportItemData p;
     case e of Some c \<Rightarrow> Some (e, p) | None \<Rightarrow> add_items n Filter ty ReportItemData p }"

text \<open>The switch.\<close>

definition do_item :: "(HID_ReportItem_t \<Rightarrow> bool) \<Rightarrow> uint8 \<Rightarrow> uint32 \<Rightarrow> hid_parser \<Rightarrow> hid_step" where
  "do_item Filter HIDReportItem ReportItemData p =
     (let tag = HIDReportItem AND (HID_RI_TYPE_MASK OR HID_RI_TAG_MASK) in
      if tag = item_tag HID_RI_PUSH then do_push p
      else if tag = item_tag HID_RI_POP then do_pop p
      else if tag = item_tag HID_RI_USAGE_PAGE then
        set_attributes (\<lambda>a. a\<lparr>ItemUsage := (ItemUsage a)\<lparr>Page := ucast ReportItemData\<rparr>\<rparr>) p
      else if tag = item_tag HID_RI_LOGICAL_MINIMUM then
        set_attributes (\<lambda>a. a\<lparr>Logical := (Logical a)\<lparr>Minimum := ReportItemData\<rparr>\<rparr>) p
      else if tag = item_tag HID_RI_LOGICAL_MAXIMUM then
        set_attributes (\<lambda>a. a\<lparr>Logical := (Logical a)\<lparr>Maximum := ReportItemData\<rparr>\<rparr>) p
      else if tag = item_tag HID_RI_PHYSICAL_MINIMUM then
        set_attributes (\<lambda>a. a\<lparr>Physical := (Physical a)\<lparr>Minimum := ReportItemData\<rparr>\<rparr>) p
      else if tag = item_tag HID_RI_PHYSICAL_MAXIMUM then
        set_attributes (\<lambda>a. a\<lparr>Physical := (Physical a)\<lparr>Maximum := ReportItemData\<rparr>\<rparr>) p
      else if tag = item_tag HID_RI_UNIT_EXPONENT then
        set_attributes (\<lambda>a. a\<lparr>Unit := (Unit a)\<lparr>Exponent := ucast ReportItemData\<rparr>\<rparr>) p
      else if tag = item_tag HID_RI_UNIT then
        set_attributes (\<lambda>a. a\<lparr>Unit := (Unit a)\<lparr>UnitType := ReportItemData\<rparr>\<rparr>) p
      else if tag = item_tag HID_RI_REPORT_SIZE then set_attributes (\<lambda>a. a\<lparr>BitSize := ucast ReportItemData\<rparr>) p
      else if tag = item_tag HID_RI_REPORT_COUNT then
        Some (None, p\<lparr>Current := (Current p)\<lparr>ReportCount := ucast ReportItemData\<rparr>\<rparr>)
      else if tag = item_tag HID_RI_REPORT_ID then do_report_id ReportItemData p
      else if tag = item_tag HID_RI_USAGE then do_usage HIDReportItem ReportItemData p
      else if tag = item_tag HID_RI_USAGE_MINIMUM then
        Some (None, p\<lparr>UsageMinMax := (UsageMinMax p)\<lparr>Minimum := ReportItemData\<rparr>\<rparr>)
      else if tag = item_tag HID_RI_USAGE_MAXIMUM then
        Some (None, p\<lparr>UsageMinMax := (UsageMinMax p)\<lparr>Maximum := ReportItemData\<rparr>\<rparr>)
      else if tag = item_tag HID_RI_COLLECTION then do_collection ReportItemData p
      else if tag = item_tag HID_RI_END_COLLECTION then do_end_collection p
      else if tag = item_tag HID_RI_INPUT \<or> tag = item_tag HID_RI_OUTPUT \<or> tag = item_tag HID_RI_FEATURE then
        add_items (unat (ReportCount (Current p))) Filter (item_type tag) ReportItemData p
      else Some (None, p))"

text \<open>A main item ends the scope of the local items.\<close>

definition end_main :: "uint8 \<Rightarrow> hid_parser \<Rightarrow> hid_parser" where
  "end_main HIDReportItem p =
     (if HIDReportItem AND HID_RI_TYPE_MASK = HID_RI_TYPE_MAIN then p\<lparr>UsageMinMax := minmax_zero, UsageList := []\<rparr> else p)"

definition data_size :: "uint8 \<Rightarrow> nat" where
  "data_size HIDReportItem =
     (let s = HIDReportItem AND HID_RI_DATA_SIZE_MASK in if s = 3 then 4 else if s = 2 then 2 else if s = 1 then 1 else 0)"

fun item_data :: "byte list \<Rightarrow> uint32" where
  "item_data [a, b, c, d] = push_bit 24 (ucast d) OR push_bit 16 (ucast c) OR ucast (push_bit 8 (ucast b :: uint16)) OR ucast a"
| "item_data [a, b] = ucast (push_bit 8 (ucast b :: uint16) OR ucast a)"
| "item_data [a] = ucast a"
| "item_data _ = 0"

text \<open>
  The loop. The buffer is what is left of it; \<open>ReportSize\<close> is counted down by itself and wraps when the last item is cut
  off.
\<close>

fun process_items :: "(HID_ReportItem_t \<Rightarrow> bool) \<Rightarrow> byte list \<Rightarrow> uint16 \<Rightarrow> hid_parser \<Rightarrow> (HID_Parse_ErrorCodes_t \<times> hid_parser) option" where
  "process_items Filter [] ReportSize p =
     (if ReportSize = 0
      then Some (if TotalReportItems (ParserData p) = 0 then HID_PARSE_NoUnfilteredReportItems else HID_PARSE_Successful, p)
      else None)"
| "process_items Filter (HIDReportItem # ReportData) ReportSize p =
     (if ReportSize = 0
      then Some (if TotalReportItems (ParserData p) = 0 then HID_PARSE_NoUnfilteredReportItems else HID_PARSE_Successful, p)
      else
        let k = data_size HIDReportItem in
        if length ReportData < k then None
        else do {
          (e, p) \<leftarrow> do_item Filter HIDReportItem (item_data (take k ReportData)) p;
          case e of
            Some c \<Rightarrow> Some (c, p)
          | None \<Rightarrow> process_items Filter (drop k ReportData) (ReportSize - 1 - of_nat k) (end_main HIDReportItem p) })"

definition USB_ProcessHIDReport :: "(HID_ReportItem_t \<Rightarrow> bool) \<Rightarrow> byte list \<Rightarrow> uint16 \<Rightarrow> (HID_Parse_ErrorCodes_t \<times> HID_ReportInfo_t) option" where
  "USB_ProcessHIDReport Filter ReportData ReportSize =
     map_option (apsnd ParserData) (process_items Filter ReportData ReportSize parser_start)"

section \<open>Reports\<close>

text \<open>The loop over the bits; the shift of the mask drops it after 32 bits.\<close>

fun get_bits :: "nat \<Rightarrow> byte list \<Rightarrow> uint16 \<Rightarrow> uint32 \<Rightarrow> uint32 \<Rightarrow> uint32 option" where
  "get_bits 0 ReportData CurrentBit BitMask v = Some v"
| "get_bits (Suc n) ReportData CurrentBit BitMask v = do {
     b \<leftarrow> cell ReportData (unat (CurrentBit div 8));
     let v = (if b AND push_bit (unat (CurrentBit mod 8)) 1 \<noteq> 0 then v OR BitMask else v);
     get_bits n ReportData (CurrentBit + 1) (push_bit 1 BitMask) v }"

definition USB_GetHIDReportItemInfo :: "byte list \<Rightarrow> HID_ReportItem_t option \<Rightarrow> (bool \<times> HID_ReportItem_t option) option" where
  "USB_GetHIDReportItemInfo ReportData ReportItem =
     (case ReportItem of
        None \<Rightarrow> Some (False, None)
      | Some item \<Rightarrow> do {
          r \<leftarrow> (if ItemReportID item = 0 then Some (Some ReportData)
                else do { b \<leftarrow> cell ReportData 0; Some (if ItemReportID item \<noteq> b then None else Some (drop 1 ReportData)) });
          case r of
            None \<Rightarrow> Some (False, Some item)
          | Some ReportData \<Rightarrow> do {
              let item = item\<lparr>PreviousValue := Value item\<rparr>;
              v \<leftarrow> get_bits (unat (BitSize (Attributes item))) ReportData (BitOffset item) 1 0;
              Some (True, Some (item\<lparr>Value := Some v\<rparr>)) } })"

fun set_bits :: "nat \<Rightarrow> byte list \<Rightarrow> uint16 \<Rightarrow> uint32 \<Rightarrow> uint32 \<Rightarrow> byte list option" where
  "set_bits 0 ReportData CurrentBit BitMask v = Some ReportData"
| "set_bits (Suc n) ReportData CurrentBit BitMask v = do {
     ReportData \<leftarrow>
       (if v AND BitMask \<noteq> 0 then do {
          b \<leftarrow> cell ReportData (unat (CurrentBit div 8));
          put (unat (CurrentBit div 8)) (b OR push_bit (unat (CurrentBit mod 8)) 1) ReportData }
        else Some ReportData);
     set_bits n ReportData (CurrentBit + 1) (push_bit 1 BitMask) v }"

text \<open>Writing an item whose value has never been set is undefined.\<close>

definition USB_SetHIDReportItemInfo :: "byte list \<Rightarrow> HID_ReportItem_t option \<Rightarrow> (byte list \<times> HID_ReportItem_t option) option" where
  "USB_SetHIDReportItemInfo ReportData ReportItem =
     (case ReportItem of
        None \<Rightarrow> Some (ReportData, None)
      | Some item \<Rightarrow> do {
          let n = unat (BitSize (Attributes item));
          v \<leftarrow> Value item;
          d \<leftarrow> (if ItemReportID item = 0 then set_bits n ReportData (BitOffset item) 1 v
                else do {
                  ReportData \<leftarrow> put 0 (ItemReportID item) ReportData;
                  d \<leftarrow> set_bits n (drop 1 ReportData) (BitOffset item) 1 v;
                  Some (ItemReportID item # d) });
          Some (d, Some (item\<lparr>PreviousValue := Value item\<rparr>)) })"

fun report_size :: "HID_ReportSizeInfo_t list \<Rightarrow> nat \<Rightarrow> nat \<Rightarrow> uint8 \<Rightarrow> HID_ReportItemTypes_t \<Rightarrow> uint16 option" where
  "report_size sizes i 0 r ty = Some 0"
| "report_size sizes i (Suc n) r ty = do {
     s \<leftarrow> cell sizes i;
     let bits = ReportSizeBits s ty;
     if SizeReportID s = r then Some (bits div 8 + (if bits mod 8 \<noteq> 0 then 1 else 0))
     else report_size sizes (Suc i) n r ty }"

definition USB_GetHIDReportSize :: "HID_ReportInfo_t \<Rightarrow> uint8 \<Rightarrow> HID_ReportItemTypes_t \<Rightarrow> uint16 option" where
  "USB_GetHIDReportSize info ReportID ReportType =
     report_size (ReportIDSizes info) 0 (unat HID_MAX_REPORT_IDS) ReportID ReportType"

end
