(* ===== verification/HID_Safety.thy ===== *)
theory HID_Safety
  imports HID_Parser
begin

text \<open>
  Memory safety of the report parser: the invariant of its local variables (\<open>hid_wf\<close>) and of the structure it fills
  (\<open>info_wf\<close>), that every item keeps it, and the condition on descriptors (\<open>complete_items\<close>: no item is cut off) under
  which the loop returns.
\<close>

section \<open>Memory safety\<close>

definition path_ok :: "nat option \<Rightarrow> bool" where
  "path_ok i \<longleftrightarrow> (case i of None \<Rightarrow> True | Some i \<Rightarrow> i < HID_MAX_COLLECTIONS)"

text \<open>What the parser leaves in the structure of the caller.\<close>

definition info_wf :: "HID_ReportInfo_t \<Rightarrow> bool" where
  "info_wf D \<longleftrightarrow> length (ReportItems D) = 20 \<and> length (CollectionPaths D) = HID_MAX_COLLECTIONS \<and> length (ReportIDSizes D) = 10 \<and>
     TotalReportItems D \<le> HID_MAX_REPORTITEMS \<and> 1 \<le> TotalDeviceReports D \<and> TotalDeviceReports D \<le> HID_MAX_REPORT_IDS \<and>
     list_all (\<lambda>c. path_ok (Parent c)) (CollectionPaths D) \<and> list_all (\<lambda>x. path_ok (CollectionPath x)) (ReportItems D)"

definition hid_wf :: "hid_parser \<Rightarrow> bool" where
  "hid_wf p \<longleftrightarrow> info_wf (ParserData p) \<and> CurrReportIDInfo p < unat (TotalDeviceReports (ParserData p)) \<and>
     path_ok (CurrCollectionPath p) \<and> length (Saved p) \<le> HID_STATETABLE_STACK_DEPTH - 1 \<and> length (UsageList p) \<le> HID_USAGE_STACK_DEPTH"

definition step_ok :: "hid_step \<Rightarrow> bool" where
  "step_ok r \<longleftrightarrow> (\<exists>e q. r = Some (e, q) \<and> hid_wf q)"

lemma step_okI: "hid_wf q \<Longrightarrow> step_ok (Some (e, q))"
  by (simp add: step_ok_def)

lemma cell_Some [simp]: "i < length xs \<Longrightarrow> cell xs i = Some (xs ! i)"
  by (simp add: cell_def)

lemma put_Some [simp]: "i < length xs \<Longrightarrow> put i x xs = Some (xs[i := x])"
  by (simp add: put_def)

lemma hid_wf_start: "hid_wf parser_start"
  by (simp add: hid_wf_def parser_start_def info_wf_def info_zero_def path_ok_def item_zero_def HID_MAX_REPORTITEMS_def
      HID_MAX_REPORT_IDS_def HID_MAX_COLLECTIONS_def list_all_iff)

text \<open>Changes of fields that the invariant does not mention.\<close>

lemma hid_wf_simps [simp]:
  "hid_wf (p\<lparr>Current := c\<rparr>) = hid_wf p" "hid_wf (p\<lparr>UsageMinMax := m\<rparr>) = hid_wf p"
  by (simp_all add: hid_wf_def)

lemma next_usage_frame:
  assumes "next_usage u p = (v, q)"
  shows "hid_wf p \<Longrightarrow> hid_wf q" "ParserData q = ParserData p" "CurrReportIDInfo q = CurrReportIDInfo p"
    "CurrCollectionPath q = CurrCollectionPath p" "Current q = Current p" "Saved q = Saved p"
  using assms by (auto simp: next_usage_def hid_wf_def split: list.splits if_splits)

lemma set_attributes_ok: "hid_wf p \<Longrightarrow> step_ok (set_attributes f p)"
  by (simp add: set_attributes_def step_okI)

lemma do_push_ok: "hid_wf p \<Longrightarrow> step_ok (do_push p)"
  by (auto simp: do_push_def grow_def hid_wf_def HID_STATETABLE_STACK_DEPTH_def le_Suc_eq intro!: step_okI)

lemma do_pop_ok: "hid_wf p \<Longrightarrow> step_ok (do_pop p)"
  by (auto simp: do_pop_def hid_wf_def split: list.split intro!: step_okI)

lemma do_usage_ok: "hid_wf p \<Longrightarrow> step_ok (do_usage b d p)"
  by (auto simp: do_usage_def grow_def Let_def hid_wf_def intro!: step_okI)

lemma find_report_ok:
  "i + n \<le> length sizes \<Longrightarrow> \<exists>r. find_report sizes i n k = Some r \<and> (\<forall>j. r = Some j \<longrightarrow> i \<le> j \<and> j < i + n)"
proof (induction n arbitrary: i)
  case (Suc n)
  then show ?case using Suc.IH [of "Suc i"] by (auto simp: Let_def)
qed simp

lemma lookup_report_ok:
  assumes "hid_wf p"
  shows "\<exists>found. lookup_report r (p\<lparr>Current := s\<rparr>) = Some found \<and> (\<forall>j. found = Some j \<longrightarrow> j < unat (TotalDeviceReports (ParserData p)))"
  using find_report_ok [of 0 "unat (TotalDeviceReports (ParserData p))" "ReportIDSizes (ParserData p)" r] assms
  by (cases "UsingReportIDs (ParserData p)") (auto simp: lookup_report_def hid_wf_def info_wf_def word_le_nat_alt HID_MAX_REPORT_IDS_def)

lemma reports_wf:
  assumes "hid_wf p"
  shows "unat (TotalDeviceReports (ParserData p)) \<le> 10" "length (ReportIDSizes (ParserData p)) = 10"
    "TotalDeviceReports (ParserData p) \<noteq> HID_MAX_REPORT_IDS \<Longrightarrow> unat (TotalDeviceReports (ParserData p)) < 10"
proof -
  show t: "unat (TotalDeviceReports (ParserData p)) \<le> 10" "length (ReportIDSizes (ParserData p)) = 10"
    using assms by (auto simp: hid_wf_def info_wf_def word_le_nat_alt HID_MAX_REPORT_IDS_def)
  assume "TotalDeviceReports (ParserData p) \<noteq> HID_MAX_REPORT_IDS"
  then have "unat (TotalDeviceReports (ParserData p)) \<noteq> 10" by (auto simp: HID_MAX_REPORT_IDS_def word_unat_eq_iff)
  then show "unat (TotalDeviceReports (ParserData p)) < 10" using t(1) by simp
qed

lemma do_report_id_ok:
  assumes "hid_wf p"
  shows "step_ok (do_report_id d p)"
proof -
  let ?D = "ParserData p" and ?r = "ucast d :: uint8"
  let ?q = "p\<lparr>Current := (Current p)\<lparr>StateReportID := ?r\<rparr>\<rparr>"
  note t = reports_wf [OF assms]
  obtain found where f: "lookup_report ?r ?q = Some found" "\<And>j. found = Some j \<Longrightarrow> j < unat (TotalDeviceReports ?D)"
    using lookup_report_ok [OF assms] by blast
  consider i where "found = Some i" | "found = None" "TotalDeviceReports ?D = HID_MAX_REPORT_IDS"
    | "found = None" "TotalDeviceReports ?D \<noteq> HID_MAX_REPORT_IDS" by blast
  then show ?thesis
  proof cases
    case 1
    then have "i < unat (TotalDeviceReports ?D)" using f(2) by blast
    moreover from this have "do_report_id d p = Some (None, ?q\<lparr>CurrReportIDInfo := i, ParserData := ?D\<lparr>UsingReportIDs := True,
        ReportIDSizes := (ReportIDSizes ?D)[i := (ReportIDSizes ?D ! i)\<lparr>SizeReportID := ?r\<rparr>]\<rparr>\<rparr>)"
      using f(1) 1 t unfolding do_report_id_def by (simp add: Let_def)
    ultimately show ?thesis using assms by (auto simp: hid_wf_def info_wf_def intro!: step_okI)
  next
    case 2
    then show ?thesis using f(1) assms by (simp add: do_report_id_def Let_def step_ok_def)
  next
    case 3
    then have less: "unat (TotalDeviceReports ?D) < 10" using t(3) by simp
    have "do_report_id d p = Some (None, ?q\<lparr>CurrReportIDInfo := unat (TotalDeviceReports ?D), ParserData := ?D\<lparr>
        TotalDeviceReports := TotalDeviceReports ?D + 1, UsingReportIDs := True,
        ReportIDSizes := (ReportIDSizes ?D)[unat (TotalDeviceReports ?D) := size_zero\<lparr>SizeReportID := ?r\<rparr>]\<rparr>\<rparr>)"
      using f(1) 3 t less unfolding do_report_id_def by (simp add: Let_def)
    then show ?thesis using assms less unat_plus_one8 [of "TotalDeviceReports ?D"]
      by (auto simp: hid_wf_def info_wf_def word_le_nat_alt HID_MAX_REPORT_IDS_def intro!: step_okI)
  qed
qed

lemma find_path_ok:
  assumes "length paths = HID_MAX_COLLECTIONS" "i < HID_MAX_COLLECTIONS"
  shows "\<exists>r. find_path paths i = Some r \<and> (\<forall>j. r = Some j \<longrightarrow> i \<le> j \<and> j < HID_MAX_COLLECTIONS \<and> Parent (paths ! j) = None)"
  using assms
proof (induction paths i rule: find_path.induct)
  case (1 paths i)
  show ?case
  proof (cases "Parent (paths ! i) = None \<or> i = HID_MAX_COLLECTIONS - 1")
    case True
    then show ?thesis using 1(2,3) by (subst find_path.simps) auto
  next
    case False
    then have "\<exists>r. find_path paths (Suc i) = Some r \<and> (\<forall>j. r = Some j \<longrightarrow> Suc i \<le> j \<and> j < HID_MAX_COLLECTIONS \<and> Parent (paths ! j) = None)"
      using 1 by auto
    then show ?thesis using False 1(2,3) by (subst find_path.simps) (auto dest: Suc_leD)
  qed
qed

lemma open_collection_ok:
  assumes "hid_wf p" "i < HID_MAX_COLLECTIONS" "path_ok parent"
  shows "step_ok (open_collection i parent d p)"
proof -
  let ?D = "ParserData p"
  let ?c = "CollectionPaths ?D ! i"
  obtain u q where u: "next_usage (Usage (PathUsage ?c)) p = (u, q)" by fastforce
  note q = next_usage_frame [OF u]
  have len: "length (CollectionPaths ?D) = HID_MAX_COLLECTIONS" and parents: "list_all (\<lambda>c. path_ok (Parent c)) (CollectionPaths ?D)"
    using assms(1) by (simp_all add: hid_wf_def info_wf_def)
  have "path_ok (Parent ?c)" using parents assms(2) len by (simp add: list_all_length)
  then have "list_all (\<lambda>c. path_ok (Parent c)) ((CollectionPaths ?D)[i := x])" if "Parent x = (if parent = None then Parent ?c else parent)" for x
    using parents assms(3) that by (auto simp: list_all_iff dest!: set_update_subset_insert [THEN subsetD])
  then show ?thesis using q(1) [OF assms(1)] q(2-) u assms len unfolding open_collection_def
    by (auto simp: hid_wf_def info_wf_def path_ok_def Let_def intro!: step_okI)
qed

lemma do_collection_ok:
  assumes "hid_wf p"
  shows "step_ok (do_collection d p)"
proof (cases "CurrCollectionPath p")
  case None
  then show ?thesis using open_collection_ok [OF assms, of 0 None] by (simp add: do_collection_def path_ok_def HID_MAX_COLLECTIONS_def)
next
  case (Some i)
  have len: "length (CollectionPaths (ParserData p)) = HID_MAX_COLLECTIONS" using assms by (simp add: hid_wf_def info_wf_def)
  obtain r where r: "find_path (CollectionPaths (ParserData p)) 1 = Some r" "\<And>j. r = Some j \<Longrightarrow> j < HID_MAX_COLLECTIONS"
    using find_path_ok [OF len, of 1] by (auto simp: HID_MAX_COLLECTIONS_def)
  show ?thesis
    using r open_collection_ok [OF assms, of _ "Some i" d] Some assms
    by (cases r) (auto simp: do_collection_def hid_wf_def [of p] intro!: step_okI)
qed

lemma do_end_collection_ok:
  assumes "hid_wf p"
  shows "step_ok (do_end_collection p)"
proof (cases "CurrCollectionPath p")
  case (Some i)
  have "i < length (CollectionPaths (ParserData p))" "path_ok (Parent (CollectionPaths (ParserData p) ! i))"
    using assms Some by (auto simp: hid_wf_def info_wf_def path_ok_def list_all_length split: option.splits)
  then show ?thesis using Some assms by (auto simp: do_end_collection_def hid_wf_def intro!: step_okI)
qed (simp add: do_end_collection_def assms step_okI)

text \<open>
  One report item: the state after it, with \<open>q\<close> the state after the usage has been taken. \<open>new_item\<close> is the item that is
  built, \<open>counted\<close> the structure with its bits added to the report.
\<close>

definition new_item :: "HID_ReportItemTypes_t \<Rightarrow> uint32 \<Rightarrow> uint16 \<Rightarrow> hid_parser \<Rightarrow> HID_ReportItem_t" where
  "new_item ty d u q =
     (let attrs = StateAttributes (Current q)
      in \<lparr>BitOffset = ReportSizeBits (ReportIDSizes (ParserData q) ! CurrReportIDInfo q) ty, ItemType = ty, ItemFlags = ucast d,
        ItemReportID = StateReportID (Current q), CollectionPath = CurrCollectionPath q,
        Attributes = attrs\<lparr>ItemUsage := (ItemUsage attrs)\<lparr>Usage := u\<rparr>\<rparr>, Value = None, PreviousValue = None\<rparr>)"

definition count_bits :: "HID_ReportItemTypes_t \<Rightarrow> hid_parser \<Rightarrow> HID_ReportInfo_t" where
  "count_bits ty q =
     (let D = ParserData q; i = CurrReportIDInfo q; s = ReportIDSizes D ! i;
          bits = ReportSizeBits s ty + ucast (BitSize (StateAttributes (Current q)))
      in D\<lparr>ReportIDSizes := (ReportIDSizes D)[i := s\<lparr>ReportSizeBits := (ReportSizeBits s)(ty := bits)\<rparr>],
           LargestReportSizeBits := max (LargestReportSizeBits D) bits\<rparr>)"

lemma total_less: "TotalReportItems D \<le> HID_MAX_REPORTITEMS \<Longrightarrow> TotalReportItems D \<noteq> HID_MAX_REPORTITEMS \<Longrightarrow>
    unat (TotalReportItems D) < 20 \<and> unat (TotalReportItems D + 1) = Suc (unat (TotalReportItems D))"
  by (auto simp: HID_MAX_REPORTITEMS_def word_le_nat_alt word_unat_eq_iff unat_plus_one8)

lemma add_item_eq:
  assumes "hid_wf p" "next_usage (Usage (ItemUsage (StateAttributes (Current p)))) p = (u, q)"
  shows "add_item F ty d p =
    (let D = count_bits ty q; x = new_item ty d u q in
     if TotalReportItems D = HID_MAX_REPORTITEMS then Some (Some HID_PARSE_InsufficientReportItems, q\<lparr>ParserData := D\<rparr>)
     else Some (None, q\<lparr>ParserData := D\<lparr>ReportItems := (ReportItems D)[unat (TotalReportItems D) := x],
       TotalReportItems := TotalReportItems D + of_bool (d AND HID_IOF_CONSTANT = 0 \<and> F x)\<rparr>\<rparr>))"
proof -
  note q = next_usage_frame [OF assms(2)]
  have w: "CurrReportIDInfo p < length (ReportIDSizes (ParserData p))" "length (ReportItems (ParserData p)) = 20"
    "TotalReportItems (ParserData p) \<le> HID_MAX_REPORTITEMS"
    using assms(1) by (auto simp: hid_wf_def info_wf_def word_le_nat_alt HID_MAX_REPORT_IDS_def)
  show ?thesis using q(2-) assms(2) w total_less [OF w(3)]
    by (auto simp: add_item_def Let_def new_item_def count_bits_def)
qed

lemma count_bits_wf: "info_wf (ParserData q) \<Longrightarrow> info_wf (count_bits ty q)" "TotalReportItems (count_bits ty q) = TotalReportItems (ParserData q)"
  "TotalDeviceReports (count_bits ty q) = TotalDeviceReports (ParserData q)" "ReportItems (count_bits ty q) = ReportItems (ParserData q)"
  by (simp_all add: count_bits_def Let_def info_wf_def)

lemma info_wf_item:
  assumes "info_wf D" "path_ok (CollectionPath x)" "TotalReportItems D \<noteq> HID_MAX_REPORTITEMS"
  shows "info_wf (D\<lparr>ReportItems := (ReportItems D)[i := x], TotalReportItems := TotalReportItems D + of_bool b\<rparr>)"
proof -
  have "TotalReportItems D + of_bool b \<le> HID_MAX_REPORTITEMS"
    using assms(1,3) total_less [of D] by (cases b) (auto simp: info_wf_def word_le_nat_alt HID_MAX_REPORTITEMS_def)
  then show ?thesis using assms by (auto simp: info_wf_def list_all_iff dest!: set_update_subset_insert [THEN subsetD])
qed

lemma add_item_ok:
  assumes "hid_wf p"
  shows "step_ok (add_item F ty d p)"
proof -
  obtain u q where u: "next_usage (Usage (ItemUsage (StateAttributes (Current p)))) p = (u, q)" by fastforce
  have q: "hid_wf q" using next_usage_frame [OF u] assms by blast
  have wf: "info_wf (count_bits ty q)" using q by (simp add: hid_wf_def count_bits_wf)
  have "path_ok (CollectionPath (new_item ty d u q))" using q by (simp add: new_item_def Let_def hid_wf_def)
  note item = info_wf_item [OF wf this]
  show ?thesis unfolding add_item_eq [OF assms u] Let_def
  proof (split if_split, intro conjI impI step_okI)
    show "hid_wf (q\<lparr>ParserData := count_bits ty q\<rparr>)" using q wf by (simp add: hid_wf_def count_bits_wf(3))
  next
    assume "TotalReportItems (count_bits ty q) \<noteq> HID_MAX_REPORTITEMS"
    from item [OF this] show "hid_wf (q\<lparr>ParserData := (count_bits ty q)\<lparr>
        ReportItems := (ReportItems (count_bits ty q))[unat (TotalReportItems (count_bits ty q)) := new_item ty d u q],
        TotalReportItems := TotalReportItems (count_bits ty q) + of_bool (d AND HID_IOF_CONSTANT = 0 \<and> F (new_item ty d u q))\<rparr>\<rparr>)"
      using q by (simp add: hid_wf_def count_bits_wf(3))
  qed
qed

lemma add_items_ok: "hid_wf p \<Longrightarrow> step_ok (add_items n F ty d p)"
proof (induction n arbitrary: p)
  case (Suc n)
  obtain e q where "add_item F ty d p = Some (e, q)" "hid_wf q" using add_item_ok [OF Suc.prems] unfolding step_ok_def by blast
  then show ?case using Suc.IH [of q] by (cases e) (auto intro: step_okI)
qed (simp add: step_okI)

lemma do_item_ok: "hid_wf p \<Longrightarrow> step_ok (do_item F b d p)"
  unfolding do_item_def Let_def
  by (simp add: do_push_ok do_pop_ok set_attributes_ok do_report_id_ok do_usage_ok do_collection_ok do_end_collection_ok add_items_ok
      step_okI split del: if_split split: if_split)

lemma end_main_wf: "hid_wf p \<Longrightarrow> hid_wf (end_main b p)"
  by (simp add: end_main_def hid_wf_def)

text \<open>A descriptor in which no item is cut off.\<close>

fun complete_items :: "byte list \<Rightarrow> bool" where
  "complete_items [] = True"
| "complete_items (b # r) = (data_size b \<le> length r \<and> complete_items (drop (data_size b) r))"

lemma process_items_ok:
  assumes "complete_items d" "length d < 65536" "hid_wf p"
  shows "\<exists>c q. process_items F d (of_nat (length d)) p = Some (c, q) \<and> hid_wf q"
  using assms
proof (induction d arbitrary: p rule: complete_items.induct)
  case (2 b r)
  have n: "(of_nat (length (b # r)) :: uint16) \<noteq> 0" using 2(3) unat_of_nat16 [of "length (b # r)"] by (auto simp del: unat_of_nat)
  have m: "(of_nat (length (b # r)) - 1 - of_nat (data_size b) :: uint16) = of_nat (length (drop (data_size b) r))"
    using 2(2) by (simp add: of_nat_diff)
  obtain e q where q: "do_item F b (item_data (take (data_size b) r)) p = Some (e, q)" "hid_wf q"
    using do_item_ok [OF 2(4)] unfolding step_ok_def by blast
  have step: "process_items F (b # r) N p = (case e of Some c \<Rightarrow> Some (c, q)
      | None \<Rightarrow> process_items F (drop (data_size b) r) (N - 1 - of_nat (data_size b)) (end_main b q))" if "N \<noteq> 0" for N
    using q(1) 2(2) that by (simp add: Let_def)
  have "\<exists>c s. process_items F (drop (data_size b) r) (of_nat (length (drop (data_size b) r))) (end_main b q) = Some (c, s) \<and> hid_wf s"
    using 2(2,3) end_main_wf [OF q(2)] by (intro 2(1)) simp_all
  then show ?case unfolding step [OF n] m using q(2) by (cases e) auto
qed simp

end
