(* ===== verification/HID_Reports.thy ===== *)
theory HID_Reports
  imports HID_Safety
begin

text \<open>
  What the parser makes of a descriptor and what the report functions do with the result: descriptors written with the
  macros are complete, main items lay their fields out side by side, and fields that do not overlap can be written and
  read independently. Ends with the properties of the parser.
\<close>

section \<open>Written descriptors\<close>

fun payload :: "data_bits \<Rightarrow> uint32" where
  "payload No_data = 0"
| "payload (Bits_8 d) = d AND mask 8"
| "payload (Bits_16 d) = d AND mask 16"
| "payload (Bits_32 d) = d"

lemma mask_FF: "(0xFF :: uint32) = mask 8"
  by (simp add: mask_eq_exp_minus_1)

lemma low_byte32: "(ucast (d AND 0xFF :: uint32) :: byte) = ucast d"
  unfolding mask_FF by (rule bit_word_eqI) (auto simp: bit_simps)

lemma wide_shift: "(ucast (push_bit 8 (ucast (b :: byte) :: uint16)) :: uint32) = push_bit 8 (ucast b)"
  by (rule bit_word_eqI) (auto simp: bit_simps byte_high_bits dest: bit_imp_le_length)

lemma item_data_4: "item_data [a, b, c, d] = of_le32 [a, b, c, d]"
  by (simp add: wide_shift ac_simps)

lemma item_data_1: "item_data [ucast d] = (d :: uint32) AND mask 8"
  by (rule bit_word_eqI) (auto simp: bit_simps)

lemma item_data_2: "item_data [ucast d, ucast (drop_bit 8 d)] = (d :: uint32) AND mask 16"
proof (rule bit_word_eqI)
  fix n assume "n < LENGTH(32)"
  then show "bit (item_data [ucast d, ucast (drop_bit 8 d)]) n = bit (d AND mask 16) n"
    by (cases "n < 8") (auto simp: bit_simps)
qed

lemma item_data_bytes:
  "item_data [ucast (d AND 0xFF)] = d AND mask 8"
  "item_data [ucast (d AND 0xFF), ucast (drop_bit 8 d AND 0xFF)] = d AND mask 16"
  "item_data [ucast (d AND 0xFF), ucast (drop_bit 8 d AND 0xFF), ucast (drop_bit 16 d AND 0xFF), ucast (drop_bit 24 d AND 0xFF)] = d"
  using of_le32_le32 [of d "[]"] by (simp_all only: low_byte32 item_data_1 item_data_2 item_data_4 le32_def append_Nil2)

lemma item_tag_byte:
  assumes "k \<in> {0, 1, 2, 3}"
  shows "(item_tag t OR k) AND (HID_RI_TYPE_MASK OR HID_RI_TAG_MASK) = item_tag t" "(item_tag t OR k) AND HID_RI_DATA_SIZE_MASK = k"
  using assms by (cases t; auto simp: HID_RI_TYPE_MASK_def HID_RI_TAG_MASK_def HID_RI_DATA_SIZE_MASK_def)+

lemma ri_entry_parts:
  obtains b r where "ri_entry (t, D) = b # r" "b AND (HID_RI_TYPE_MASK OR HID_RI_TAG_MASK) = item_tag t" "data_size b = length r"
    "item_data r = payload D"
proof -
  let ?k = "(case D of No_data \<Rightarrow> 0 | Bits_8 d \<Rightarrow> 1 | Bits_16 d \<Rightarrow> 2 | Bits_32 d \<Rightarrow> 3) :: uint8"
  have k: "?k \<in> {0, 1, 2, 3}" by (cases D) auto
  have "hd (ri_entry (t, D)) = item_tag t OR ?k" by (cases D) simp_all
  then show ?thesis using item_tag_byte [OF k, of t] item_data_bytes
    by (intro that [of "hd (ri_entry (t, D))" "tl (ri_entry (t, D))"]; cases D) (simp_all add: data_size_def Let_def)
qed

lemma complete_entries: "complete_items (concat (map ri_entry xs))"
proof (induction xs)
  case (Cons x xs)
  obtain t D where x: "x = (t, D)" by (cases x)
  show ?case using Cons by (rule_tac ri_entry_parts [of t D]) (simp add: x)
qed simp

lemma unat_ucast8: "unat (ucast (w :: uint8) :: uint16) = unat w"
proof -
  have "unat w < 2 ^ 16" using unat_less_256 [of w] by (rule order.strict_trans) simp
  then show ?thesis by (simp add: unsigned_ucast_eq take_bit_nat_eq_self)
qed

section \<open>Layout of a main item\<close>

definition bits_used :: "HID_ReportItemTypes_t \<Rightarrow> hid_parser \<Rightarrow> nat" where
  "bits_used ty p = unat (ReportSizeBits (ReportIDSizes (ParserData p) ! CurrReportIDInfo p) ty)"

definition items_stored :: "hid_parser \<Rightarrow> HID_ReportItem_t list" where
  "items_stored p = take (unat (TotalReportItems (ParserData p))) (ReportItems (ParserData p))"

text \<open>
  The reference: the usages that the next \<open>n\<close> items take, the item at an offset, the \<open>n\<close> items of a main item side by
  side behind the bits the report has so far (offsets are 16 bits wide), and those of them that are stored: none of a constant item, of another
  one those the application's filter accepts.
\<close>

fun item_usages :: "nat \<Rightarrow> hid_parser \<Rightarrow> uint16 list" where
  "item_usages 0 p = []"
| "item_usages (Suc n) p = (case next_usage (Usage (ItemUsage (StateAttributes (Current p)))) p of (u, q) \<Rightarrow> u # item_usages n q)"

definition item_at :: "HID_ReportItemTypes_t \<Rightarrow> uint32 \<Rightarrow> hid_parser \<Rightarrow> nat \<Rightarrow> uint16 \<Rightarrow> HID_ReportItem_t" where
  "item_at ty d p off u =
     (let attrs = StateAttributes (Current p)
      in \<lparr>BitOffset = of_nat off, ItemType = ty, ItemFlags = ucast d, ItemReportID = StateReportID (Current p),
        CollectionPath = CurrCollectionPath p, Attributes = attrs\<lparr>ItemUsage := (ItemUsage attrs)\<lparr>Usage := u\<rparr>\<rparr>,
        Value = None, PreviousValue = None\<rparr>)"

definition main_items :: "nat \<Rightarrow> HID_ReportItemTypes_t \<Rightarrow> uint32 \<Rightarrow> hid_parser \<Rightarrow> HID_ReportItem_t list" where
  "main_items n ty d p =
     map (\<lambda>k. item_at ty d p (bits_used ty p + k * unat (BitSize (StateAttributes (Current p)))) (item_usages n p ! k)) [0..<n]"

definition kept :: "(HID_ReportItem_t \<Rightarrow> bool) \<Rightarrow> uint32 \<Rightarrow> HID_ReportItem_t list \<Rightarrow> HID_ReportItem_t list" where
  "kept F d xs = (if d AND HID_IOF_CONSTANT = 0 then filter F xs else [])"

text \<open>The table of 20 items is full before one of the items comes up.\<close>

fun table_full :: "(HID_ReportItem_t \<Rightarrow> bool) \<Rightarrow> uint32 \<Rightarrow> nat \<Rightarrow> HID_ReportItem_t list \<Rightarrow> bool" where
  "table_full F d m [] = False"
| "table_full F d m (x # xs) \<longleftrightarrow> m = 20 \<or> table_full F d (m + length (kept F d [x])) xs"

lemma kept_Cons: "kept F d (x # xs) = kept F d [x] @ kept F d xs"
  by (simp add: kept_def)

lemma table_full_iff:
  "m \<le> 20 \<Longrightarrow> table_full F d m xs \<longleftrightarrow> (\<exists>k<length xs. m + length (kept F d (take k xs)) = 20)"
proof (induction xs arbitrary: m)
  case (Cons x xs)
  show ?case
  proof (cases "m = 20")
    case False
    then have m: "m + length (kept F d [x]) \<le> 20" using Cons.prems by (simp add: kept_def)
    have "kept F d (take 0 (x # xs)) = []" "kept F d (take (Suc k) (x # xs)) = kept F d [x] @ kept F d (take k xs)" for k
      by (simp_all add: kept_def)
    then have "(\<exists>k<length (x # xs). m + length (kept F d (take k (x # xs))) = 20) \<longleftrightarrow>
        (\<exists>k<length xs. m + length (kept F d [x]) + length (kept F d (take k xs)) = 20)"
      using False by (simp only: list.size Ex_less_Suc2 add_0_right add_Suc_right length_append add.assoc simp_thms)
    then show ?thesis using False Cons.IH [OF m] by simp
  qed (auto simp: kept_def)
qed simp

lemma item_usages_data [simp]: "item_usages n (q\<lparr>ParserData := D\<rparr>) = item_usages n q"
proof (induction n arbitrary: q)
  case (Suc n)
  have "next_usage v (q\<lparr>ParserData := D\<rparr>) = (fst (next_usage v q), (snd (next_usage v q))\<lparr>ParserData := D\<rparr>)" for v
    by (simp add: next_usage_def split: list.split)
  then show ?case using Suc by (simp add: case_prod_beta)
qed simp

lemma length_item_usages [simp]: "length (item_usages n p) = n"
  by (induction n arbitrary: p) (simp_all add: case_prod_beta)

lemma length_items_stored: "hid_wf p \<Longrightarrow> length (items_stored p) = unat (TotalReportItems (ParserData p))" "hid_wf p \<Longrightarrow> length (items_stored p) \<le> 20"
  by (auto simp: items_stored_def hid_wf_def info_wf_def word_le_nat_alt HID_MAX_REPORTITEMS_def)

text \<open>One iteration of the loop over the report count.\<close>

lemma add_item_step:
  assumes "hid_wf p" "next_usage (Usage (ItemUsage (StateAttributes (Current p)))) p = (u, q)"
  shows "\<exists>r. add_item F ty d p = Some (if length (items_stored p) = 20 then Some HID_PARSE_InsufficientReportItems else None, r) \<and>
    hid_wf r \<and> items_stored r = take 20 (items_stored p @ kept F d [item_at ty d p (bits_used ty p) u]) \<and>
    bits_used ty r = (bits_used ty p + unat (BitSize (StateAttributes (Current p)))) mod 65536 \<and> r = q\<lparr>ParserData := ParserData r\<rparr>"
proof -
  note q = next_usage_frame [OF assms(2)] and len = length_items_stored [OF assms(1)]
  let ?x = "item_at ty d p (bits_used ty p) u" and ?E = "count_bits ty q"
  have x: "new_item ty d u q = ?x" using q(2-5) by (simp add: new_item_def item_at_def Let_def bits_used_def)
  have w: "length (ReportItems (ParserData p)) = 20" "TotalReportItems (ParserData p) \<le> HID_MAX_REPORTITEMS"
      "CurrReportIDInfo p < length (ReportIDSizes (ParserData p))"
    using assms(1) by (auto simp: hid_wf_def info_wf_def word_le_nat_alt HID_MAX_REPORT_IDS_def)
  have b: "bits_used ty (q\<lparr>ParserData := D\<rparr>) = (bits_used ty p + unat (BitSize (StateAttributes (Current p)))) mod 65536"
    if "ReportIDSizes D = ReportIDSizes ?E" for D
    using w(3) q(2-5) that by (simp add: bits_used_def count_bits_def Let_def unat_word_ariths unat_ucast8)
  have full: "length (items_stored p) = 20 \<longleftrightarrow> TotalReportItems ?E = HID_MAX_REPORTITEMS"
    using len(1) q(2) by (simp add: count_bits_wf(2) HID_MAX_REPORTITEMS_def word_unat_eq_iff)
  obtain e r where r: "add_item F ty d p = Some (e, r)" "hid_wf r" using add_item_ok [OF assms(1), of F ty d] by (auto simp: step_ok_def)
  show ?thesis
  proof (cases "length (items_stored p) = 20")
    case True
    then have e: "e = Some HID_PARSE_InsufficientReportItems" "r = q\<lparr>ParserData := ?E\<rparr>"
      using r(1) full unfolding add_item_eq [OF assms] by (simp_all add: Let_def)
    then have "items_stored r = items_stored p" using q(2) by (simp add: items_stored_def count_bits_wf)
    then show ?thesis using r e b [of ?E] True by simp
  next
    case False
    let ?k = "d AND HID_IOF_CONSTANT = 0 \<and> F ?x"
    let ?D = "?E\<lparr>ReportItems := (ReportItems ?E)[unat (TotalReportItems ?E) := ?x], TotalReportItems := TotalReportItems ?E + of_bool ?k\<rparr>"
    have e: "e = None" "r = q\<lparr>ParserData := ?D\<rparr>"
      using r(1) full False unfolding add_item_eq [OF assms] x by (simp_all add: Let_def)
    have t: "unat (TotalReportItems (ParserData p)) < 20"
        "unat (TotalReportItems (ParserData p) + 1) = Suc (unat (TotalReportItems (ParserData p)))"
      using total_less [OF w(2)] full False q(2) by (simp_all add: count_bits_wf)
    have "items_stored r = items_stored p @ kept F d [?x]"
      using t w(1) q(2) by (auto simp: e items_stored_def count_bits_wf kept_def take_Suc_conv_app_nth)
    moreover have "length (items_stored p @ kept F d [?x]) \<le> 20" using len False by (simp add: kept_def)
    ultimately show ?thesis using r e b [of ?D] False by simp
  qed
qed

lemma main_items_Suc:
  assumes "next_usage (Usage (ItemUsage (StateAttributes (Current p)))) p = (u, q)" "r = q\<lparr>ParserData := ParserData r\<rparr>"
    "bits_used ty r = (bits_used ty p + unat (BitSize (StateAttributes (Current p)))) mod 65536"
  shows "main_items (Suc n) ty d p = item_at ty d p (bits_used ty p) u # main_items n ty d r"
proof -
  let ?s = "unat (BitSize (StateAttributes (Current p)))"
  have c: "Current r = Current p" "CurrCollectionPath r = CurrCollectionPath p" "item_usages n r = item_usages n q"
    using next_usage_frame [OF assms(1)] by (subst assms(2), simp)+
  have "(of_nat (bits_used ty r + k * ?s) :: uint16) = of_nat (bits_used ty p + Suc k * ?s)" for k
  proof -
    have "(of_nat (m mod 65536) :: uint16) = of_nat m" for m by (simp add: word_unat_eq_iff unat_of_nat)
    then show ?thesis using assms(3) by (simp add: ac_simps)
  qed
  then have "item_at ty d r (bits_used ty r + k * ?s) v = item_at ty d p (bits_used ty p + Suc k * ?s) v" for k v
    using c by (simp add: item_at_def Let_def)
  then show ?thesis using assms(1) c
    unfolding main_items_def by (simp add: upt_conv_Cons map_Suc_upt [symmetric] del: upt_Suc)
qed

text \<open>The loop.\<close>

lemma add_items_layout:
  assumes "hid_wf p"
  shows "\<exists>q. add_items n F ty d p =
      Some (if table_full F d (length (items_stored p)) (main_items n ty d p) then Some HID_PARSE_InsufficientReportItems else None, q) \<and>
    items_stored q = take 20 (items_stored p @ kept F d (main_items n ty d p)) \<and>
    (\<not> table_full F d (length (items_stored p)) (main_items n ty d p) \<longrightarrow>
      bits_used ty q = (bits_used ty p + n * unat (BitSize (StateAttributes (Current p)))) mod 65536)"
  using assms
proof (induction n arbitrary: p)
  case 0
  have "bits_used ty p < 65536" using unsigned_less [of "ReportSizeBits (ReportIDSizes (ParserData p) ! CurrReportIDInfo p) ty"]
    by (simp add: bits_used_def)
  then show ?case using length_items_stored(2) [OF 0] by (simp add: main_items_def kept_def)
next
  case (Suc n)
  let ?s = "unat (BitSize (StateAttributes (Current p)))"
  obtain u q where u: "next_usage (Usage (ItemUsage (StateAttributes (Current p)))) p = (u, q)" by fastforce
  let ?x = "item_at ty d p (bits_used ty p) u"
  obtain r where r: "add_item F ty d p = Some (if length (items_stored p) = 20 then Some HID_PARSE_InsufficientReportItems else None, r)"
    "hid_wf r" "items_stored r = take 20 (items_stored p @ kept F d [?x])" "bits_used ty r = (bits_used ty p + ?s) mod 65536"
    "r = q\<lparr>ParserData := ParserData r\<rparr>" using add_item_step [OF Suc.prems u, of F ty d] by blast
  note xs = main_items_Suc [OF u r(5,4), of n d]
  have s: "unat (BitSize (StateAttributes (Current r))) = ?s" using next_usage_frame [OF u] by (subst r(5)) simp
  note len = length_items_stored(2) [OF Suc.prems]
  show ?case
  proof (cases "length (items_stored p) = 20")
    case True
    then show ?thesis using r(1,3) by (intro exI [of _ r]) (simp add: xs)
  next
    case False
    then have k: "items_stored r = items_stored p @ kept F d [?x]" using r(3) len by (auto simp: kept_def)
    have m: "((bits_used ty p + ?s) mod 65536 + n * ?s) mod 65536 = (bits_used ty p + Suc n * ?s) mod 65536"
      by (simp add: mod_add_left_eq add.assoc)
    show ?thesis using Suc.IH [OF r(2)] r(1,4) False unfolding xs s k table_full.simps
      by (simp add: kept_Cons [of F d ?x "main_items n ty d r"] m)
  qed
qed

section \<open>Reading and writing reports\<close>

text \<open>Bit \<open>i\<close> of a report.\<close>

definition report_bit :: "byte list \<Rightarrow> nat \<Rightarrow> bool" where
  "report_bit d i \<longleftrightarrow> i div 8 < length d \<and> bit (d ! (i div 8)) (i mod 8)"

lemma current_bit:
  assumes "unat c + Suc n \<le> 65536" "unat (c :: uint16) < 8 * len"
  shows "unat (c div 8) = unat c div 8" "unat (c mod 8) = unat c mod 8" "unat c div 8 < len"
    "n \<noteq> 0 \<Longrightarrow> unat (c + 1) = Suc (unat c)"
  using assms by (simp_all add: unat_div unat_mod unat_word_ariths less_mult_imp_div_less mult.commute)

text \<open>The first bit of a run and the bits behind it.\<close>

lemma next_bit:
  "i = a \<and> f k \<or> Suc a \<le> i \<and> i < Suc a + n \<and> f (Suc k + (i - Suc a)) \<longleftrightarrow> a \<le> i \<and> i < a + Suc n \<and> f (k + (i - a))"
proof (cases "a < i")
  case True
  then have "Suc k + (i - Suc a) = k + (i - a)" by simp
  then show ?thesis using True by auto
qed auto

lemma get_bits_eq:
  assumes "unat c + n \<le> 8 * length d" "unat c + n \<le> 65536"
  shows "\<exists>w. get_bits n d c (push_bit k 1) v = Some w \<and>
    (\<forall>j<32. bit w j \<longleftrightarrow> bit v j \<or> k \<le> j \<and> j < k + n \<and> report_bit d (unat c + (j - k)))"
  using assms
proof (induction n arbitrary: c k v)
  case (Suc n)
  note c = current_bit [of c n "length d"]
  let ?v = "if d ! (unat c div 8) AND push_bit (unat c mod 8) 1 \<noteq> 0 then v OR push_bit k 1 else v"
  have v: "bit ?v j \<longleftrightarrow> bit v j \<or> j = k \<and> report_bit d (unat c)" if "j < 32" for j
    using that Suc.prems c by (auto simp: and_exp_eq_0_iff_not_bit report_bit_def bit_simps)
  have step: "get_bits (Suc n) d c (push_bit k 1) v = get_bits n d (c + 1) (push_bit (Suc k) 1) ?v"
    using Suc.prems c by (simp add: Let_def mult.commute)
  have "\<exists>w. get_bits n d (c + 1) (push_bit (Suc k) 1) ?v = Some w \<and>
      (\<forall>j<32. bit w j \<longleftrightarrow> bit ?v j \<or> Suc k \<le> j \<and> j < Suc k + n \<and> report_bit d (Suc (unat c) + (j - Suc k)))"
  proof (cases "n = 0")
    case False
    then have "unat (c + 1) = Suc (unat c)" using Suc.prems c by simp
    then show ?thesis using Suc.IH [of "c + 1" "Suc k" ?v] Suc.prems by simp
  qed auto
  then show ?case unfolding step next_bit [where f = "report_bit d", symmetric] using v by auto
qed auto

lemma report_bit_set:
  assumes "i div 8 < length d"
  shows "report_bit (d[i div 8 := d ! (i div 8) OR push_bit (i mod 8) 1]) j \<longleftrightarrow> report_bit d j \<or> j = i"
proof (cases "j div 8 = i div 8")
  case True
  have "bit (push_bit (i mod 8) (1 :: byte)) (j mod 8) \<longleftrightarrow> j mod 8 = i mod 8" by (auto simp: bit_simps)
  moreover have "j = i \<longleftrightarrow> j mod 8 = i mod 8" using True by (metis div_mult_mod_eq)
  ultimately show ?thesis using assms True by (simp add: report_bit_def bit_or_iff del: push_bit_of_1)
next
  case False
  then show ?thesis using assms by (auto simp: report_bit_def)
qed

lemma set_bits_eq:
  assumes "unat c + n \<le> 8 * length d" "unat c + n \<le> 65536"
  shows "\<exists>d'. set_bits n d c (push_bit k 1) v = Some d' \<and> length d' = length d \<and>
    (\<forall>i. report_bit d' i \<longleftrightarrow> report_bit d i \<or> unat c \<le> i \<and> i < unat c + n \<and> bit v (k + (i - unat c)))"
  using assms
proof (induction n arbitrary: c k d)
  case (Suc n)
  note c = current_bit [of c n "length d"]
  define e where "e = (if bit v k then d[unat c div 8 := d ! (unat c div 8) OR push_bit (unat c mod 8) 1] else d)"
  have len: "length e = length d" by (simp add: e_def)
  have e: "report_bit e i \<longleftrightarrow> report_bit d i \<or> i = unat c \<and> bit v k" for i
    using report_bit_set [of "unat c" d i] Suc.prems c by (auto simp: e_def)
  have "v AND push_bit k 1 \<noteq> 0 \<longleftrightarrow> bit v k" by (simp add: and_exp_eq_0_iff_not_bit)
  then have step: "set_bits (Suc n) d c (push_bit k 1) v = set_bits n e (c + 1) (push_bit (Suc k) 1) v"
    using Suc.prems c by (simp add: mult.commute e_def)
  have "\<exists>d'. set_bits n e (c + 1) (push_bit (Suc k) 1) v = Some d' \<and> length d' = length d \<and>
      (\<forall>i. report_bit d' i \<longleftrightarrow> report_bit e i \<or> Suc (unat c) \<le> i \<and> i < Suc (unat c) + n \<and> bit v (Suc k + (i - Suc (unat c))))"
  proof (cases "n = 0")
    case False
    then have "unat (c + 1) = Suc (unat c)" using Suc.prems c by simp
    then show ?thesis using Suc.IH [of "c + 1" e "Suc k"] Suc.prems len by simp
  qed (auto simp: len)
  then show ?case unfolding step next_bit [where f = "bit v", symmetric] e disj_assoc .
qed auto

section \<open>Writing and reading reports\<close>

text \<open>The bits of an item, and the part of the buffer behind the report ID.\<close>

definition field :: "HID_ReportItem_t \<Rightarrow> nat set" where
  "field x = {unat (BitOffset x)..<unat (BitOffset x) + unat (BitSize (Attributes x))}"

definition body :: "uint8 \<Rightarrow> byte list \<Rightarrow> byte list" where
  "body r d = (if r = 0 then d else drop 1 d)"

definition fits :: "uint8 \<Rightarrow> byte list \<Rightarrow> HID_ReportItem_t \<Rightarrow> bool" where
  "fits r d x \<longleftrightarrow> ItemReportID x = r \<and> unat (BitOffset x) + unat (BitSize (Attributes x)) \<le> 8 * length (body r d) \<and>
     (r \<noteq> 0 \<longrightarrow> d \<noteq> []) \<and> length d \<le> 8192"

lemma set_item:
  assumes "fits r d x" "Value x = Some v"
  shows "\<exists>d'. USB_SetHIDReportItemInfo d (Some x) = Some (d', Some (x\<lparr>PreviousValue := Some v\<rparr>)) \<and> length d' = length d \<and>
    (r \<noteq> 0 \<longrightarrow> hd d' = r) \<and>
    (\<forall>i. report_bit (body r d') i \<longleftrightarrow> report_bit (body r d) i \<or> i \<in> field x \<and> bit v (i - unat (BitOffset x)))"
proof -
  let ?n = "unat (BitSize (Attributes x))"
  have "length (body r d) \<le> 8192" using assms(1) by (auto simp: fits_def body_def)
  then have l: "unat (BitOffset x) + ?n \<le> 8 * length (body r d)" "unat (BitOffset x) + ?n \<le> 65536"
    using assms(1) by (auto simp: fits_def)
  obtain e where e: "set_bits ?n (body r d) (BitOffset x) (push_bit 0 1) v = Some e" "length e = length (body r d)"
    "\<forall>i. report_bit e i \<longleftrightarrow> report_bit (body r d) i \<or> unat (BitOffset x) \<le> i \<and> i < unat (BitOffset x) + ?n \<and>
      bit v (0 + (i - unat (BitOffset x)))"
    using set_bits_eq [OF l, of 0 v] by blast
  have x: "ItemReportID x = r" "r \<noteq> 0 \<Longrightarrow> d \<noteq> []" using assms(1) by (auto simp: fits_def)
  show ?thesis
  proof (cases "r = 0")
    case True
    then show ?thesis using e x assms(2) by (simp add: USB_SetHIDReportItemInfo_def Let_def body_def field_def)
  next
    case False
    then obtain b c where d: "d = b # c" using x(2) by (cases d) auto
    then show ?thesis using e x assms(2) False by (simp add: USB_SetHIDReportItemInfo_def Let_def body_def field_def)
  qed
qed

lemma get_item:
  assumes "fits r d x" "r \<noteq> 0 \<longrightarrow> hd d = r"
  shows "\<exists>w. USB_GetHIDReportItemInfo d (Some x) = Some (True, Some (x\<lparr>PreviousValue := Value x, Value := Some w\<rparr>)) \<and>
    (\<forall>j<32. bit w j \<longleftrightarrow> j < unat (BitSize (Attributes x)) \<and> report_bit (body r d) (unat (BitOffset x) + j))"
proof -
  let ?n = "unat (BitSize (Attributes x))"
  have "length (body r d) \<le> 8192" using assms(1) by (auto simp: fits_def body_def)
  then have l: "unat (BitOffset x) + ?n \<le> 8 * length (body r d)" "unat (BitOffset x) + ?n \<le> 65536"
    using assms(1) by (auto simp: fits_def)
  obtain w where w: "get_bits ?n (body r d) (BitOffset x) (push_bit 0 1) 0 = Some w"
    "\<forall>j<32. bit w j \<longleftrightarrow> bit (0 :: uint32) j \<or> 0 \<le> j \<and> j < 0 + ?n \<and> report_bit (body r d) (unat (BitOffset x) + (j - 0))"
    using get_bits_eq [OF l, of 0 0] by blast
  have x: "ItemReportID x = r" "r \<noteq> 0 \<Longrightarrow> d \<noteq> []" using assms(1) by (auto simp: fits_def)
  show ?thesis
  proof (cases "r = 0")
    case True
    then show ?thesis using w x by (intro exI [of _ w]) (simp add: USB_GetHIDReportItemInfo_def Let_def body_def)
  next
    case False
    then obtain c where d: "d = r # c" using x(2) assms(2) by (cases d) auto
    then show ?thesis using w x False by (intro exI [of _ w]) (simp add: USB_GetHIDReportItemInfo_def Let_def body_def)
  qed
qed

text \<open>Writing several items one after the other.\<close>

definition write_items :: "HID_ReportItem_t list \<Rightarrow> byte list \<Rightarrow> byte list option" where
  "write_items = fold_opt (\<lambda>x d. map_option fst (USB_SetHIDReportItemInfo d (Some x)))"

lemma fits_cong: "length d' = length d \<Longrightarrow> fits r d' x = fits r d x"
  by (auto simp: fits_def body_def)

lemma write_items_bits:
  assumes "\<forall>x\<in>set xs. fits r d x \<and> Value x \<noteq> None"
  shows "\<exists>d'. write_items xs d = Some d' \<and> length d' = length d \<and> (r \<noteq> 0 \<longrightarrow> xs \<noteq> [] \<or> hd d = r \<longrightarrow> hd d' = r) \<and>
    (\<forall>i. report_bit (body r d') i \<longleftrightarrow> report_bit (body r d) i \<or>
      (\<exists>x\<in>set xs. i \<in> field x \<and> bit (the (Value x)) (i - unat (BitOffset x))))"
  using assms
proof (induction xs arbitrary: d)
  case (Cons x xs)
  obtain v where v: "Value x = Some v" using Cons.prems by auto
  obtain e where e: "USB_SetHIDReportItemInfo d (Some x) = Some (e, Some (x\<lparr>PreviousValue := Some v\<rparr>))" "length e = length d"
    "r \<noteq> 0 \<longrightarrow> hd e = r"
    "\<forall>i. report_bit (body r e) i \<longleftrightarrow> report_bit (body r d) i \<or> i \<in> field x \<and> bit v (i - unat (BitOffset x))"
    using set_item [of r d x v] Cons.prems v by auto
  have "\<forall>y\<in>set xs. fits r e y \<and> Value y \<noteq> None" using Cons.prems fits_cong [OF e(2)] by simp
  from Cons.IH [OF this] obtain d' where "write_items xs e = Some d'" "length d' = length e" "r \<noteq> 0 \<longrightarrow> xs \<noteq> [] \<or> hd e = r \<longrightarrow> hd d' = r"
    "\<forall>i. report_bit (body r d') i \<longleftrightarrow> report_bit (body r e) i \<or> (\<exists>x\<in>set xs. i \<in> field x \<and> bit (the (Value x)) (i - unat (BitOffset x)))"
    by blast
  then show ?case using e v by (auto simp: write_items_def)
qed (simp add: write_items_def)

lemma report_fields:
  assumes "\<forall>x\<in>set xs. fits r d x \<and> Value x \<noteq> None" "\<forall>x\<in>set xs. \<forall>y\<in>set xs. x \<noteq> y \<longrightarrow> field x \<inter> field y = {}"
    "\<forall>i. \<not> report_bit (body r d) i"
  shows "\<exists>d'. write_items xs d = Some d' \<and> length d' = length d \<and>
    (\<forall>x\<in>set xs. USB_GetHIDReportItemInfo d' (Some x) =
      Some (True, Some (x\<lparr>PreviousValue := Value x, Value := Some (take_bit (unat (BitSize (Attributes x))) (the (Value x)))\<rparr>)))"
proof -
  obtain d' where d': "write_items xs d = Some d'" "length d' = length d" "r \<noteq> 0 \<longrightarrow> xs \<noteq> [] \<or> hd d = r \<longrightarrow> hd d' = r"
    "\<forall>i. report_bit (body r d') i \<longleftrightarrow> (\<exists>x\<in>set xs. i \<in> field x \<and> bit (the (Value x)) (i - unat (BitOffset x)))"
    using write_items_bits [OF assms(1)] assms(3) by auto
  have "USB_GetHIDReportItemInfo d' (Some x) =
      Some (True, Some (x\<lparr>PreviousValue := Value x, Value := Some (take_bit (unat (BitSize (Attributes x))) (the (Value x)))\<rparr>))"
    if x: "x \<in> set xs" for x
  proof -
    have "fits r d' x" "r \<noteq> 0 \<longrightarrow> hd d' = r" using assms(1) x d'(3) fits_cong [OF d'(2)] by auto
    from get_item [OF this] obtain w where w: "USB_GetHIDReportItemInfo d' (Some x) = Some (True, Some (x\<lparr>PreviousValue := Value x, Value := Some w\<rparr>))"
      "\<forall>j<32. bit w j \<longleftrightarrow> j < unat (BitSize (Attributes x)) \<and> report_bit (body r d') (unat (BitOffset x) + j)" by blast
    have "report_bit (body r d') (unat (BitOffset x) + j) \<longleftrightarrow> bit (the (Value x)) j" if "j < unat (BitSize (Attributes x))" for j
    proof -
      have "unat (BitOffset x) + j \<in> field x" using that by (simp add: field_def)
      then show ?thesis using d'(4) assms(2) x by (metis add_diff_cancel_left' disjoint_iff)
    qed
    then have "w = take_bit (unat (BitSize (Attributes x))) (the (Value x))"
      using w(2) by (intro bit_word_eqI) (auto simp: bit_take_bit_iff)
    then show ?thesis using w(1) by simp
  qed
  then show ?thesis using d'(1,2) by blast
qed

text \<open>A field of no bits is empty, so items side by side never overlap.\<close>

lemma side_by_side:
  assumes "unat (BitOffset x) = b + k * s" "unat (BitOffset y) = b + l * s" "unat (BitSize (Attributes x)) = s"
    "unat (BitSize (Attributes y)) = s" "k \<noteq> l"
  shows "field x \<inter> field y = {}"
proof -
  have "k * s + s \<le> l * s \<or> l * s + s \<le> k * s" using assms(5)
    by (metis add.commute linorder_neqE_nat mult_Suc mult_le_mono1 Suc_leI)
  then show ?thesis using assms(1-4) by (auto simp: field_def)
qed

section \<open>Defects\<close>

definition accept :: "HID_ReportItem_t \<Rightarrow> bool" where
  "accept x = True"

definition parse_entries :: "(HID_RI \<times> data_bits) list \<Rightarrow> (HID_Parse_ErrorCodes_t \<times> HID_ReportInfo_t) option" where
  "parse_entries xs = (let d = concat (map ri_entry xs) in USB_ProcessHIDReport accept d (of_nat (length d)))"

text \<open>
  \<open>POP\<close> restores the report ID of the state table but not the report whose bits are counted: the last item belongs to
  report 1, but its offset is one of report 2, behind the end of report 1.
\<close>

lemma pop_mixes_reports:
  "case parse_entries [(HID_RI_REPORT_SIZE, Bits_8 8), (HID_RI_REPORT_COUNT, Bits_8 1), (HID_RI_REPORT_ID, Bits_8 1), (HID_RI_INPUT, Bits_8 2),
     (HID_RI_PUSH, No_data), (HID_RI_REPORT_ID, Bits_8 2), (HID_RI_INPUT, Bits_8 2), (HID_RI_POP, No_data), (HID_RI_INPUT, Bits_8 2)] of
     None \<Rightarrow> False
   | Some (c, info) \<Rightarrow> c = HID_PARSE_Successful \<and>
       map (\<lambda>x. (ItemReportID x, BitOffset x)) (take 3 (ReportItems info)) = [(1, 0), (2, 0), (1, 8)] \<and>
       USB_GetHIDReportSize info 1 HID_REPORT_ITEM_In = Some 1 \<and> USB_GetHIDReportSize info 2 HID_REPORT_ITEM_In = Some 2"
  by code_simp

text \<open>A second top-level collection takes the place of the first one, to which the items of the first still refer.\<close>

lemma collections_share_a_path:
  "case parse_entries [(HID_RI_USAGE_PAGE, Bits_8 1), (HID_RI_REPORT_SIZE, Bits_8 8), (HID_RI_REPORT_COUNT, Bits_8 1),
     (HID_RI_USAGE, Bits_8 2), (HID_RI_COLLECTION, Bits_8 1), (HID_RI_INPUT, Bits_8 2), (HID_RI_END_COLLECTION, No_data),
     (HID_RI_USAGE, Bits_8 6), (HID_RI_COLLECTION, Bits_8 1), (HID_RI_INPUT, Bits_8 2), (HID_RI_END_COLLECTION, No_data)] of
     None \<Rightarrow> False
   | Some (c, info) \<Rightarrow> c = HID_PARSE_Successful \<and> map CollectionPath (take 2 (ReportItems info)) = [Some 0, Some 0] \<and>
       Usage (PathUsage (CollectionPaths info ! 0)) = 6"
  by code_simp

text \<open>The buttons and axes of a mouse, as \<^verbatim>\<open>USB_MouseReport_Data_t\<close> has them: one byte of buttons, one byte for each axis.\<close>

lemma mouse_layout:
  "case USB_ProcessHIDReport accept (HID_DESCRIPTOR_MOUSE (- 127) 127 (- 127) 127 3 False) 58 of
     None \<Rightarrow> False
   | Some (c, info) \<Rightarrow> c = HID_PARSE_Successful \<and> TotalReportItems info = 5 \<and>
       map (\<lambda>x. (BitOffset x, BitSize (Attributes x), Usage (ItemUsage (Attributes x)))) (take 5 (ReportItems info)) =
         [(0, 1, 1), (1, 1, 2), (2, 1, 3), (8, 8, 0x30), (16, 8, 0x31)] \<and>
       USB_GetHIDReportSize info 0 HID_REPORT_ITEM_In = Some 3"
  by code_simp

section \<open>Properties\<close>

text \<open>C26 (safety). The parser is memory-safe on every descriptor in which no item is cut off, whatever the items say and whatever the
  application filters: it returns, never leaves an array, and what it leaves behind is well-formed: the numbers of items and
  reports are within their arrays and every reference to a collection is one.\<close>

theorem hid_report_safe:
  assumes "complete_items d" "length d < 65536"
  shows "\<exists>c info. USB_ProcessHIDReport Filter d (of_nat (length d)) = Some (c, info) \<and> info_wf info"
  using process_items_ok [OF assms hid_wf_start, of Filter] by (auto simp: USB_ProcessHIDReport_def hid_wf_def)

theorem hid_report_safe_witness:
  "\<exists>c info. USB_ProcessHIDReport accept (HID_DESCRIPTOR_KEYBOARD 6) (of_nat (length (HID_DESCRIPTOR_KEYBOARD 6))) = Some (c, info) \<and> info_wf info"
  by (rule hid_report_safe) (simp_all only: HID_DESCRIPTOR_KEYBOARD_def complete_entries, simp)

text \<open>C27 (functional). What an \<open>INPUT\<close>, \<open>OUTPUT\<close> or \<open>FEATURE\<close> item does in every case, for any filter of the application. As many items
  as the report count says are laid out side by side behind the bits the report has so far, each of the report size, with the current usages, report and
  collection, and the report grows by all their bits, modulo \<open>2^16\<close>. Of a constant item none is stored, of another one those the
  filter accepts, in order. When the table of 20 items is full before the last of them comes up, parsing ends with \<open>InsufficientReportItems\<close> and the
  table holds the first 20. As long as the offsets do not wrap, each field starts where the one before it ends and no two share a bit.\<close>

theorem main_item_layout:
  assumes "s = unat (BitSize (StateAttributes (Current p)))" "n = unat (ReportCount (Current p))" "hid_wf p" "t \<in> {HID_RI_INPUT, HID_RI_OUTPUT, HID_RI_FEATURE}" "b AND (HID_RI_TYPE_MASK OR HID_RI_TAG_MASK) = item_tag t"
    "ty = item_type (item_tag t)" "xs = main_items n ty d p"
    "full = (\<exists>k<n. length (items_stored p) + length (kept Filter d (take k xs)) = 20)"
  shows "\<exists>q. do_item Filter b d p = Some (if full then Some HID_PARSE_InsufficientReportItems else None, q) \<and>
    items_stored q = take 20 (items_stored p @ kept Filter d xs) \<and>
    (\<not> full \<longrightarrow> bits_used ty q = (bits_used ty p + n * s) mod 65536) \<and>
    (bits_used ty p + n * s < 65536 \<longrightarrow>
      (\<forall>k<n. unat (BitOffset (xs ! k)) = bits_used ty p + k * s \<and> unat (BitSize (Attributes (xs ! k))) = s) \<and>
      (\<forall>k<n. \<forall>l<n. k \<noteq> l \<longrightarrow> field (xs ! k) \<inter> field (xs ! l) = {}))"
proof -
  have "length xs = n" by (simp add: assms(7) main_items_def)
  then have full: "full = table_full Filter d (length (items_stored p)) xs"
    using table_full_iff [OF length_items_stored(2) [OF assms(3)], of Filter d xs] by (simp add: assms(8))
  have "do_item Filter b d p = add_items n Filter ty d p"
    using assms(4-6) by (auto simp: do_item_def Let_def assms(2))
  moreover have xs: "unat (BitOffset (xs ! k)) = bits_used ty p + k * s \<and> unat (BitSize (Attributes (xs ! k))) = s"
    if "bits_used ty p + n * s < 65536" "k < n" for k
  proof -
    have "k * s \<le> n * s" using that(2) by simp
    then have "bits_used ty p + k * s < 65536" using that(1) by (rule_tac order.strict_trans1 [of _ "bits_used ty p + n * s"]) simp_all
    then have "unat (of_nat (bits_used ty p + k * s) :: uint16) = bits_used ty p + k * s" by (rule unat_of_nat16)
    then show ?thesis using that(2) by (simp add: assms(1,7) main_items_def item_at_def Let_def)
  qed
  moreover have "field (xs ! k) \<inter> field (xs ! l) = {}" if "bits_used ty p + n * s < 65536" "k < n" "l < n" "k \<noteq> l" for k l
    using side_by_side [of "xs ! k" "bits_used ty p" k s "xs ! l" l] xs that by simp
  ultimately show ?thesis using add_items_layout [OF assms(3), of n Filter ty d] unfolding full assms(1,7) by auto
qed

definition parser_example :: hid_parser where
  "parser_example = parser_start\<lparr>Current := table_zero\<lparr>ReportCount := 3, StateAttributes := attributes_zero\<lparr>BitSize := 8\<rparr>\<rparr>\<rparr>"

theorem main_item_layout_witness:
  "(\<exists>q. do_item accept 0x81 2 parser_example = Some (None, q) \<and> map BitOffset (items_stored q) = [0, 8, 16] \<and> bits_used HID_REPORT_ITEM_In q = 24) \<and>
   (\<exists>q. do_item accept 0x81 1 parser_example = Some (None, q) \<and> items_stored q = [] \<and> bits_used HID_REPORT_ITEM_In q = 24)"
proof -
  let ?xs = "\<lambda>d. main_items 3 HID_REPORT_ITEM_In d parser_example"
  have f: "8 = unat (BitSize (StateAttributes (Current parser_example)))" "3 = unat (ReportCount (Current parser_example))" "hid_wf parser_example"
    using hid_wf_start by (simp_all add: parser_example_def)
  have b: "items_stored parser_example = []" "bits_used HID_REPORT_ITEM_In parser_example = 0"
    by (simp_all add: parser_example_def items_stored_def bits_used_def parser_start_def info_zero_def size_zero_def HID_MAX_REPORT_IDS_def)
  have k: "(False :: bool) = (\<exists>k<3. length (items_stored parser_example) + length (kept accept d (take k (?xs d))) = 20)" for d
  proof -
    have "length (kept accept d (take k (?xs d))) \<le> length (take k (?xs d))" for k by (simp add: kept_def del: length_take)
    moreover have "length (take k (?xs d)) \<le> k" for k by simp
    ultimately have "length (kept accept d (take k (?xs d))) \<le> k" for k by (rule order.trans)
    then have "length (kept accept d (take k (?xs d))) \<noteq> 20" if "k < 3" for k using that by (metis numeral_less_iff not_le order.strict_trans1 semiring_norm(76,78,79,81))
    then show ?thesis using b(1) by auto
  qed
  have t: "HID_RI_INPUT \<in> {HID_RI_INPUT, HID_RI_OUTPUT, HID_RI_FEATURE}" "0x81 AND (HID_RI_TYPE_MASK OR HID_RI_TAG_MASK) = item_tag HID_RI_INPUT"
      "HID_REPORT_ITEM_In = item_type (item_tag HID_RI_INPUT)"
    by (simp_all add: HID_RI_TYPE_MASK_def HID_RI_TAG_MASK_def item_type_def)
  have w: "\<exists>q. do_item accept 0x81 d parser_example = Some (None, q) \<and> items_stored q = take 20 (kept accept d (?xs d)) \<and> bits_used HID_REPORT_ITEM_In q = 24" for d
    using main_item_layout [OF f t refl k, of d] b by auto
  have "kept accept 2 (?xs 2) = ?xs 2" "kept accept 1 (?xs 1) = []" "length (?xs 2) = 3" by (simp_all add: kept_def accept_def HID_IOF_CONSTANT_def main_items_def)
  moreover have "map BitOffset (?xs 2) = [0, 8, 16]" using b(2) f(1) by (simp add: main_items_def item_at_def Let_def upt_rec)
  ultimately have "map BitOffset (take 20 (kept accept 2 (?xs 2))) = [0, 8, 16]" "take 20 (kept accept 1 (?xs 1)) = []" by simp_all
  then show ?thesis using w [of 2] w [of 1] by auto
qed

text \<open>C28 (roundtrip). Items of one report that do not overlap, written one after the other into a cleared report, are all read back with
  their values, cut to their sizes.\<close>

theorem report_roundtrip:
  assumes "\<forall>x\<in>set xs. fits r d x \<and> Value x \<noteq> None" "\<forall>x\<in>set xs. \<forall>y\<in>set xs. x \<noteq> y \<longrightarrow> field x \<inter> field y = {}"
    "\<forall>i. \<not> report_bit (body r d) i"
  shows "\<exists>d'. write_items xs d = Some d' \<and> length d' = length d \<and>
    (\<forall>x\<in>set xs. USB_GetHIDReportItemInfo d' (Some x) =
      Some (True, Some (x\<lparr>PreviousValue := Value x, Value := Some (take_bit (unat (BitSize (Attributes x))) (the (Value x)))\<rparr>)))"
  by (rule report_fields [OF assms])

definition item_example :: "uint16 \<Rightarrow> uint8 \<Rightarrow> uint32 \<Rightarrow> HID_ReportItem_t" where
  "item_example off n v = item_zero\<lparr>BitOffset := off, ItemReportID := 7, Value := Some v, Attributes := attributes_zero\<lparr>BitSize := n\<rparr>\<rparr>"

theorem report_roundtrip_witness:
  "\<exists>d'. write_items [item_example 0 3 5, item_example 3 10 0x3FF] [0, 0, 0] = Some d' \<and>
    USB_GetHIDReportItemInfo d' (Some (item_example 0 3 5)) = Some (True, Some ((item_example 0 3 5)\<lparr>PreviousValue := Some 5, Value := Some 5\<rparr>))"
proof -
  let ?x = "item_example 0 3 5" and ?y = "item_example 3 10 0x3FF"
  have "fits 7 [0, 0, 0] ?x" "fits 7 [0, 0, 0] ?y" "Value ?x = Some 5" "Value ?y = Some 0x3FF" "field ?x \<inter> field ?y = {}"
    "unat (BitSize (Attributes ?x)) = 3" by (simp_all add: fits_def item_example_def body_def field_def)
  moreover have "\<not> report_bit (body 7 [0, 0, 0]) i" for i by (auto simp: report_bit_def body_def nth_Cons split: nat.split)
  moreover have "take_bit 3 (5 :: uint32) = 5" by simp
  ultimately show ?thesis using report_roundtrip [of "[?x, ?y]" 7 "[0, 0, 0]"] by (auto simp: Int_commute)
qed

end
