(* ===== verification/Spec2Isabelle.thy ===== *)
theory Spec2Isabelle
  imports Driver_Properties Link_Properties Exchange Avoidance Usb_Variants Config_Search HID_Reports
begin

text \<open>
  A model of the firmware of the Zumo delivery car (\<^verbatim>\<open>src/Application\<close>, \<^verbatim>\<open>src/Driver\<close>) with the theorems
  that make it correct. The program is an ATmega32U4 firmware: \<open>main\<close> initialises the drivers and
  runs an endless loop that moves USB bytes, handles one command of the host, and runs a block for
  each message flag that is due: reports, the timed stop, distance and velocity control, proximity
  reads, obstacle avoidance. Interrupt service routines count milliseconds and encoder edges. The USB link
  runs on the LUFA library (\<^verbatim>\<open>src/lufa/LUFA/Drivers/USB/Core\<close>), whose device side for this chip is modelled too.

  \<^bold>\<open>Theories.\<close>
  \<^item> \<^verbatim>\<open>Zumo_Prelude\<close>: machine types, characters and little-endian bytes, arithmetic that is undefined on
    overflow (\<open>checked_s16\<close>, \<open>checked_s32\<close>), folds over fallible steps, shared list and word lemmas.
  \<^item> \<^verbatim>\<open>Float32\<close>, \<^verbatim>\<open>Float32_Code\<close>: IEEE binary32 on 32-bit words, round to nearest even, with the
    conversions of C; \<open>double\<close> has 32 bits on this machine. Values are integers scaled by \<open>2^149\<close>, so every
    operation is exact integer arithmetic followed by one rounding, and executable.
  \<^item> \<^verbatim>\<open>Ring_Buffer\<close> (\<^verbatim>\<open>Ring_Buffer.c\<close>): the two ring buffers; locale \<open>bounded_deque\<close> is the contract of a
    bounded deque, locale \<open>ring_ops\<close> the one proof that index arithmetic modulo a power of two implements it,
    interpreted for the float and the byte buffer.
  \<^item> \<^verbatim>\<open>Digital_Filter\<close> (\<^verbatim>\<open>Filter.c\<close>), \<^verbatim>\<open>Controller\<close> (\<^verbatim>\<open>Controller.c, Controller.h\<close>): the difference equation and
    the controllers on it.
  \<^item> \<^verbatim>\<open>Avr_Io\<close> (shared ports and the status register), \<^verbatim>\<open>Timing\<close> (\<^verbatim>\<open>Timing.c\<close>), \<^verbatim>\<open>Encoder\<close> (\<^verbatim>\<open>Encoder.c\<close>), \<^verbatim>\<open>Led_Servo\<close>
    (\<^verbatim>\<open>LED_switch.c, ServoPWM.c\<close>), \<^verbatim>\<open>Battery\<close> (\<^verbatim>\<open>Battery_Monitor.c\<close>), \<^verbatim>\<open>Proximity\<close> (\<^verbatim>\<open>Proximity.c\<close>), \<^verbatim>\<open>Motor_PWM\<close> and
    \<^verbatim>\<open>Motor_Duty\<close> (\<^verbatim>\<open>MotorPWM.c\<close>): one record for the static variables and registers of a driver and one
    definition for each function.
  \<^item> \<^verbatim>\<open>Usb_Core\<close> (\<^verbatim>\<open>Endpoint_AVR8\<close>, \<^verbatim>\<open>Device_AVR8.h\<close>, \<^verbatim>\<open>USBInterrupt_AVR8\<close>, \<^verbatim>\<open>USBController_AVR8\<close>): the registers of the
    USB controller (record \<open>usb\<close>, which also holds the static variables of \<^verbatim>\<open>SerialIO.c\<close>), access to endpoints
    and their configuration, initialisation, the general interrupt. \<^verbatim>\<open>Usb_Stream\<close> (\<^verbatim>\<open>Endpoint_AVR8.c\<close>, the stream
    templates): loops that wait for the host. \<^verbatim>\<open>Usb_Device\<close> (\<^verbatim>\<open>DeviceStandardReq.c\<close>, \<^verbatim>\<open>USBTask.c\<close>,
    \<^verbatim>\<open>Descriptors.c\<close>): descriptors, requests, the interrupt of the control endpoint. \<^verbatim>\<open>Usb_Transfer\<close>
    (\<^verbatim>\<open>Endpoint_AVR8.h\<close>, \<^verbatim>\<open>EndpointStream_AVR8.c\<close>): words in both byte orders, the other streams, endpoint tables, shutting
    down, and the echo task of the serial link. \<^verbatim>\<open>Usb_Variants\<close> (\<^verbatim>\<open>EndpointStream_AVR8.c\<close>, the control templates,
    \<^verbatim>\<open>Device_AVR8.c\<close>): control streams in both byte orders and from other memories, aborting, clearing, remote wakeup.
    \<^verbatim>\<open>Config_Search\<close> (\<^verbatim>\<open>ConfigDescriptors.c\<close>): searching a configuration descriptor.
  \<^item> \<^verbatim>\<open>HID_Parser\<close> (\<^verbatim>\<open>HIDParser.c\<close>, \<^verbatim>\<open>HIDReportData.h\<close>, \<^verbatim>\<open>HIDClassCommon.h\<close>): the parser of HID report descriptors, which the
    makefile compiles into the firmware, access to the items of a report, and the macros that write descriptors;
    \<^verbatim>\<open>HID_Safety\<close>: its invariant; \<^verbatim>\<open>HID_Reports\<close>: layout and round trip of reports.
  \<^item> \<^verbatim>\<open>Usb_Frame\<close>, \<^verbatim>\<open>Usb_Config\<close>, \<^verbatim>\<open>Usb_Control\<close>, \<^verbatim>\<open>Usb_Requests\<close>: what the library leaves alone (\<open>driver\<close>), what configuring
    an endpoint does (\<open>configured\<close>), control transfers on the control endpoint alone (\<open>at0\<close>: the state with
    that endpoint replaced; \<open>chunks\<close>: data cut into packets), the answer to each request. \<^verbatim>\<open>Usb_Properties\<close>,
    \<^verbatim>\<open>Usb_Enumeration\<close>: their properties.
  \<^item> \<^verbatim>\<open>Link_Session\<close>, \<^verbatim>\<open>Exchange\<close>: the composition. \<open>link_at\<close> is the abstract state of the serial link, which each pass of the
    loop moves by one byte in each direction; a request travels from the host through link, message task and link
    back to the host, with timer interrupts before every block (\<open>polled_pass\<close>) and the battery task running. \<open>never_low\<close> is the
    condition on the battery under which the car sends no low-battery message of its own.
  \<^item> \<^verbatim>\<open>Serial_IO\<close> (\<^verbatim>\<open>SerialIO.c\<close>): the serial link; locale \<open>byte_link\<close> is
    the contract of the message layer, interpreted on \<open>usb_send_msg\<close> and the receive functions.
  \<^item> \<^verbatim>\<open>Car_State\<close>: the state of the whole firmware (record \<open>car\<close>), the message flags and the calls of the
    drivers; the environment of a pass (record \<open>env\<close>): converter, pins and events on the bus.
  \<^item> \<^verbatim>\<open>Obstacle\<close> (\<^verbatim>\<open>Obstacle_Avoidance.c\<close>), \<^verbatim>\<open>Message_Handling\<close> (\<^verbatim>\<open>MEGN540_MessageHandeling.c\<close>), \<^verbatim>\<open>Main_Loop\<close>
    (\<^verbatim>\<open>Main.c\<close>): one definition for each function, for each case of the command switch and for each block of
    the loop.
  \<^item> \<^verbatim>\<open>Message_Proofs\<close>: locale \<open>command_handler\<close>, the contract of a handler (all or nothing, only
    well-formed messages), with one interpretation for each command. \<^verbatim>\<open>Main_Proofs\<close>: the loop with interrupts
    as a step relation and locale \<open>loop_invariant\<close>, interpreted twice. \<^verbatim>\<open>System_Behaviour\<close>,
    \<^verbatim>\<open>Drive_Behaviour\<close>: behaviour of initialisation, single commands and blocks. \<^verbatim>\<open>Avoidance\<close>: runs of the loop without a driving
    command (\<open>undisturbed\<close>) and locale \<open>avoidance_invariant\<close> for their invariants, interpreted for a car that avoids obstacles and
    for one whose velocity control a duty cycle command switched off.
  \<^item> \<^verbatim>\<open>Driver_Properties\<close>, \<^verbatim>\<open>Link_Properties\<close> and this theory: the properties, each with a witness.

  \<^bold>\<open>State and effects.\<close> A C function is a function of the records it reads and returns the changed
  ones. A result of type \<^typ>\<open>'a option\<close> is \<^const>\<open>None\<close> where C is undefined (signed overflow, a float
  outside the range of the integer it is converted to, a structure read before its bytes arrived) or where a
  loop never ends; loops whose end depends on the data (\<open>rb_fill_F\<close>, \<open>size_mask\<close>, the data streams, the descriptor searches) are partial
  functions. A loop that polls the bus consumes one event (\<open>bus_event\<close>) in each iteration and is \<^const>\<open>None\<close> when
  the events run out before it ends; the properties say which events are enough. There is no other fuel.
  Registers keep their width. The pins, the converter, the bus and the filter of report items are arguments, as is the
  hardware's part of aborting and clearing endpoints.

  \<^bold>\<open>What is shown.\<close> For the drivers: refinement of deques by the ring buffers, the difference equation,
  bounds and exact values of the motor compare registers, the count of the encoders, the clock. For the link:
  messages are parsed back by the host's format, packets arrive in order, the output stream is kept. For the
  USB device: from power-on a host that enumerates it gets an open link, descriptors are delivered exactly and
  are consistent with the endpoints that are set up, unknown requests are stalled and change nothing else; the streams of the library agree
  with one another, and the search in descriptors with the function on lists. For the report parser: it is memory-safe
  on every complete descriptor, lays the items of a report out side by side and stores those the filter accepts, and items written to a report are
  read back. For the
  commands: each run of the message task takes one whole command or none and answers in the protocol; it
  is defined; driving is refused at a low battery; the stop command stops. For the loop: from power-on, in every
  reachable state, the buffers are well-formed, the motor registers in range and the ways of driving
  exclusive; distance drives continue and end; obstacle avoidance refines a small decision machine and, as long as no driving command
  comes, returns to driving straight after five decisions with a clear view. Some properties state a defect of the code as it is; their text says so.

  \<^bold>\<open>Granularity.\<close> A transition of the loop is one block; interrupts fall between blocks. Reads of the counters of the interrupt service
  routines are atomic in the model, also that of the millisecond counter, which the code leaves unprotected.

  \<^bold>\<open>Not modelled.\<close> Of the USB library: host mode, which the configuration disables and the chip lacks, the class
  drivers, other architectures, demos and bootloaders, which are not part of the firmware. The data
  toggle and the bit stuffing of the bus. The second interrupt that the control endpoint's routine admits while
  it runs, except through the events its loops poll. Debug printing (\<open>rb_print_data\<close>, \<open>SanityPrint\<close>). The time
  that instructions take. The host's Python programs.
\<close>

section \<open>Cars for the witnesses\<close>

text \<open>A car at power-on with the motor timer configured, and one with bytes received.\<close>

definition car_ready :: car where
  "car_ready = car_zero\<lparr>mot := motor_reset\<lparr>ICR1 := 400\<rparr>\<rparr>"

definition car_received :: "byte list \<Rightarrow> car" where
  "car_received p = car_ready\<lparr>ser := usb_zero\<lparr>usb_receive_buffer := fold (\<lambda>v b. rb_push_back_C b v) p rb_zero_C\<rparr>\<rparr>"

lemma car_ready_ok: "frame_ok car_ready" "drive_excl car_ready" "oa_inv car_ready" "car_ok car_ready"
  using usb_zero_ok
  by (simp_all add: car_ready_def frame_ok_def motor_ok_def motor_reset_def car_zero_def drive_excl_def flag_zero_def oa_inv_def car_ok_def)

lemma car_received_ok:
  assumes "length p \<le> 63"
  shows "car_ok (car_received p)" "in_bytes (ser (car_received p)) = p" "out_bytes (ser (car_received p)) = []"
  using assms rbC.deque.inv_fold_push_back [of rb_zero_C p] rbC.deque.abs_fold_push_back_fits [of rb_zero_C p]
  by (simp_all add: car_received_def car_ready_def car_ok_def usb_wf_def in_bytes_def out_bytes_def usb_zero_def motor_reset_def)

definition env_example :: "uint16 \<Rightarrow> env" where
  "env_example v = \<lparr>adc = Some v, ir = \<lparr>pinf_rmw = 0, pinf_sample = (\<lambda>i. 0)\<rparr>, inputs = pins_at 0 0, bus = []\<rparr>"

section \<open>Commands\<close>

text \<open>C4 (safety). Whatever bytes arrived, one run of the message task leaves the input untouched or takes exactly one
  whole command off it (an unknown command clears it), keeps the buffers well-formed, and appends only messages
  whose format describes exactly their data, which the host therefore accepts.\<close>

theorem message_task_contract:
  assumes "car_ok c" "Message_Handling_Task c = Some c'"
  shows "car_ok c' \<and> in_bytes (ser c') = consumed (in_bytes (ser c)) \<and>
    (\<exists>ms. list_all msg_ok ms \<and> out_bytes (ser c') = newest 63 (out_bytes (ser c) @ encodes ms))"
  using Message_Handling_Task_post [OF assms] by (simp add: task_post_def)

theorem message_task_contract_witness:
  "\<exists>c'. Message_Handling_Task (car_received [chr CHR ''e'', 9]) = Some c' \<and> in_bytes (ser c') = [9]"
proof -
  let ?c = "car_received [chr CHR ''e'', 9]"
  note ok = car_received_ok [of "[chr CHR ''e'', 9]"]
  obtain c' where c': "Message_Handling_Task ?c = Some c'"
    using Message_Handling_Task_defined [of ?c] ok by (auto simp: command_pre_def)
  then show ?thesis using message_task_contract [OF _ c'] ok by simp
qed

text \<open>C5 (termination). The message task is defined for every input but a duty cycle of \<open>INT16_MIN\<close>: no handler reads an
  argument structure that has not arrived, none loops, none overflows.\<close>

theorem message_task_defined:
  assumes "car_ok c" "\<And>ch bs. in_bytes (ser c) = chr ch # bs \<Longrightarrow> command_pre ch bs"
  shows "\<exists>c'. Message_Handling_Task c = Some c'"
  using Message_Handling_Task_defined [OF assms] by blast

theorem message_task_defined_witness: "\<exists>c'. Message_Handling_Task (car_received [chr CHR ''p'', 50, 0, 50, 0]) = Some c'"
proof (rule message_task_defined)
  note ok = car_received_ok [of "[chr CHR ''p'', 50, 0, 50, 0]"]
  show "car_ok (car_received [chr CHR ''p'', 50, 0, 50, 0])" using ok by simp
  show "command_pre ch bs" if "in_bytes (ser (car_received [chr CHR ''p'', 50, 0, 50, 0])) = chr ch # bs" for ch bs
    using that ok by (auto simp: command_pre_def pwm_args_def int_at_def)
qed

text \<open>The multiply command is answered by the binary32 product of its two arguments.\<close>

theorem multiply_command:
  assumes "car_ok c" "in_bytes (ser c) = chr CHR ''*'' # le32 x @ le32 y @ rest"
  shows "\<exists>c'. Message_Handling_Task c = Some c' \<and> in_bytes (ser c') = rest \<and>
    out_bytes (ser c') = newest 63 (out_bytes (ser c) @ msg_frame (cstr ''cf'') (chr CHR ''*'') (le32 (f_mul x y)))"
  by (rule multiply_reply [OF assms])

theorem multiply_command_witness:
  "\<exists>c'. Message_Handling_Task (car_received (chr CHR ''*'' # le32 0x40000000 @ le32 0x40400000)) = Some c' \<and>
    out_bytes (ser c') = msg_frame (cstr ''cf'') (chr CHR ''*'') (le32 0x40C00000)"
proof -
  let ?p = "chr CHR ''*'' # le32 0x40000000 @ le32 0x40400000 @ []"
  have "f_mul 0x40000000 0x40400000 = 0x40C00000" by code_simp
  then show ?thesis using multiply_command [of "car_received ?p" "0x40000000" "0x40400000" "[]"] car_received_ok [of ?p] by auto
qed

text \<open>C8 (safety). The stop command disconnects both motors, sets both compare values to the top, clears the targets and
  every drive flag, and turns the red light off.\<close>

theorem stop_command_stops:
  assumes "car_ok c" "in_bytes (ser c) = chr CHR ''s'' # bs" "Message_Handling_Task c = Some c'"
  shows "motors_stand (mot c') \<and> velocities c' = (0, 0) \<and> target_pos (ctr_LeftMotor c') = 0 \<and> target_pos (ctr_RightMotor c') = 0 \<and>
    \<not> led_on RED (regs c') \<and> in_bytes (ser c') = bs \<and>
    (\<forall>k \<in> {mf_obj_avoidance, mf_motor_dist_control, mf_motor_vel_control, mf_motor_stop, mf_timed_pwm}. \<not> active (flag c' k))"
  by (rule stop_command [OF assms])

theorem stop_command_stops_witness: "\<exists>c'. Message_Handling_Task (car_received [chr CHR ''s'']) = Some c' \<and> motors_stand (mot c')"
proof -
  let ?c = "car_received [chr CHR ''s'']"
  note ok = car_received_ok [of "[chr CHR ''s'']"]
  obtain c' where c': "Message_Handling_Task ?c = Some c'"
    using Message_Handling_Task_defined [of ?c] ok by (auto simp: command_pre_def)
  then show ?thesis using stop_command_stops [OF _ _ c', of "[]"] ok by simp
qed

text \<open>C9 (safety). Below 4.75 volts the seven commands that move the car change neither motors nor flags, controllers,
  encoders or ports.\<close>

theorem low_battery_refuses:
  assumes "car_ok c" "in_bytes (ser c) = chr ch # bs" "ch \<in> set ''pPdDvVO''" "\<not> battery_good (Battery_Voltage (bat c))"
    "Message_Handling_Task c = Some c'"
  shows "same_drive c c'"
proof -
  have "\<exists>h \<in> {case_p, case_P, case_d, case_D, case_v, case_V, case_O}. map_of handlers ch = Some h"
    using assms(3) by (simp add: handlers_def) (elim disjE; simp)
  then have "\<exists>h \<in> {case_p, case_P, case_d, case_D, case_v, case_V, case_O}. h c = Some c'"
    using task_handlers [OF assms(1,2)] assms(5) by force
  then show ?thesis using battery_refuses assms(4) by blast
qed

theorem low_battery_refuses_witness:
  "\<exists>c'. Message_Handling_Task (car_received (chr CHR ''d'' # le32 0x3F800000 @ le32 0)) = Some c' \<and>
    same_drive (car_received (chr CHR ''d'' # le32 0x3F800000 @ le32 0)) c'"
proof -
  let ?p = "chr CHR ''d'' # le32 0x3F800000 @ le32 0" and ?c = "car_received (chr CHR ''d'' # le32 0x3F800000 @ le32 0)"
  note ok = car_received_ok [of ?p]
  obtain c' where c': "Message_Handling_Task ?c = Some c'"
    using Message_Handling_Task_defined [of ?c] ok by (auto simp: command_pre_def)
  have "Battery_Voltage (bat ?c) = 0"
    by (simp add: car_received_def car_ready_def car_zero_def battery_reset_def Battery_Voltage_def Filter_Last_Output_def
        filter_zero_def rb_zero_F_def rb_get_F_def)
  moreover have "\<not> battery_good 0" by code_simp
  ultimately show ?thesis using low_battery_refuses [OF _ _ _ _ c', of "CHR ''d''"] ok c' by auto
qed

text \<open>C35 (error). The restart command is never taken off the input: however often the message task runs, the command stays
  first and everything behind it waits.\<close>

theorem restart_command_blocks:
  assumes "car_ok c" "in_bytes (ser c) = chr CHR ''~'' # bs"
  shows "\<exists>c'. ((\<lambda>x. x \<bind> Message_Handling_Task) ^^ n) (Some c) = Some c' \<and> in_bytes (ser c') = chr CHR ''~'' # bs"
  using restart_stays [OF assms, of n] by blast

theorem restart_command_blocks_witness:
  "\<exists>c'. ((\<lambda>x. x \<bind> Message_Handling_Task) ^^ 100) (Some (car_received [chr CHR ''~'', chr CHR ''s''])) = Some c' \<and>
    in_bytes (ser c') = [chr CHR ''~'', chr CHR ''s'']"
  using restart_command_blocks [of "car_received [chr CHR ''~'', chr CHR ''s'']" "[chr CHR ''s'']" 100]
    car_received_ok [of "[chr CHR ''~'', chr CHR ''s'']"] by simp

section \<open>The loop\<close>

text \<open>C10 (functional). From power-on, initialisation returns when the battery conversion completes. Each controller has its own gain and
  coefficients, an update period of 10 ms and no targets; the battery filter has its coefficients and the first measurement as its
  history; the motor timer has its top value and the motors are disconnected, the gripper is open, the obstacle avoidance is in its
  initial state, interrupts are enabled, the clock is at zero and the battery task, every 2 ms, is the only active flag.\<close>

theorem main_initialises:
  assumes "power_on c" "adc e = Some v"
  shows "\<exists>c'. main_init e c = Some c' \<and> frame_ok c' \<and> drive_excl c' \<and> oa_inv c' \<and>
    controller_wf 2 (ctr_LeftMotor c') \<and> kp (ctr_LeftMotor c') = f_lit 1875335 10000000 \<and>
    rb_list 8 (numerator (controller (ctr_LeftMotor c'))) = [f_lit 187533508705 1000000000000, f_lit 124897316798 1000000000000] \<and>
    rb_list 8 (denominator (controller (ctr_LeftMotor c'))) = [f_lit 1 1, f_lit (-1) 1] \<and>
    update_period (ctr_LeftMotor c') = f_of_int 10 \<and> target_pos (ctr_LeftMotor c') = 0 \<and> target_vel (ctr_LeftMotor c') = 0 \<and>
    controller_wf 2 (ctr_RightMotor c') \<and> kp (ctr_RightMotor c') = f_lit 1728258 10000000 \<and>
    rb_list 8 (numerator (controller (ctr_RightMotor c'))) = [f_lit 172825818795 1000000000000, f_lit 130440286735 1000000000000] \<and>
    rb_list 8 (denominator (controller (ctr_RightMotor c'))) = [f_lit 1 1, f_lit (-1) 1] \<and>
    update_period (ctr_RightMotor c') = f_of_int 10 \<and> target_pos (ctr_RightMotor c') = 0 \<and> target_vel (ctr_RightMotor c') = 0 \<and>
    battery_wf (bat c') \<and> Battery_Voltage (bat c') = volts v \<and>
    rb_list 8 (numerator (battery_filter (bat c'))) = [f_lit 94469 100000000, f_lit 188938 100000000, f_lit 94469 100000000] \<and>
    rb_list 8 (denominator (battery_filter (bat c'))) = [f_lit 10 10, f_lit (-19112) 10000, f_lit 9150 10000] \<and>
    rb_list 8 (in_list (battery_filter (bat c'))) = replicate 3 (volts v) \<and> rb_list 8 (out_list (battery_filter (bat c'))) = replicate 3 (volts v) \<and>
    \<not> Is_Motor_PWM_Enabled (mot c') \<and> ICR1 (mot c') = 400 \<and> OCR4A (srv c') = 10 \<and> bit (SREG (regs c')) 7 \<and> count_ms (tim c') = 0 \<and>
    OA_state c' = INIT \<and> alpha c' = 0 \<and> read_state c' = READ_L \<and> first_time c' \<and> proxy_first c' \<and>
    (\<forall>k. active (flag c' k) = (k = mf_battery_task)) \<and> duration (flag c' mf_battery_task) = f_of_int 2"
proof -
  obtain c' where c': "main_init e c = Some c'" "frame_ok c'" "drive_excl c'" "oa_inv c'" "battery_set v (bat c')"
    "controller_set KP_L num_left den_left (ctr_LeftMotor c')" "controller_set KP_R num_right den_right (ctr_RightMotor c')"
    "\<not> Is_Motor_PWM_Enabled (mot c')" "bit (SREG (regs c')) 7" "first_time c'" "proxy_first c'" "OA_state c' = INIT" "alpha c' = 0"
    "read_state c' = READ_L" "\<forall>k. active (flag c' k) = (k = mf_battery_task)" "count_ms (tim c') = 0" "OCR4A (srv c') = 10"
    "duration (flag c' mf_battery_task) = f_of_int 2" using main_init_ok [OF assms] by blast
  note sets = c'(5-7) [unfolded battery_set_def controller_set_def b_coeff_def a_coeff_def KP_L_def KP_R_def num_left_def num_right_def
      den_left_def den_right_def]
  have "ICR1 (mot c') = 400" using c'(2) by (simp add: frame_ok_def motor_ok_def)
  then show ?thesis using c' sets by (intro exI [of _ c']) simp
qed

lemma car_zero_power_on: "power_on car_zero"
  using usb_zero_ok
  by (simp add: power_on_def filter_rbs_def car_zero_def battery_reset_def controller_zero_def filter_zero_def
      motor_reset_def flag_zero_def)

theorem main_initialises_witness:
  "\<exists>c'. main_init (env_example 700) car_zero = Some c' \<and> Battery_Voltage (bat c') = volts 700 \<and> first_time c'"
  using main_initialises [OF car_zero_power_on, of "env_example 700" 700] by (auto simp: env_example_def)

lemma power_on_reaches:
  assumes "power_on c" "adc e = Some v" "main_init e c = Some c0"
  shows "frame_ok c0" "drive_excl c0"
  using main_init_ok [OF assms(1,2)] assms(3) by auto

text \<open>C1 (invariant). In every state the main loop reaches from power-on, with interrupts and USB transfers between any
  two blocks, both byte buffers are well-formed and the motor timer keeps its top value 400 with no compare
  value above it.\<close>

theorem buffers_and_motors_safe:
  assumes "power_on c" "adc e = Some v" "main_init e c = Some c0" "reachable c0 (pc, c')"
  shows "usb_wf (ser c') \<and> ICR1 (mot c') = 400 \<and> OCR1A (mot c') \<le> 400 \<and> OCR1B (mot c') \<le> 400"
  using frame_inv.always [OF assms(4)] power_on_reaches(1) [OF assms(1-3)] by (simp add: frame_ok_def motor_ok_def)

lemma timer_step_reachable:
  assumes "bit (SREG (regs c0)) 7"
  shows "reachable c0 (0, c0\<lparr>tim := TIMER0_COMPB_vect (tim c0)\<rparr>)"
  by (rule reachable.step [OF reachable.start], rule step.timer, rule assms)

theorem buffers_and_motors_safe_witness:
  "\<exists>c0. main_init (env_example 700) car_zero = Some c0 \<and> reachable c0 (0, c0\<lparr>tim := TIMER0_COMPB_vect (tim c0)\<rparr>) \<and> OCR1A (mot c0) \<le> 400"
proof -
  have e: "adc (env_example 700) = Some 700" by (simp add: env_example_def)
  obtain c0 where c0: "main_init (env_example 700) car_zero = Some c0" "bit (SREG (regs c0)) 7"
    using main_init_ok [OF car_zero_power_on e] by blast
  have r: "reachable c0 (0, c0\<lparr>tim := TIMER0_COMPB_vect (tim c0)\<rparr>)" using timer_step_reachable c0(2) by blast
  show ?thesis using buffers_and_motors_safe [OF car_zero_power_on e c0(1) r] c0(1) r by auto
qed

text \<open>C2 (invariant). In every state the main loop reaches from power-on, a drive over a distance excludes velocity control,
  obstacle avoidance and a timed duty cycle.\<close>

theorem one_drive_at_a_time:
  assumes "power_on c" "adc e = Some v" "main_init e c = Some c0" "reachable c0 (pc, c')"
  shows "\<not> (active (flag c' mf_motor_dist_control) \<and>
    (active (flag c' mf_motor_vel_control) \<or> active (flag c' mf_obj_avoidance) \<or> active (flag c' mf_timed_pwm)))"
  using excl.always [OF assms(4)] power_on_reaches(2) [OF assms(1-3)] by (simp add: drive_excl_def)

theorem one_drive_at_a_time_witness:
  "\<exists>c0. main_init (env_example 700) car_zero = Some c0 \<and>
    \<not> (active (flag c0 mf_motor_dist_control) \<and> active (flag c0 mf_timed_pwm))"
proof -
  have e: "adc (env_example 700) = Some 700" by (simp add: env_example_def)
  obtain c0 where c0: "main_init (env_example 700) car_zero = Some c0" "bit (SREG (regs c0)) 7"
    using main_init_ok [OF car_zero_power_on e] by blast
  show ?thesis using one_drive_at_a_time [OF car_zero_power_on e c0(1) timer_step_reachable [OF c0(2)]] c0(1) by auto
qed

text \<open>C15 (safety). Every block of the loop but the link and the message task leaves the received bytes alone and only
  appends messages whose format describes exactly their data.\<close>

theorem blocks_only_append:
  assumes "b \<in> set (drop 2 main_blocks)" "b e c = Some c'" "car_ok c"
  shows "in_bytes (ser c') = in_bytes (ser c) \<and>
    (\<exists>ms. list_all msg_ok ms \<and> out_bytes (ser c') = newest 63 (out_bytes (ser c) @ encodes ms))"
  using blocks_talk [OF assms(1,2)] assms(3) by (auto simp: talks_def car_ok_def)

theorem blocks_only_append_witness:
  "\<exists>c'. block_encoder (env_example 0) (set_active mf_send_encoder True car_ready) = Some c' \<and> in_bytes (ser c') = []"
proof -
  let ?c = "set_active mf_send_encoder True car_ready"
  have "in_bytes (ser car_ready) = []" "ser ?c = ser car_ready" using usb_zero_ok by (simp_all add: car_ready_def car_zero_def set_active_def set_flag_def)
  moreover have "car_ok ?c" using car_ready_ok by (simp add: car_ok_def set_active_def set_flag_def)
  moreover obtain c' where c': "block_encoder (env_example 0) ?c = Some c'" by (cases "block_encoder (env_example 0) ?c") (simp_all add: block_encoder_def Let_def split: if_splits)
  moreover have "block_encoder \<in> set (drop 2 main_blocks)" by (simp add: main_blocks_def)
  ultimately show ?thesis using blocks_only_append [of block_encoder "env_example 0" ?c c'] by auto
qed

text \<open>C16 (liveness). A periodic flag with a period of \<open>d\<close> milliseconds, last triggered now, is due after \<open>n\<close> timer
  interrupts exactly when \<open>n\<close> has reached \<open>d\<close>, across the wrap-around of the clock.\<close>

theorem periodic_flag_due:
  assumes "active (flag c k)" "duration (flag c k) = f_of_int d" "0 \<le> d" "d < 16777216"
    "last_trigger_time (flag c k) = GetTime_c c" "n < 2 ^ 32"
  shows "MSG_FLAG_Execute k (c\<lparr>tim := (TIMER0_COMPB_vect ^^ n) (tim c)\<rparr>) \<longleftrightarrow> d \<le> int n"
  by (rule period_after_ticks [OF assms])

definition car_flagged :: "mf \<Rightarrow> int \<Rightarrow> car" where
  "car_flagged k d = car_ready\<lparr>flag := (flag car_ready)(k := \<lparr>active = True, duration = f_of_int d, last_trigger_time = GetTime_c car_ready\<rparr>)\<rparr>"

theorem periodic_flag_due_witness:
  "MSG_FLAG_Execute mf_send_time ((car_flagged mf_send_time 20)\<lparr>tim := (TIMER0_COMPB_vect ^^ 20) (tim (car_flagged mf_send_time 20))\<rparr>) \<and>
   \<not> MSG_FLAG_Execute mf_send_time ((car_flagged mf_send_time 20)\<lparr>tim := (TIMER0_COMPB_vect ^^ 19) (tim (car_flagged mf_send_time 20))\<rparr>)"
proof -
  have f: "flag (car_flagged mf_send_time 20) mf_send_time =
      \<lparr>active = True, duration = f_of_int 20, last_trigger_time = GetTime_c (car_flagged mf_send_time 20)\<rparr>"
    by (simp add: car_flagged_def GetTime_c_def)
  show ?thesis using periodic_flag_due [of "car_flagged mf_send_time 20" mf_send_time 20 20]
      periodic_flag_due [of "car_flagged mf_send_time 20" mf_send_time 20 19] by (simp only: f) simp
qed

section \<open>The whole system\<close>

text \<open>C3 (liveness). From power-on, through initialisation and enumeration, a host that sends any number of arithmetic requests
  and polls for the replies receives exactly the replies, in order and with nothing in between; as many passes
  of the main loop as a request and its reply have bytes are enough. The clock runs, with any number of timer interrupts before each
  block, and the battery task measures when it is due, any of the readings in \<open>A\<close>; they must be such that
  the filtered voltage is never in the range in which the car sends its own low-battery messages.\<close>

theorem host_gets_replies:
  assumes "power_on c" "adc e = Some v" "main_init e c = Some c0" "never_low A (bat c0)"
    "endpoints_idle (ser c)" "pll_ok (ser c)" "a AND 0x7F \<noteq> 0" "list_all (enough A) qs"
  shows "\<exists>u c'. host_enumerates a (ser c0) = Some u \<and>
    fold_opt exchange qs (c0\<lparr>ser := u\<rparr>) = Some c' \<and> sent_bytes (ser c') = concat (map reply_of qs)"
proof -
  note c0 = calm_start [OF assms(1-4)]
  obtain u where u: "host_enumerates a (ser c0) = Some u" "link_at [] None [] [] u"
    using enumerated_link [OF _ assms(5-7)] assms(1) c0(2) by (auto simp: power_on_def)
  obtain c' where "fold_opt exchange qs (c0\<lparr>ser := u\<rparr>) = Some c'" "link_at [] None [] (concat (map reply_of qs)) (ser c')"
    using session_ok [of A "c0\<lparr>ser := u\<rparr>" "[]" qs] c0(1) u(2) assms(8) by auto
  then show ?thesis using u(1) by (auto simp: link_at_def)
qed

text \<open>Two times three, then one divided by zero, with three timer interrupts before each block and the battery switched off.\<close>

definition two_requests :: "host_request list" where
  "two_requests = [(CHR ''*'', f_of_int 2, f_of_int 3, replicate 18 (env_example 0, \<lambda>_. 3)),
     (CHR ''/'', f_of_int 1, 0, replicate 15 (env_example 0, \<lambda>_. 3))]"

theorem host_gets_replies_witness:
  "\<exists>c0 u c'. main_init (env_example 0) car_zero = Some c0 \<and> host_enumerates 5 (ser c0) = Some u \<and>
    fold_opt exchange two_requests (c0\<lparr>ser := u\<rparr>) = Some c' \<and>
    sent_bytes (ser c') = msg_frame (cstr ''cf'') (chr CHR ''*'') (le32 (f_of_int 6)) @ msg_frame (cstr ''cc'') (chr CHR ''/'') [chr CHR ''?'']"
proof -
  have n: "f_mul (f_of_int 2) (f_of_int 3) = f_of_int 6" "\<not> f_ne 0 0" by code_simp+
  have e: "adc (env_example 0) = Some 0" by (simp add: env_example_def)
  obtain c0 where c0: "main_init (env_example 0) car_zero = Some c0" "battery_set 0 (bat c0)"
    using main_init_ok [OF car_zero_power_on e] by blast
  have "endpoints_idle (ser car_zero)" "pll_ok (ser car_zero)"
    by (simp_all add: car_zero_def endpoints_idle_def sizes_ok_def usb_zero_def endpoint_zero_def)
  moreover have "list_all (enough {0}) two_requests"
    using n(2) e by (simp add: two_requests_def enough_def arithmetic_def reply_length samples_def list_all_iff)
  moreover have "concat (map reply_of two_requests) =
      msg_frame (cstr ''cf'') (chr CHR ''*'') (le32 (f_of_int 6)) @ msg_frame (cstr ''cc'') (chr CHR ''/'') [chr CHR ''?'']"
    using n by (simp add: two_requests_def reply_of_def reply_def)
  ultimately show ?thesis
    using host_gets_replies [OF car_zero_power_on e c0(1) off_never_low [OF c0(2)], of 5 two_requests] c0(1) by auto
qed

section \<open>Driving\<close>

text \<open>C13 (safety). When the stop flag is due the loop switches both motors off and clears the target velocities, the target positions and the flags of distance
  control, velocity control and the timed duty cycle, but not the flag of the obstacle avoidance nor \<open>first_time\<close>.\<close>

theorem motor_stop_stops:
  assumes "frame_ok c" "MSG_FLAG_Execute mf_motor_stop c"
  shows "\<exists>c'. block_motor_stop e c = Some c' \<and> motors_stand (mot c') \<and> \<not> Is_Motor_PWM_Enabled (mot c') \<and> velocities c' = (0, 0) \<and>
    target_pos (ctr_LeftMotor c') = 0 \<and> target_pos (ctr_RightMotor c') = 0 \<and>
    \<not> active (flag c' mf_motor_stop) \<and> \<not> active (flag c' mf_motor_dist_control) \<and> \<not> active (flag c' mf_motor_vel_control) \<and>
    \<not> active (flag c' mf_timed_pwm) \<and> active (flag c' mf_obj_avoidance) = active (flag c mf_obj_avoidance) \<and> first_time c' = first_time c"
  by (rule motor_stop_block [OF assms])

lemma car_flagged_ok: "frame_ok (car_flagged k d)" "mot (car_flagged k d) = mot car_ready"
  using car_ready_ok(1) by (simp_all add: car_flagged_def frame_ok_def)

lemma car_flagged_0: "MSG_FLAG_Execute k (car_flagged k 0)"
proof -
  have f: "flag (car_flagged k 0) k = \<lparr>active = True, duration = f_of_int 0, last_trigger_time = GetTime_c (car_flagged k 0)\<rparr>"
    by (simp add: car_flagged_def GetTime_c_def)
  have "MSG_FLAG_Execute k ((car_flagged k 0)\<lparr>tim := (TIMER0_COMPB_vect ^^ 0) (tim (car_flagged k 0))\<rparr>)"
    using period_after_ticks [of "car_flagged k 0" k 0 0] by (simp only: f) simp
  then show ?thesis by simp
qed

theorem motor_stop_stops_witness:
  "\<exists>c'. block_motor_stop (env_example 0) (car_flagged mf_motor_stop 0) = Some c' \<and> motors_stand (mot c')"
  using motor_stop_stops [OF car_flagged_ok(1) car_flagged_0, of "env_example 0"] by blast

text \<open>C14 (liveness). A distance drive ends as soon as one track has covered its target: the motors are switched off, the
  target velocities, the target positions and the flag are cleared and the next drive starts measuring anew. Until then the motors run, the remaining
  distances shrink by the measured ones, and the direction pins follow the signs of the remaining distances.\<close>

theorem distance_drive_progress:
  assumes "frame_ok c" "MSG_FLAG_Execute mf_motor_dist_control c" "\<not> first_time c"
    "measure_tracks (read_ticks c) = Some (ml, mr)"
    "Velocity_to_DutyCycle_Left (target_vel (ctr_LeftMotor c)) = Some pl" "0 < sint pl"
    "Velocity_to_DutyCycle_Right (target_vel (ctr_RightMotor c)) = Some pr" "0 < sint pr"
  shows "\<exists>c'. block_dist_control e c = Some c' \<and>
    (if reached (target_pos (ctr_LeftMotor c)) ml \<or> reached (target_pos (ctr_RightMotor c)) mr
     then motors_stand (mot c') \<and> \<not> Is_Motor_PWM_Enabled (mot c') \<and> velocities c' = (0, 0) \<and>
       target_pos (ctr_LeftMotor c') = 0 \<and> target_pos (ctr_RightMotor c') = 0 \<and> \<not> active (flag c' mf_motor_dist_control) \<and> first_time c'
     else Is_Motor_PWM_Enabled (mot c') \<and>
       target_pos (ctr_LeftMotor c') = f_sub (target_pos (ctr_LeftMotor c)) ml \<and>
       target_pos (ctr_RightMotor c') = f_sub (target_pos (ctr_RightMotor c)) mr \<and>
       bit (PORTB (regs c')) 2 = (\<not> f_lt 0 (target_pos (ctr_LeftMotor c'))) \<and>
       bit (PORTB (regs c')) 1 = (\<not> f_lt 0 (target_pos (ctr_RightMotor c'))))"
proof (cases "reached (target_pos (ctr_LeftMotor c)) ml \<or> reached (target_pos (ctr_RightMotor c)) mr")
  case True
  then show ?thesis using distance_reached [OF assms(1-4) True, of e] by auto
next
  case False
  then show ?thesis using distance_continues [OF assms(1-4) _ _ assms(5-8), of e] by auto
qed

text \<open>A car on a distance drive, with the same target, old and new count on both tracks.\<close>

definition car_driving :: "float32 \<Rightarrow> int \<Rightarrow> int \<Rightarrow> car" where
  "car_driving d old new =
     (let c = car_flagged mf_motor_dist_control 0; k = controller_zero\<lparr>target_pos := d, target_vel := f_lit 2 10\<rparr>
      in c\<lparr>first_time := False, ctr_LeftMotor := k, ctr_RightMotor := k, ticksL_old := f_of_int old, ticksR_old := f_of_int old,
         enc := encoder_reset\<lparr>left_counts := word_of_int new, right_counts := word_of_int new\<rparr>\<rparr>)"

lemma car_driving_ok: "frame_ok (car_driving d i j)" "MSG_FLAG_Execute mf_motor_dist_control (car_driving d i j)" "\<not> first_time (car_driving d i j)"
  using car_flagged_ok(1) [of mf_motor_dist_control 0] car_flagged_0 [of mf_motor_dist_control]
  by (simp_all add: car_driving_def Let_def frame_ok_def MSG_FLAG_Execute_def GetTime_c_def split: if_splits)

lemma car_driving_fields:
  "target_pos (ctr_LeftMotor (car_driving d i j)) = d" "target_pos (ctr_RightMotor (car_driving d i j)) = d"
  "target_vel (ctr_LeftMotor (car_driving d i j)) = f_lit 2 10" "target_vel (ctr_RightMotor (car_driving d i j)) = f_lit 2 10"
  "ticksL_old (car_driving d i j) = f_of_int i" "ticksR_old (car_driving d i j) = f_of_int i"
  "left_counts (enc (car_driving d i j)) = word_of_int j" "right_counts (enc (car_driving d i j)) = word_of_int j"
  by (simp_all add: car_driving_def Let_def)

lemma driving_numbers:
  "f_to_s16 (f_sub (f_of_int 3000) (f_of_int 0)) = Some 3000" "reached (f_lit 1 10) (ECount_to_Distance 3000)"
  "f_to_s16 (f_sub (f_of_int 10) (f_of_int 0)) = Some 10" "\<not> reached (f_lit 1 10) (ECount_to_Distance 10)"
  by code_simp+

lemma driving_duty:
  "\<exists>p. Velocity_to_DutyCycle_Left (f_lit 2 10) = Some p \<and> 0 < sint p" "\<exists>p. Velocity_to_DutyCycle_Right (f_lit 2 10) = Some p \<and> 0 < sint p"
proof -
  have "case Velocity_to_DutyCycle_Left (f_lit 2 10) of None \<Rightarrow> False | Some p \<Rightarrow> 0 < sint p"
    "case Velocity_to_DutyCycle_Right (f_lit 2 10) of None \<Rightarrow> False | Some p \<Rightarrow> 0 < sint p" by code_simp+
  then show "\<exists>p. Velocity_to_DutyCycle_Left (f_lit 2 10) = Some p \<and> 0 < sint p" "\<exists>p. Velocity_to_DutyCycle_Right (f_lit 2 10) = Some p \<and> 0 < sint p"
    by (auto split: option.splits)
qed

theorem distance_drive_progress_witness:
  "\<exists>c c'. block_dist_control (env_example 0) (car_driving (f_lit 1 10) 0 3000) = Some c \<and> motors_stand (mot c) \<and>
    block_dist_control (env_example 0) (car_driving (f_lit 1 10) 0 10) = Some c' \<and> Is_Motor_PWM_Enabled (mot c')"
proof -
  have m: "measure_tracks (read_ticks (car_driving (f_lit 1 10) 0 3000)) = Some (ECount_to_Distance 3000, ECount_to_Distance 3000)"
    "measure_tracks (read_ticks (car_driving (f_lit 1 10) 0 10)) = Some (ECount_to_Distance 10, ECount_to_Distance 10)"
    using driving_numbers(1,3) by (simp_all add: measure_tracks_def car_driving_fields)
  obtain p q where "Velocity_to_DutyCycle_Left (f_lit 2 10) = Some p" "0 < sint p" "Velocity_to_DutyCycle_Right (f_lit 2 10) = Some q" "0 < sint q"
    using driving_duty by blast
  then show ?thesis using distance_drive_progress [OF car_driving_ok m(1), of p q "env_example 0"]
      distance_drive_progress [OF car_driving_ok m(2), of p q "env_example 0"] driving_numbers(2,4)
    by (simp only: car_driving_fields if_True if_False disj_not1 simp_thms) blast
qed

text \<open>C36 (error). The stop command during a drive and a distance command after it: the command zeroes the encoders, but the drive measures
  from the counts of the drive that was stopped. Where the difference, zero minus those counts, is on the far side of the target, the new drive
  ends when its control block is first due, at counts of zero and with the motors off: the car does not move.\<close>

theorem stale_counts_end_drive:
  assumes "frame_ok c" "\<not> first_time c" "in_bytes (ser c) = chr CHR ''s'' # chr CHR ''d'' # le32 x @ le32 a @ bs"
    "battery_good (Battery_Voltage (bat c))" "Message_Handling_Task c = Some c1" "Message_Handling_Task c1 = Some c2"
    "c3 = c2\<lparr>tim := (TIMER0_COMPB_vect ^^ n) (tim c2)\<rparr>" "MSG_FLAG_Execute mf_motor_dist_control c3"
    "f_to_s16 (f_sub (f_of_int 0) (ticksL_old c)) = Some l" "f_to_s16 (f_sub (f_of_int 0) (ticksR_old c)) = Some r"
    "reached (distance_left (distance_plan x a)) (ECount_to_Distance l) \<or> reached (distance_right (distance_plan x a)) (ECount_to_Distance r)"
  shows "left_counts (enc c3) = 0 \<and> right_counts (enc c3) = 0 \<and>
    (\<exists>c'. block_dist_control e c3 = Some c' \<and> motors_stand (mot c') \<and> \<not> active (flag c' mf_motor_dist_control))"
  by (rule stale_start [OF assms])

text \<open>A car with the given battery, 100 ms after its start, that has driven 5000 counts on both tracks and has received a packet.\<close>

definition car_stopped :: "battery \<Rightarrow> byte list \<Rightarrow> car" where
  "car_stopped b p = (car_received p)\<lparr>bat := b, tim := timing_reset\<lparr>count_ms := 100\<rparr>, ctr_LeftMotor := controller_zero\<lparr>update_period := f_of_int 10\<rparr>,
     first_time := False, ticksL_old := f_of_int 5000, ticksR_old := f_of_int 5000\<rparr>"

lemma full_battery: "\<exists>b. battery_good (Battery_Voltage b)"
proof -
  have "rb_wf 8 rb_zero_F" by (simp add: rb_zero_F_def rb_wf_def)
  then obtain b where "Battery_Voltage b = volts 1023"
    using Battery_Monitor_Init_ok [of battery_reset 1023] by (auto simp: battery_reset_def filter_zero_def)
  moreover have "battery_good (volts 1023)" by code_simp
  ultimately show ?thesis by metis
qed

lemma car_stopped_ok:
  assumes "length p \<le> 63"
  shows "frame_ok (car_stopped b p)" "in_bytes (ser (car_stopped b p)) = p"
  using car_received_ok [OF assms]
  by (simp_all add: car_stopped_def frame_ok_def car_ok_def) (simp add: car_received_def car_ready_def motor_ok_def motor_reset_def)

theorem stale_counts_end_drive_witness:
  "\<exists>b c1 c2 c'. let c = car_stopped b (chr CHR ''s'' # chr CHR ''d'' # le32 (f_lit (-1) 10) @ le32 0) in
    Message_Handling_Task c = Some c1 \<and> Message_Handling_Task c1 = Some c2 \<and> left_counts (enc c2) = 0 \<and>
    block_dist_control (env_example 0) c2 = Some c' \<and> motors_stand (mot c')"
proof -
  let ?p = "chr CHR ''s'' # chr CHR ''d'' # le32 (f_lit (-1) 10) @ le32 0 @ []"
  obtain b where b: "battery_good (Battery_Voltage b)" using full_battery by blast
  let ?c = "car_stopped b ?p"
  note ok = car_stopped_ok [of ?p b]
  have c: "bat ?c = b" "\<not> first_time ?c" "ticksL_old ?c = f_of_int 5000" "ticksR_old ?c = f_of_int 5000" "update_period (ctr_LeftMotor ?c) = f_of_int 10"
      "count_ms (tim ?c) = 100" "millisec (last_trigger_time (flag ?c mf_motor_dist_control)) = 0"
    by (simp_all add: car_stopped_def) (simp add: car_received_def car_ready_def car_zero_def flag_zero_def time_zero_def)
  obtain c1 where c1: "Message_Handling_Task ?c = Some c1"
    using Message_Handling_Task_defined [of ?c] ok by (auto simp: command_pre_def frame_ok_def car_ok_def motor_ok_def)
  have "frame_ok c1" using blocks_frame_ok [of ?c block_message "env_example 0" c1] ok c1 by (simp add: block_message_def main_blocks_def)
  then obtain c2 where c2: "Message_Handling_Task c1 = Some c2"
    using Message_Handling_Task_defined [of c1] stop_command [of ?c _ c1] ok c1 by (auto simp: command_pre_def frame_ok_def car_ok_def motor_ok_def)
  obtain u where s: "case_s ?c = Some c1" "c2 = drive_distance CHR ''d'' (f_lit (-1) 10) 0 (c1\<lparr>ser := u\<rparr>)"
    using stop_then_distance [OF ok(1) _ _ c1 c2, of "f_lit (-1) 10" 0 "[]"] ok(2) b c(1) by auto
  have "MSG_FLAG_Execute mf_motor_dist_control c2" using next_drive_due [OF s] c(5-7) by (simp add: f_le_of_int)
  moreover have "distance_left (distance_plan (f_lit (-1) 10) 0) = f_lit (-1) 10"
    using stale_numbers(3) by (simp add: distance_plan_def plan_straight_def)
  moreover have "c2 = c2\<lparr>tim := (TIMER0_COMPB_vect ^^ 0) (tim c2)\<rparr>" by simp
  ultimately show ?thesis
    using stale_counts_end_drive [OF ok(1) c(2) _ _ c1 c2, of "f_lit (-1) 10" 0 "[]" c2 0 "0xEC78" "0xEC78" "env_example 0"] ok(2) b c stale_numbers c1 c2
    by (simp add: Let_def) blast
qed

text \<open>C37 (error). For either sign of the angle the plan of a spin moves the left track backwards and the right track forwards:
  a turn to the other side turns the same way.\<close>

theorem spin_one_way:
  assumes "f_lt 0 a \<or> f_lt a 0"
  shows "f_sgn (distance_left (plan_spin a)) \<and> \<not> f_sgn (distance_right (plan_spin a))"
  using plan_spin_signs [OF assms] by simp

theorem spin_one_way_witness: "f_sgn (distance_left (plan_spin 0x3F800000)) \<and> f_sgn (distance_left (plan_spin 0xBF800000))"
proof -
  have "f_lt 0 0x3F800000" "f_lt 0xBF800000 0" by code_simp+
  then show ?thesis using spin_one_way [of "0x3F800000"] spin_one_way [of "0xBF800000"] by simp
qed

section \<open>Obstacle avoidance\<close>

text \<open>C11 (refinement). Three passes of the obstacle avoidance are one step of its decision machine on the left count of the
  first pass and the right count of the second; only the third pass reports completion, and the target
  velocities stay those of the state.\<close>

theorem obstacle_avoidance_cycle:
  assumes "oa_inv c" "read_state c = READ_L"
    "Run_OA_Task e1 c = (a1, c1)" "Run_OA_Task e2 c1 = (a2, c2)" "Run_OA_Task e3 c2 = (a3, c3)"
  shows "a1 \<and> a2 \<and> \<not> a3 \<and> read_state c3 = READ_L \<and> oa_inv c3 \<and>
    (OA_state c3, unat (alpha c3)) = oa_next (OA_state c) (unat (alpha c)) (reading_of (hits (ir e1)) (hits (ir e2)))"
  by (rule oa_cycle [OF assms])

theorem obstacle_avoidance_cycle_witness:
  "\<not> fst (Run_OA_Task (env_example 0) (snd (Run_OA_Task (env_example 0) (snd (Run_OA_Task (env_example 0) car_ready)))))"
proof -
  have "read_state car_ready = READ_L" by (simp add: car_ready_def car_zero_def)
  then show ?thesis
    using obstacle_avoidance_cycle [OF car_ready_ok(3) _ surjective_pairing surjective_pairing surjective_pairing, of "env_example 0" "env_example 0" "env_example 0"]
    by blast
qed

text \<open>C12 (liveness). From the command that starts the obstacle avoidance on, in every run of the loop in which no driving command arrives,
  with all other commands, blocks and interrupts in between: after five decisions in a row that see nothing the car
  drives straight, whatever it did before them. The machine is in its state for it, the target velocities are those of driving straight, and obstacle avoidance
  and velocity control are active and no other way of driving is.\<close>

theorem clear_view_drives_straight:
  assumes "car_ok c" "in_bytes (ser c) = chr CHR ''O'' # le32 d @ bs" "battery_good (Battery_Voltage (bat c))" "f_lt 0 d"
    "Message_Handling_Task c = Some c0" "undisturbed c0 n (pc, c')" "5 \<le> n"
  shows "OA_state c' = DRIVE_STRAIGHT \<and> velocities c' = (straightL, straightR) \<and>
    active (flag c' mf_obj_avoidance) \<and> active (flag c' mf_motor_vel_control) \<and>
    \<not> active (flag c' mf_motor_dist_control) \<and> \<not> active (flag c' mf_motor_stop) \<and> \<not> active (flag c' mf_timed_pwm)"
proof -
  have "avoiding n c'" using avoid.always [OF assms(6) avoid_command [OF assms(1-5)]] by simp
  then show ?thesis using clear_straight [OF _ assms(7)] by (auto simp: avoiding_def only_avoids_def)
qed

text \<open>A car with the given battery whose interrupts are enabled, and a view with nothing in it.\<close>

definition car_avoiding :: "battery \<Rightarrow> byte list \<Rightarrow> car" where
  "car_avoiding b p = (car_received p)\<lparr>bat := b, regs := io_reset\<lparr>SREG := 0x80\<rparr>, ctr_LeftMotor := controller_zero\<lparr>update_period := f_of_int 10\<rparr>\<rparr>"

definition env_clear :: env where
  "env_clear = (env_example 0)\<lparr>ir := \<lparr>pinf_rmw = 0, pinf_sample = (\<lambda>i. 2)\<rparr>\<rparr>"

lemma car_avoiding_ok:
  assumes "length p \<le> 63"
  shows "car_ok (car_avoiding b p)" "in_bytes (ser (car_avoiding b p)) = p" "bat (car_avoiding b p) = b"
  using car_received_ok [OF assms] by (simp_all add: car_avoiding_def car_ok_def)

theorem clear_view_drives_straight_witness:
  "\<exists>b c0 c'. Message_Handling_Task (car_avoiding b (chr CHR ''O'' # le32 (f_lit 1 1000))) = Some c0 \<and> undisturbed c0 5 (0, c') \<and> OA_state c' = DRIVE_STRAIGHT"
proof -
  obtain b where b: "battery_good (Battery_Voltage b)" using full_battery by blast
  let ?d = "f_lit 1 1000"
  let ?p = "chr CHR ''O'' # le32 ?d @ []"
  let ?c = "car_avoiding b ?p"
  have n: "f_lt 0 ?d" "seconds_to_ms ?d = f_of_int 1" by code_simp+
  have ok: "car_ok ?c" "in_bytes (ser ?c) = ?p" "battery_good (Battery_Voltage (bat ?c))" using car_avoiding_ok [of ?p b] b by simp_all
  obtain u where u: "Message_Handling_Task ?c = Some (set_duration mf_obj_avoidance (seconds_to_ms ?d)
      (set_active mf_obj_avoidance True (Init_Obstacle_Avoidance (Reset_Drive_Flags (?c\<lparr>ser := u\<rparr>)))))" (is "_ = Some ?c0")
    "usb_wf u" "in_bytes u = []" "USB_DeviceState u = USB_DeviceState (ser ?c)"
    using avoid_started [OF ok n(1)] by blast
  have "USB_DeviceState u = DEVICE_STATE_Unattached"
    using u(4) by (simp add: car_avoiding_def car_received_def usb_zero_def)
  moreover have "usb_msg_length u = 0" using usb_msg_length_0 [OF u(2)] u(3) by simp
  moreover have "hits (ir env_clear) = 0" by (simp add: env_clear_def hits_def)
  moreover have "between u 0 ?c0"
    using n(2) by (simp add: between_def Init_Obstacle_Avoidance_def Reset_Drive_Flags_def car_avoiding_def car_received_def car_ready_def car_zero_def flag_zero_def
        time_zero_def timing_reset_def io_reset_def set_active_def set_duration_def set_flag_def LED_def Let_def)
  ultimately obtain c' where c': "undisturbed ?c0 5 (0, c')" using clear_run [of u ?c0 env_clear 5] by auto
  show ?thesis using clear_view_drives_straight [OF ok n(1) u(1) c'] u(1) c' by auto
qed

text \<open>C40 (error). A duty cycle command during obstacle avoidance switches the velocity control off but leaves the obstacle avoidance on. From then on, as long
  as no other driving command arrives, the avoidance keeps taking decisions without effect: velocity control stays off, since only a decision in the initial state
  turns it on and the machine does not return there.\<close>

theorem duty_cycle_strands_avoidance:
  assumes "car_ok c" "in_bytes (ser c) = chr CHR ''p'' # le16 l @ le16 r @ bs" "battery_good (Battery_Voltage (bat c))"
    "active (flag c mf_obj_avoidance)" "OA_state c \<noteq> INIT" "Message_Handling_Task c = Some c0" "undisturbed c0 n (pc, c')"
  shows "active (flag c' mf_obj_avoidance) \<and> \<not> active (flag c' mf_motor_vel_control) \<and> OA_state c' \<noteq> INIT"
  using stuck.always [OF assms(7) duty_command [OF assms(1-3,6,4,5)]] by (simp add: stuck_def)

theorem duty_cycle_strands_avoidance_witness:
  "\<exists>b c c0. flag c = (flag car_ready)(mf_obj_avoidance := flag_zero\<lparr>active := True\<rparr>) \<and> in_bytes (ser c) = chr CHR ''p'' # le16 50 @ le16 50 \<and> bat c = b \<and>
    OA_state c = DRIVE_STRAIGHT \<and> Message_Handling_Task c = Some c0 \<and> undisturbed c0 0 (2, c0) \<and> \<not> active (flag c0 mf_motor_vel_control)"
proof -
  obtain b where b: "battery_good (Battery_Voltage b)" using full_battery by blast
  let ?p = "chr CHR ''p'' # le16 50 @ le16 50 @ []"
  let ?c = "(car_avoiding b ?p)\<lparr>flag := (flag car_ready)(mf_obj_avoidance := flag_zero\<lparr>active := True\<rparr>), OA_state := DRIVE_STRAIGHT\<rparr>"
  have ok: "car_ok ?c" "in_bytes (ser ?c) = ?p" "battery_good (Battery_Voltage (bat ?c))" "active (flag ?c mf_obj_avoidance)" "OA_state ?c \<noteq> INIT"
    using car_avoiding_ok [of ?p b] b by (simp_all add: car_ok_def)
  obtain c0 where c0: "Message_Handling_Task ?c = Some c0"
    using Message_Handling_Task_defined [of ?c] ok(1,2) by (auto simp: command_pre_def pwm_args_def int_at_def le16_def)
  show ?thesis using duty_cycle_strands_avoidance [OF ok c0 undisturbed.start] ok(2) c0 undisturbed.start
    by (intro exI [of _ b] exI [of _ ?c] exI [of _ c0]) (simp add: car_avoiding_def)
qed

end
